theory Spec2Isabelle
  imports Main "HOL-Library.Sublist"
begin

section \<open>JavaScript values of the configuration object\<close>

text \<open>
  The script reads one configuration object (\<^verbatim>\<open>window.a11yMenuConfig\<close>). Its values are
  modelled by the JavaScript types the script can meet there: \<^verbatim>\<open>undefined\<close>,
  \<^verbatim>\<open>null\<close>, booleans, strings, arrays and plain objects. An object is the
  association list of its own properties in property order, whatever their names (so
  \<^verbatim>\<open>toString\<close> or \<^verbatim>\<open>hasOwnProperty\<close> may be among them and hide the inherited
  method). Numbers and functions are not modelled. A string is a list of characters
  with codes below 256.
\<close>

datatype jsval =
    JUndefined
  | JNull
  | JBool bool
  | JStr string
  | JArr "jsval list"
  | JObj "(string \<times> jsval) list"

datatype error = TypeError | SyntaxError | InvalidCharacterError | NotFoundError

text \<open>\<^verbatim>\<open>null != v\<close>: neither \<^verbatim>\<open>null\<close> nor \<^verbatim>\<open>undefined\<close>.\<close>

fun not_nullish :: "jsval \<Rightarrow> bool" where
  "not_nullish JUndefined = False"
| "not_nullish JNull = False"
| "not_nullish _ = True"

text \<open>Truthiness, as \<^verbatim>\<open>!\<close>, \<^verbatim>\<open>||\<close> and \<^verbatim>\<open>if\<close> read a value.\<close>

fun truthy :: "jsval \<Rightarrow> bool" where
  "truthy JUndefined = False"
| "truthy JNull = False"
| "truthy (JBool b) = b"
| "truthy (JStr s) = (s \<noteq> [])"
| "truthy (JArr _) = True"
| "truthy (JObj _) = True"

fun is_string :: "jsval \<Rightarrow> bool" where
  "is_string (JStr _) = True"
| "is_string _ = False"

text \<open>Joining strings with a separator (\<^verbatim>\<open>Array.prototype.join\<close>).\<close>

fun join :: "string \<Rightarrow> string list \<Rightarrow> string" where
  "join sep [] = []"
| "join sep [x] = x"
| "join sep (x # y # ys) = x @ sep @ join sep (y # ys)"

text \<open>
  The string a value is converted to when it is passed where the DOM expects a string
  (\<^verbatim>\<open>setAttribute\<close>, \<^verbatim>\<open>querySelectorAll\<close>, \<^verbatim>\<open>classList\<close>, string
  concatenation). An object is converted by its \<^verbatim>\<open>toString\<close>, then by its
  \<^verbatim>\<open>valueOf\<close>. The values modelled hold no function, so an own property
  \<^verbatim>\<open>toString\<close> is not callable and the inherited \<^verbatim>\<open>valueOf\<close> returns the object:
  the conversion throws a TypeError. Without an own \<^verbatim>\<open>toString\<close> the inherited one
  gives \<^verbatim>\<open>[object Object]\<close>. An array is joined with commas, \<^verbatim>\<open>null\<close> and
  \<^verbatim>\<open>undefined\<close> giving the empty string and every other element being converted.
\<close>

fun to_string :: "jsval \<Rightarrow> error + string"
  and to_strings :: "jsval list \<Rightarrow> error + string list" where
  "to_string JUndefined = Inr ''undefined''"
| "to_string JNull = Inr ''null''"
| "to_string (JBool b) = Inr (if b then ''true'' else ''false'')"
| "to_string (JStr s) = Inr s"
| "to_string (JArr xs) =
     (case to_strings xs of Inl e \<Rightarrow> Inl e | Inr ss \<Rightarrow> Inr (join '','' ss))"
| "to_string (JObj kvs) =
     (if ''toString'' \<in> set (map fst kvs) then Inl TypeError else Inr ''[object Object]'')"
| "to_strings [] = Inr []"
| "to_strings (x # xs) =
     (case (if not_nullish x then to_string x else Inr []) of
        Inl e \<Rightarrow> Inl e
      | Inr s \<Rightarrow> (case to_strings xs of Inl e \<Rightarrow> Inl e | Inr ss \<Rightarrow> Inr (s # ss)))"

text \<open>
  Reading a property \<^verbatim>\<open>v[k]\<close> of a value that is neither \<^verbatim>\<open>null\<close> nor
  \<^verbatim>\<open>undefined\<close>. The script only reads keys that are no array index and no built-in
  property, so a string, an array or a boolean has none of them.
\<close>

fun get_prop :: "jsval \<Rightarrow> string \<Rightarrow> jsval" where
  "get_prop (JObj kvs) k = (case map_of kvs k of Some v \<Rightarrow> v | None \<Rightarrow> JUndefined)"
| "get_prop _ k = JUndefined"

text \<open>Decimal digits of an array index, for the keys of a string or an array.\<close>

fun dec :: "nat \<Rightarrow> string" where
  "dec n = (if n < 10 then [char_of (48 + n)] else dec (n div 10) @ [char_of (48 + n mod 10)])"

text \<open>\<^verbatim>\<open>Object.keys(v)\<close> for a value that is neither \<^verbatim>\<open>null\<close> nor \<^verbatim>\<open>undefined\<close>.\<close>

fun object_keys :: "jsval \<Rightarrow> string list" where
  "object_keys (JObj kvs) = map fst kvs"
| "object_keys (JStr s) = map dec [0..<length s]"
| "object_keys (JArr xs) = map dec [0..<length xs]"
| "object_keys _ = []"

section \<open>Options\<close>

text \<open>
  The character class of \<^verbatim>\<open>/[^a-zA-Z0-9\-_]/g\<close>: the characters that
  \<^verbatim>\<open>replace\<close> keeps.
\<close>

definition class_char :: "char \<Rightarrow> bool" where
  "class_char c \<longleftrightarrow>
     (let n = (of_char c :: nat) in
        (97 \<le> n \<and> n \<le> 122) \<or> (65 \<le> n \<and> n \<le> 90) \<or> (48 \<le> n \<and> n \<le> 57)
        \<or> c = CHR ''-'' \<or> c = CHR ''_'')"

definition sanitize :: "string \<Rightarrow> string" where
  "sanitize s = filter class_char s"

text \<open>Assigning to a property the object already has keeps the property order.\<close>

fun set_prop :: "string \<Rightarrow> 'v \<Rightarrow> (string \<times> 'v) list \<Rightarrow> (string \<times> 'v) list" where
  "set_prop k v [] = []"
| "set_prop k v ((k', v') # kvs) = (if k' = k then (k', v) else (k', v')) # set_prop k v kvs"

definition has_own :: "(string \<times> jsval) list \<Rightarrow> string \<Rightarrow> bool" where
  "has_own kvs k \<longleftrightarrow> k \<in> set (map fst kvs)"

text \<open>
  One turn of the loop \<^verbatim>\<open>for ( let id in config )\<close>. The name of the option that
  holds the class is \<^verbatim>\<open>expanded-class\<close> in version 0.0.6 and
  \<^verbatim>\<open>expanded_class\<close> from 0.0.7 on. Calling \<^verbatim>\<open>replace\<close> on a value that
  is no string throws a TypeError.
\<close>

definition override_option ::
  "string \<Rightarrow> (string \<times> jsval) list \<Rightarrow> string \<Rightarrow> (string \<times> jsval) list
     \<Rightarrow> error + (string \<times> jsval) list" where
  "override_option class_key config k opts =
     (if has_own opts k then
        (if k = class_key then
           (case get_prop (JObj config) k of
              JStr s \<Rightarrow> Inr (set_prop k (JStr (sanitize s)) opts)
            | _ \<Rightarrow> Inl TypeError)
         else Inr (set_prop k (get_prop (JObj config) k) opts))
      else Inr opts)"

fun override_options ::
  "string \<Rightarrow> (string \<times> jsval) list \<Rightarrow> string list \<Rightarrow> (string \<times> jsval) list
     \<Rightarrow> error + (string \<times> jsval) list" where
  "override_options class_key config [] opts = Inr opts"
| "override_options class_key config (k # ks) opts =
     (case override_option class_key config k opts of
        Inl e \<Rightarrow> Inl e
      | Inr opts' \<Rightarrow> override_options class_key config ks opts')"

text \<open>The defaults of \<^verbatim>\<open>setArgs\<close> in version 0.0.6.\<close>

definition default_args :: "(string \<times> jsval) list" where
  "default_args =
     [(''button-attributes'',
         JObj [(''class'', JStr ''button-toggle-sub-menu''),
               (''aria-label'',
                  JObj [(''collapse'', JStr ''Collapse child menu''),
                        (''expand'', JStr ''Expand child menu'')])]),
      (''button-selector'', JStr ''button[aria-expanded]''),
      (''child-menu-selector'', JStr ''.sub-menu''),
      (''expanded-class'', JStr ''has-expanded-sub-menu''),
      (''menu-selector'', JStr ''.toggle-sub-menus'')]"

text \<open>The defaults of \<^verbatim>\<open>setOptions\<close> in version 1.0.0.\<close>

definition default_options :: "(string \<times> jsval) list" where
  "default_options =
     [(''button_attributes'',
         JObj [(''class'', JStr ''button-toggle-sub-menu''),
               (''aria-label'',
                  JObj [(''collapse'', JStr ''Collapse child menu''),
                        (''expand'', JStr ''Expand child menu'')])]),
      (''child_menu_selector'', JStr ''.sub-menu''),
      (''expanded_class'', JStr ''has-expanded-sub-menu''),
      (''menu_selector'', JStr ''nav .menu''),
      (''mode'', JArr [JStr ''tab'', JStr ''esc'', JStr ''button'', JStr ''touch''])]"

text \<open>
  \<^verbatim>\<open>setArgs\<close> (0.0.6) and \<^verbatim>\<open>setOptions\<close> (1.0.0) return the object they store in
  \<^verbatim>\<open>_.args\<close> / \<^verbatim>\<open>_.options\<close>; the list of menu containers is reset by the caller
  of this function in the model of \<^verbatim>\<open>init\<close>.
\<close>

definition setArgs :: "(string \<times> jsval) list \<Rightarrow> error + (string \<times> jsval) list" where
  "setArgs config = override_options ''expanded-class'' config (map fst config) default_args"

definition setOptions :: "(string \<times> jsval) list \<Rightarrow> error + (string \<times> jsval) list" where
  "setOptions config = override_options ''expanded_class'' config (map fst config) default_options"

text \<open>
  The value one turn of the loop gives to an option the configuration names: the
  configured value, and for the class option the sanitised string.
\<close>

definition override_value :: "string \<Rightarrow> (string \<times> jsval) list \<Rightarrow> string \<Rightarrow> jsval" where
  "override_value ck config k =
     (if k = ck then
        (case get_prop (JObj config) k of JStr c \<Rightarrow> JStr (sanitize c) | v \<Rightarrow> v)
      else get_prop (JObj config) k)"
text \<open>
  \<^verbatim>\<open>v.hasOwnProperty(k)\<close> for the labels the script asks for (none of them an index
  or \<^verbatim>\<open>length\<close>): only an object can own them. The call throws a TypeError on
  \<^verbatim>\<open>null\<close> and \<^verbatim>\<open>undefined\<close>, and on an object with an own property
  \<^verbatim>\<open>hasOwnProperty\<close>, which hides the method and is no function.
\<close>

fun hasOwnProperty :: "jsval \<Rightarrow> string \<Rightarrow> error + bool" where
  "hasOwnProperty JUndefined k = Inl TypeError"
| "hasOwnProperty JNull k = Inl TypeError"
| "hasOwnProperty (JObj kvs) k =
     (if has_own kvs ''hasOwnProperty'' then Inl TypeError else Inr (has_own kvs k))"
| "hasOwnProperty _ k = Inr False"

text \<open>
  \<^verbatim>\<open>getArg\<close> of version 0.0.6: it walks down the labels and returns a string or the
  empty string.
\<close>

fun getArg_loop :: "jsval \<Rightarrow> string list \<Rightarrow> error + jsval" where
  "getArg_loop v [] = Inr v"
| "getArg_loop v (l # ls) =
     (case hasOwnProperty v l of
        Inl e \<Rightarrow> Inl e
      | Inr True \<Rightarrow> getArg_loop (get_prop v l) ls
      | Inr False \<Rightarrow> getArg_loop (JObj []) ls)"

definition getArg :: "(string \<times> jsval) list \<Rightarrow> string list \<Rightarrow> error + string" where
  "getArg args labels =
     (case getArg_loop (JObj args) labels of
        Inl e \<Rightarrow> Inl e
      | Inr (JStr s) \<Rightarrow> Inr s
      | Inr _ \<Rightarrow> Inr [])"

text \<open>
  \<^verbatim>\<open>getOption\<close> of version 1.0.0: every level that is \<^verbatim>\<open>null\<close> or
  \<^verbatim>\<open>undefined\<close> becomes \<^verbatim>\<open>false\<close>.
\<close>

definition getOption_step :: "string \<Rightarrow> jsval \<Rightarrow> jsval" where
  "getOption_step l v = (if not_nullish (get_prop v l) then get_prop v l else JBool False)"

definition getOption :: "(string \<times> jsval) list \<Rightarrow> string list \<Rightarrow> jsval" where
  "getOption opts labels = fold getOption_step labels (JObj opts)"

text \<open>\<^verbatim>\<open>String.prototype.indexOf( m ) !== -1\<close>: \<open>m\<close> occurs in the string.\<close>

fun occurs_in :: "string \<Rightarrow> string \<Rightarrow> bool" where
  "occurs_in m [] = (m = [])"
| "occurs_in m (c # cs) = (prefix m (c # cs) \<or> occurs_in m cs)"

text \<open>
  \<^verbatim>\<open>isMode\<close>: \<^verbatim>\<open>modes.indexOf( mode )\<close> is the array search on an array, the
  substring search on a string, and no function on anything else.
\<close>

definition isMode :: "(string \<times> jsval) list \<Rightarrow> string \<Rightarrow> error + bool" where
  "isMode opts m =
     (case getOption opts [''mode''] of
        JArr xs \<Rightarrow> Inr (JStr m \<in> set xs)
      | JStr s \<Rightarrow> Inr (occurs_in m s)
      | _ \<Rightarrow> Inl TypeError)"

section \<open>Elements and their attributes\<close>

text \<open>
  What the script reads and writes of an element: its lower-case tag name, its attributes
  in order, and whether the browser can give it the focus (which depends on the element
  and on the style sheets of the page).
\<close>

record elem =
  localName :: string
  attributes :: "(string \<times> string) list"
  focusable :: bool

definition is_ws :: "char \<Rightarrow> bool" where
  "is_ws c \<longleftrightarrow> (of_char c :: nat) \<in> {9, 10, 12, 13, 32}"

text \<open>
  The names \<^verbatim>\<open>setAttribute\<close> accepts (DOM standard, valid attribute local name): not
  empty, without ASCII whitespace, NUL, \<^verbatim>\<open>/\<close>, \<^verbatim>\<open>=\<close> and \<^verbatim>\<open>>\<close>. Any other
  name throws an InvalidCharacterError.
\<close>

definition valid_attribute_name :: "string \<Rightarrow> bool" where
  "valid_attribute_name n \<longleftrightarrow>
     n \<noteq> [] \<and> list_all (\<lambda>c. \<not> is_ws c \<and> (of_char c :: nat) \<notin> {0, 47, 61, 62}) n"

definition getAttribute :: "string \<Rightarrow> elem \<Rightarrow> string option" where
  "getAttribute n e = map_of (attributes e) n"

definition set_attr :: "string \<Rightarrow> string \<Rightarrow> elem \<Rightarrow> elem" where
  "set_attr n v e =
     e\<lparr>attributes :=
         (if n \<in> set (map fst (attributes e)) then set_prop n v (attributes e)
          else attributes e @ [(n, v)])\<rparr>"

definition setAttribute :: "string \<Rightarrow> string \<Rightarrow> elem \<Rightarrow> error + elem" where
  "setAttribute n v e =
     (if valid_attribute_name n then Inr (set_attr n v e) else Inl InvalidCharacterError)"

subsection \<open>The class list\<close>

text \<open>
  \<^verbatim>\<open>classList\<close> is the ordered set of the whitespace-separated tokens of the
  \<^verbatim>\<open>class\<close> attribute. \<^verbatim>\<open>add\<close> and \<^verbatim>\<open>remove\<close> throw a SyntaxError on the
  empty token and an InvalidCharacterError on a token with whitespace; then they write the
  token set back, joined by single spaces. \<^verbatim>\<open>contains\<close> never throws.
\<close>

fun tokens_acc :: "string \<Rightarrow> string \<Rightarrow> string list" where
  "tokens_acc cur [] = (if cur = [] then [] else [cur])"
| "tokens_acc cur (c # cs) =
     (if is_ws c then (if cur = [] then tokens_acc [] cs else cur # tokens_acc [] cs)
      else tokens_acc (cur @ [c]) cs)"

fun ordered_set :: "string list \<Rightarrow> string list" where
  "ordered_set [] = []"
| "ordered_set (x # xs) = x # filter (\<lambda>y. y \<noteq> x) (ordered_set xs)"

definition class_tokens :: "elem \<Rightarrow> string list" where
  "class_tokens e =
     ordered_set (tokens_acc [] (case getAttribute ''class'' e of None \<Rightarrow> [] | Some v \<Rightarrow> v))"

definition classList_contains :: "string \<Rightarrow> elem \<Rightarrow> bool" where
  "classList_contains c e \<longleftrightarrow> c \<in> set (class_tokens e)"

definition classList_update :: "string list \<Rightarrow> elem \<Rightarrow> elem" where
  "classList_update toks e =
     (if getAttribute ''class'' e = None \<and> toks = [] then e
      else set_attr ''class'' (join '' '' toks) e)"

definition check_token :: "string \<Rightarrow> error option" where
  "check_token c =
     (if c = [] then Some SyntaxError
      else if list_ex is_ws c then Some InvalidCharacterError
      else None)"

definition classList_add :: "string \<Rightarrow> elem \<Rightarrow> error + elem" where
  "classList_add c e =
     (case check_token c of
        Some err \<Rightarrow> Inl err
      | None \<Rightarrow>
          Inr (classList_update
                 (if c \<in> set (class_tokens e) then class_tokens e else class_tokens e @ [c]) e))"

definition classList_remove :: "string \<Rightarrow> elem \<Rightarrow> error + elem" where
  "classList_remove c e =
     (case check_token c of
        Some err \<Rightarrow> Inl err
      | None \<Rightarrow> Inr (classList_update (filter (\<lambda>t. t \<noteq> c) (class_tokens e)) e))"

subsection \<open>The selectors the script writes itself\<close>

text \<open>\<^verbatim>\<open>[aria-haspopup="true"]\<close>, \<^verbatim>\<open>button[aria-expanded]\<close> and \<^verbatim>\<open>a[href]\<close>.\<close>

definition matches_haspopup :: "elem \<Rightarrow> bool" where
  "matches_haspopup e \<longleftrightarrow> getAttribute ''aria-haspopup'' e = Some ''true''"

definition matches_button :: "elem \<Rightarrow> bool" where
  "matches_button e \<longleftrightarrow> localName e = ''button'' \<and> getAttribute ''aria-expanded'' e \<noteq> None"

definition matches_link :: "elem \<Rightarrow> bool" where
  "matches_link e \<longleftrightarrow> localName e = ''a'' \<and> getAttribute ''href'' e \<noteq> None"

section \<open>The toggle button\<close>

text \<open>
  \<^verbatim>\<open>name.toLowerCase()\<close> on the characters modelled: the letters \<^verbatim>\<open>A\<close> to
  \<^verbatim>\<open>Z\<close> and the capital letters of Latin-1 (codes 192 to 222 without the
  multiplication sign 215) are 32 below their small letters; no other character with a
  code below 256 changes.
\<close>

definition lower_char :: "char \<Rightarrow> char" where
  "lower_char c =
     (let n = (of_char c :: nat) in
      if (65 \<le> n \<and> n \<le> 90) \<or> (192 \<le> n \<and> n \<le> 222 \<and> n \<noteq> 215) then char_of (n + 32)
      else c)"

definition toLowerCase :: "string \<Rightarrow> string" where
  "toLowerCase s = map lower_char s"

text \<open>The test of \<^verbatim>\<open>getButton\<close> for the attribute names it sets.\<close>

definition allowed_att :: "string \<Rightarrow> bool" where
  "allowed_att name \<longleftrightarrow>
     name \<in> set [''class'', ''tabindex'', ''title'']
     \<or> prefix ''aria-'' name \<or> prefix ''data-'' name"

text \<open>\<^verbatim>\<open>document.createElement( 'button' )\<close>: a button without attributes.\<close>

definition createElement_button :: elem where
  "createElement_button = \<lparr>localName = ''button'', attributes = [], focusable = True\<rparr>"

text \<open>
  \<^verbatim>\<open>element.setAttribute( name, value )\<close> with a value of the configuration: the
  value is converted to a string before the name is looked at.
\<close>

definition setAttribute_value :: "string \<Rightarrow> jsval \<Rightarrow> elem \<Rightarrow> error + elem" where
  "setAttribute_value n v e =
     (case to_string v of Inl err \<Rightarrow> Inl err | Inr str \<Rightarrow> setAttribute n str e)"

text \<open>The values that are converted to a string without a TypeError.\<close>

definition converts :: "jsval \<Rightarrow> bool" where
  "converts v \<longleftrightarrow> (case to_string v of Inl e \<Rightarrow> False | Inr str \<Rightarrow> True)"

fun set_allowed_atts :: "jsval \<Rightarrow> string list \<Rightarrow> elem \<Rightarrow> error + elem" where
  "set_allowed_atts atts [] b = Inr b"
| "set_allowed_atts atts (name # names) b =
     (if allowed_att name then
        (case setAttribute_value (toLowerCase name) (get_prop atts name) b of
           Inl e \<Rightarrow> Inl e
         | Inr b' \<Rightarrow> set_allowed_atts atts names b')
      else set_allowed_atts atts names b)"

text \<open>
  The body of \<^verbatim>\<open>getButton\<close> after its early return, the same in every version:
  \<^verbatim>\<open>aria-expanded\<close> first, then the allowed attributes in the order of the keys, then
  the label of the collapsed state.
\<close>

definition build_button :: "jsval \<Rightarrow> error + elem" where
  "build_button atts =
     (case set_allowed_atts atts (object_keys atts)
             (set_attr ''aria-expanded'' ''false'' createElement_button) of
        Inl e \<Rightarrow> Inl e
      | Inr b \<Rightarrow>
          (if not_nullish (get_prop atts ''aria-label'')
              \<and> not_nullish (get_prop (get_prop atts ''aria-label'') ''expand'')
           then setAttribute_value ''aria-label''
                  (get_prop (get_prop atts ''aria-label'') ''expand'') b
           else Inr b))"

text \<open>\<^verbatim>\<open>atts = atts || {}\<close>\<close>

definition atts_or_empty :: "jsval \<Rightarrow> jsval" where
  "atts_or_empty atts = (if truthy atts then atts else JObj [])"

text \<open>
  \<^verbatim>\<open>getButton\<close> of version 0.0.6; \<open>None\<close> is its \<^verbatim>\<open>return;\<close> without a value.
\<close>

definition getButton_006 :: "jsval \<Rightarrow> error + elem option" where
  "getButton_006 atts0 =
     (let atts = atts_or_empty atts0 in
      if object_keys atts = [] then Inr None
      else (case build_button atts of Inl e \<Rightarrow> Inl e | Inr b \<Rightarrow> Inr (Some b)))"

text \<open>
  \<^verbatim>\<open>getButton\<close> of version 1.0.0; \<open>None\<close> is \<^verbatim>\<open>null\<close>. \<^verbatim>\<open>isMode\<close> is
  only evaluated when there are attribute keys.
\<close>

definition getButton_100 :: "(string \<times> jsval) list \<Rightarrow> jsval \<Rightarrow> error + elem option" where
  "getButton_100 opts atts0 =
     (let atts = atts_or_empty atts0 in
      if object_keys atts = [] then Inr None
      else (case isMode opts ''button'' of
              Inl e \<Rightarrow> Inl e
            | Inr False \<Rightarrow> Inr None
            | Inr True \<Rightarrow>
                (case build_button atts of Inl e \<Rightarrow> Inl e | Inr b \<Rightarrow> Inr (Some b))))"

section \<open>The document\<close>

text \<open>
  The tree of the page holds the identities of the nodes; what an element carries is kept
  in a store from identities to elements, as the browser keeps nodes by reference. Text
  nodes stand for all nodes that are no elements (\<^verbatim>\<open>nodeType\<close> other than 1). The
  root of the tree is \<^verbatim>\<open>document.documentElement\<close>, whose parent is the document.
\<close>

datatype shape = TextNode string | ElementNode nat "shape list"

datatype node_ref = Elem nat | Document | Window

fun node_id :: "shape \<Rightarrow> nat option" where
  "node_id (TextNode s) = None"
| "node_id (ElementNode i ks) = Some i"

text \<open>The elements in tree order, each with its ancestors, the nearest first.\<close>

fun walk :: "nat list \<Rightarrow> shape \<Rightarrow> (nat \<times> nat list) list" where
  "walk anc (TextNode s) = []"
| "walk anc (ElementNode i ks) = (i, anc) # concat (map (walk (i # anc)) ks)"

definition element_ids :: "shape \<Rightarrow> nat list" where
  "element_ids t = map fst (walk [] t)"

definition ancestors :: "shape \<Rightarrow> nat \<Rightarrow> nat list option" where
  "ancestors t i = map_of (walk [] t) i"

text \<open>
  \<^verbatim>\<open>node.parentNode\<close>; \<open>None\<close> is \<^verbatim>\<open>null\<close>, the parent of a node that is not in
  the document.
\<close>

definition parentNode :: "shape \<Rightarrow> nat \<Rightarrow> node_ref option" where
  "parentNode t i =
     (case ancestors t i of
        None \<Rightarrow> None
      | Some [] \<Rightarrow> Some Document
      | Some (p # _) \<Rightarrow> Some (Elem p))"

definition descendants :: "shape \<Rightarrow> nat \<Rightarrow> nat list" where
  "descendants t i = map fst (filter (\<lambda>(j, anc). i \<in> set anc) (walk [] t))"

text \<open>The elements a \<^verbatim>\<open>querySelectorAll\<close> on the given node looks at, in tree order.\<close>

definition scope_ids :: "shape \<Rightarrow> node_ref \<Rightarrow> nat list" where
  "scope_ids t r =
     (case r of Elem i \<Rightarrow> descendants t i | Document \<Rightarrow> element_ids t | Window \<Rightarrow> [])"

fun nodes_kids :: "shape \<Rightarrow> (nat \<times> shape list) list" where
  "nodes_kids (TextNode s) = []"
| "nodes_kids (ElementNode i ks) = (i, ks) # concat (map nodes_kids ks)"

text \<open>
  \<^verbatim>\<open>node.childNodes\<close>. The document type node before the root element is left out: the
  sibling loops skip it as they skip a text node.
\<close>

definition childNodes :: "shape \<Rightarrow> node_ref \<Rightarrow> shape list" where
  "childNodes t r =
     (case r of
        Elem p \<Rightarrow> (case map_of (nodes_kids t) p of Some ks \<Rightarrow> ks | None \<Rightarrow> [])
      | Document \<Rightarrow> [t]
      | Window \<Rightarrow> [])"

text \<open>\<^verbatim>\<open>parent.insertBefore( new, child )\<close> on the tree.\<close>

fun insert_before_list :: "shape \<Rightarrow> nat \<Rightarrow> shape list \<Rightarrow> shape list" where
  "insert_before_list new c [] = []"
| "insert_before_list new c (k # ks) =
     (if node_id k = Some c then new # k # ks else k # insert_before_list new c ks)"

fun insert_before :: "nat \<Rightarrow> shape \<Rightarrow> nat \<Rightarrow> shape \<Rightarrow> shape" where
  "insert_before p new c (TextNode s) = TextNode s"
| "insert_before p new c (ElementNode i ks) =
     ElementNode i (if i = p then insert_before_list new c ks
                    else map (insert_before p new c) ks)"

text \<open>An identity no element of the tree has, for a node the script creates.\<close>

definition fresh_id :: "shape \<Rightarrow> nat" where
  "fresh_id t = Suc (fold max (element_ids t) 0)"

section \<open>The state of the page and of the script\<close>

datatype callback =
    CB_onFocus | CB_onClick | CB_onTouch | CB_onKeydown
  | CB_onClickButton | CB_onTouchLink | CB_onKeyESC

record listener =
  l_target :: node_ref
  l_type :: string
  l_callback :: callback
  l_capture :: bool

text \<open>
  The page (tree, elements, focused element, registered listeners), the two fields of the
  script object (\<^verbatim>\<open>_.options\<close>, called \<^verbatim>\<open>_.args\<close> in 0.0.6, and \<^verbatim>\<open>_.menus\<close>), and
  the \<^verbatim>\<open>defaultPrevented\<close> flag of the event being handled.
\<close>

record state =
  shape :: shape
  nodes :: "nat \<Rightarrow> elem"
  activeElement :: "nat option"
  listeners :: "listener list"
  options :: "(string \<times> jsval) list"
  menus :: "nat list"
  defaultPrevented :: bool

text \<open>
  What the handlers read of an event. \<^verbatim>\<open>path\<close> is the non-standard array of the
  target and its ancestors up to the window that older browsers put on an event.
\<close>

record event =
  etype :: string
  target :: nat
  keyCode :: nat
  path :: "node_ref list option"

text \<open>
  The selectors of the configuration are strings whose meaning is given by the browser:
  \<open>css sel\<close> is \<open>None\<close> when the browser rejects \<open>sel\<close> with a SyntaxError, and
  otherwise tells which elements of a page match.
\<close>

type_synonym selector_engine = "string \<Rightarrow> (shape \<Rightarrow> (nat \<Rightarrow> elem) \<Rightarrow> nat \<Rightarrow> bool) option"

subsection \<open>Statements that may throw\<close>

text \<open>
  A statement maps a state to a result, or the error thrown, and the state it leaves:
  what was changed before a throw stays changed.
\<close>

type_synonym 'a action = "state \<Rightarrow> (error + 'a) \<times> state"

definition returnA :: "'a \<Rightarrow> 'a action" where
  "returnA x s = (Inr x, s)"

definition throwA :: "error \<Rightarrow> 'a action" where
  "throwA e s = (Inl e, s)"

definition bindA :: "'a action \<Rightarrow> ('a \<Rightarrow> 'b action) \<Rightarrow> 'b action" where
  "bindA m f s = (case m s of (Inl e, s') \<Rightarrow> (Inl e, s') | (Inr x, s') \<Rightarrow> f x s')"

definition liftE :: "error + 'a \<Rightarrow> 'a action" where
  "liftE r s = (r, s)"

definition modify :: "(state \<Rightarrow> state) \<Rightarrow> unit action" where
  "modify f s = (Inr (), f s)"

text \<open>\<^verbatim>\<open>xs.forEach( f )\<close> and \<^verbatim>\<open>xs.map( f )\<close> with the results dropped.\<close>

fun forEach :: "'a list \<Rightarrow> ('a \<Rightarrow> unit action) \<Rightarrow> unit action" where
  "forEach [] f s = (Inr (), s)"
| "forEach (x # xs) f s =
     (case f x s of (Inl e, s') \<Rightarrow> (Inl e, s') | (Inr _, s') \<Rightarrow> forEach xs f s')"

subsection \<open>Reading and writing elements\<close>

definition update_elem :: "nat \<Rightarrow> (elem \<Rightarrow> error + elem) \<Rightarrow> unit action" where
  "update_elem i f s =
     (case f (nodes s i) of
        Inl e \<Rightarrow> (Inl e, s)
      | Inr e' \<Rightarrow> (Inr (), s\<lparr>nodes := (nodes s)(i := e')\<rparr>))"

text \<open>\<^verbatim>\<open>setAttribute\<close> with one of the fixed names of the script, which are valid.\<close>

definition set_attribute :: "nat \<Rightarrow> string \<Rightarrow> string \<Rightarrow> state \<Rightarrow> state" where
  "set_attribute i n v s = s\<lparr>nodes := (nodes s)(i := set_attr n v (nodes s i))\<rparr>"

definition select_ids :: "(elem \<Rightarrow> bool) \<Rightarrow> node_ref \<Rightarrow> state \<Rightarrow> nat list" where
  "select_ids P r s = filter (\<lambda>j. P (nodes s j)) (scope_ids (shape s) r)"

definition querySelector :: "(elem \<Rightarrow> bool) \<Rightarrow> node_ref \<Rightarrow> state \<Rightarrow> nat option" where
  "querySelector P r s = (case select_ids P r s of [] \<Rightarrow> None | j # _ \<Rightarrow> Some j)"

text \<open>\<^verbatim>\<open>querySelectorAll\<close> with a selector of the configuration.\<close>

definition querySelectorAll :: "selector_engine \<Rightarrow> string \<Rightarrow> node_ref \<Rightarrow> state \<Rightarrow> error + nat list" where
  "querySelectorAll css sel r s =
     (case css sel of
        None \<Rightarrow> Inl SyntaxError
      | Some m \<Rightarrow> Inr (filter (m (shape s) (nodes s)) (scope_ids (shape s) r)))"

text \<open>
  \<^verbatim>\<open>querySelectorAll\<close> with a value of the configuration, which is converted to a
  string first, and \<^verbatim>\<open>setAttribute\<close> with one of the fixed names of the script and
  such a value.
\<close>

definition querySelectorAll_value ::
  "selector_engine \<Rightarrow> jsval \<Rightarrow> node_ref \<Rightarrow> state \<Rightarrow> error + nat list" where
  "querySelectorAll_value css v r s =
     (case to_string v of Inl e \<Rightarrow> Inl e | Inr sel \<Rightarrow> querySelectorAll css sel r s)"

definition set_attribute_value :: "nat \<Rightarrow> string \<Rightarrow> jsval \<Rightarrow> unit action" where
  "set_attribute_value i n v s =
     (case to_string v of Inl e \<Rightarrow> (Inl e, s) | Inr str \<Rightarrow> (Inr (), set_attribute i n str s))"

text \<open>
  The statement of \<^verbatim>\<open>changeButtonAttributes\<close> that labels a button, the same in every
  version: the \<^verbatim>\<open>collapse\<close> label on an expanded item, the \<^verbatim>\<open>expand\<close> label on
  a collapsed one, when there is such a label.
\<close>

definition update_label :: "nat \<Rightarrow> bool \<Rightarrow> jsval \<Rightarrow> unit action" where
  "update_label button isExpanded buttonLabel =
     (if isExpanded \<and> not_nullish (get_prop buttonLabel ''collapse'')
      then set_attribute_value button ''aria-label'' (get_prop buttonLabel ''collapse'')
      else if \<not> isExpanded \<and> not_nullish (get_prop buttonLabel ''expand'')
      then set_attribute_value button ''aria-label'' (get_prop buttonLabel ''expand'')
      else returnA ())"

text \<open>
  \<^verbatim>\<open>querySelectorAll( '.' + classExpanded )\<close>. The class was sanitised by
  \<^verbatim>\<open>setOptions\<close>, so the selector is a dot and characters of \<^verbatim>\<open>[a-zA-Z0-9_-]\<close>: a
  class selector when they form a CSS identifier (a letter or \<^verbatim>\<open>_\<close> first, or
  \<^verbatim>\<open>-\<close> and then a letter, \<^verbatim>\<open>_\<close> or \<^verbatim>\<open>-\<close>), and a SyntaxError otherwise.
\<close>

definition ident_start :: "char \<Rightarrow> bool" where
  "ident_start c \<longleftrightarrow>
     (let n = (of_char c :: nat) in
        (97 \<le> n \<and> n \<le> 122) \<or> (65 \<le> n \<and> n \<le> 90) \<or> c = CHR ''_'')"

definition css_identifier :: "string \<Rightarrow> bool" where
  "css_identifier s \<longleftrightarrow>
     list_all class_char s \<and>
     (case s of
        [] \<Rightarrow> False
      | c # cs \<Rightarrow>
          ident_start c
          \<or> (c = CHR ''-'' \<and> (case cs of [] \<Rightarrow> False | d # _ \<Rightarrow> ident_start d \<or> d = CHR ''-'')))"

definition select_class :: "string \<Rightarrow> node_ref \<Rightarrow> state \<Rightarrow> error + nat list" where
  "select_class cls r s =
     (if css_identifier cls then Inr (select_ids (classList_contains cls) r s)
      else Inl SyntaxError)"

text \<open>A token \<^verbatim>\<open>classList.add\<close> and \<^verbatim>\<open>classList.remove\<close> accept.\<close>

definition valid_token :: "string \<Rightarrow> bool" where
  "valid_token t \<longleftrightarrow> t \<noteq> [] \<and> \<not> list_ex is_ws t"

section \<open>Parts the versions share\<close>

definition getAction :: "(state \<Rightarrow> error + 'a) \<Rightarrow> 'a action" where
  "getAction f s = (f s, s)"

text \<open>
  The loop of \<^verbatim>\<open>getSiblings\<close> over the nodes it visits: a node that is no element,
  does not match, or is the node itself is skipped.
\<close>

fun sibling_loop :: "(nat \<Rightarrow> bool) \<Rightarrow> nat \<Rightarrow> shape list \<Rightarrow> nat list" where
  "sibling_loop P node [] = []"
| "sibling_loop P node (TextNode s # rest) = sibling_loop P node rest"
| "sibling_loop P node (ElementNode i ks # rest) =
     (if \<not> P i \<or> node = i then sibling_loop P node rest
      else i # sibling_loop P node rest)"

fun is_element :: "shape \<Rightarrow> bool" where
  "is_element (TextNode s) = False"
| "is_element (ElementNode i ks) = True"

text \<open>
  The nodes visited from \<^verbatim>\<open>firstChild\<close> by \<^verbatim>\<open>nextElementSibling\<close>: the first
  child, then the elements after it.
\<close>

definition first_then_elements :: "shape list \<Rightarrow> shape list" where
  "first_then_elements kids = (case kids of [] \<Rightarrow> [] | k # rest \<Rightarrow> k # filter is_element rest)"

text \<open>
  The nodes \<^verbatim>\<open>node = node.parentNode\<close> runs through from a node: the node, its
  ancestors, the document; after that \<^verbatim>\<open>node\<close> is \<^verbatim>\<open>null\<close>.
\<close>

definition node_chain :: "shape \<Rightarrow> nat \<Rightarrow> node_ref list" where
  "node_chain t node =
     Elem node # (case ancestors t node of None \<Rightarrow> [] | Some anc \<Rightarrow> map Elem anc @ [Document])"

text \<open>
  \<^verbatim>\<open>while ( -1 === menus.indexOf( node ) ) { parents.push( node ); node = node.parentNode; }\<close>
  over that chain. Past its end \<^verbatim>\<open>null.parentNode\<close> throws a TypeError.
\<close>

fun walk_up :: "nat list \<Rightarrow> node_ref list \<Rightarrow> error + node_ref list" where
  "walk_up ms [] = Inl TypeError"
| "walk_up ms (n # rest) =
     (if n \<in> Elem ` set ms then Inr []
      else (case walk_up ms rest of Inl e \<Rightarrow> Inl e | Inr ps \<Rightarrow> Inr (n # ps)))"

text \<open>
  The loop over the menus that looks for one of them in \<^verbatim>\<open>event.path\<close>, and
  \<^verbatim>\<open>parents.splice( spliceId )\<close>: without menus \<^verbatim>\<open>spliceId\<close> stays undefined and
  everything is removed; when no menu is in the path it is \<open>-1\<close> and the last entry is
  removed; otherwise the path is cut at the first menu found.
\<close>

definition splice_path :: "nat list \<Rightarrow> node_ref list \<Rightarrow> node_ref list" where
  "splice_path ms p =
     (if ms = [] then []
      else (case find (\<lambda>m. Elem m \<in> set p) ms of
              Some m \<Rightarrow> takeWhile (\<lambda>r. r \<noteq> Elem m) p
            | None \<Rightarrow> butlast p))"

text \<open>
  \<^verbatim>\<open>parents.filter( ( parent ) => parent.matches( selector ) )\<close>: the document and the
  window have no \<^verbatim>\<open>matches\<close>.
\<close>

fun filter_matches :: "(nat \<Rightarrow> bool) \<Rightarrow> node_ref list \<Rightarrow> error + nat list" where
  "filter_matches P [] = Inr []"
| "filter_matches P (Elem i # rs) =
     (case filter_matches P rs of
        Inl e \<Rightarrow> Inl e
      | Inr js \<Rightarrow> Inr (if P i then i # js else js))"
| "filter_matches P (r # rs) = Inl TypeError"

text \<open>
  \<^verbatim>\<open>getParents\<close> with its default selector \<^verbatim>\<open>[aria-haspopup="true"]\<close>, given the
  function that returns the menus. The argument is an event or an element; an element
  has no \<^verbatim>\<open>path\<close>.
\<close>

definition getParents_with :: "nat list action \<Rightarrow> event + nat \<Rightarrow> nat list action" where
  "getParents_with get_menus arg =
     (case (case arg of Inl ev \<Rightarrow> path ev | Inr n \<Rightarrow> None) of
        Some p \<Rightarrow>
          bindA get_menus (\<lambda>ms.
            getAction (\<lambda>s. filter_matches (\<lambda>i. matches_haspopup (nodes s i))
                              (tl (splice_path ms p))))
      | None \<Rightarrow>
          bindA get_menus (\<lambda>ms.
            getAction (\<lambda>s.
              case walk_up ms (node_chain (shape s)
                                 (case arg of Inl ev \<Rightarrow> target ev | Inr n \<Rightarrow> n)) of
                Inl e \<Rightarrow> Inl e
              | Inr ps \<Rightarrow> filter_matches (\<lambda>i. matches_haspopup (nodes s i)) ps)))"

subsection \<open>Giving the focus\<close>

text \<open>
  \<^verbatim>\<open>element.focus()\<close> does nothing on an element that cannot take the focus or has
  it. Otherwise the browser dispatches \<^verbatim>\<open>focusout\<close> on the element that had the focus
  and \<^verbatim>\<open>focusin\<close> on the new one, at once: the listeners registered for them run
  inside the call, first the capturing ones from the root down, then the others from the
  target up. The script registers \<^verbatim>\<open>onFocus\<close> only for these two events. An
  error thrown by a listener is reported by the browser and not passed on.
\<close>

definition focus_listeners :: "string \<Rightarrow> nat \<Rightarrow> state \<Rightarrow> listener list" where
  "focus_listeners ty tgt s =
     (let up = tgt # (case ancestors (shape s) tgt of None \<Rightarrow> [] | Some anc \<Rightarrow> anc);
          on = (\<lambda>cap n. filter (\<lambda>l. l_target l = Elem n \<and> l_type l = ty
                                      \<and> l_capture l = cap \<and> l_callback l = CB_onFocus)
                            (listeners s))
      in concat (map (on True) (rev up)) @ concat (map (on False) up))"

definition focus_event :: "string \<Rightarrow> nat \<Rightarrow> bool \<Rightarrow> state \<Rightarrow> event" where
  "focus_event ty tgt with_path s =
     \<lparr>etype = ty, target = tgt, keyCode = 0,
      path = (if with_path
              then Some (map Elem (tgt # (case ancestors (shape s) tgt of
                                            None \<Rightarrow> [] | Some anc \<Rightarrow> anc))
                         @ [Document, Window])
              else None)\<rparr>"

definition dispatch_focus ::
  "(event \<Rightarrow> unit action) \<Rightarrow> string \<Rightarrow> nat \<Rightarrow> bool \<Rightarrow> state \<Rightarrow> state" where
  "dispatch_focus onFocus ty tgt with_path s =
     fold (\<lambda>l s'. snd (onFocus (focus_event ty tgt with_path s') s'))
          (focus_listeners ty tgt s) s"

definition focus_elem :: "(event \<Rightarrow> unit action) \<Rightarrow> bool \<Rightarrow> nat \<Rightarrow> state \<Rightarrow> state" where
  "focus_elem onFocus with_path i s =
     (if i \<notin> set (element_ids (shape s)) \<or> \<not> focusable (nodes s i) \<or> activeElement s = Some i
      then s
      else
        (let s1 = (case activeElement s of
                     None \<Rightarrow> s
                   | Some old \<Rightarrow> dispatch_focus onFocus ''focusout'' old with_path s)
         in dispatch_focus onFocus ''focusin'' i with_path (s1\<lparr>activeElement := Some i\<rparr>)))"

definition addEventListener :: "node_ref \<Rightarrow> string \<Rightarrow> callback \<Rightarrow> bool \<Rightarrow> state \<Rightarrow> state" where
  "addEventListener r ty cb cap s =
     s\<lparr>listeners := listeners s
          @ [\<lparr>l_target = r, l_type = ty, l_callback = cb, l_capture = cap\<rparr>]\<rparr>"

text \<open>
  \<^verbatim>\<open>button.cloneNode( true )\<close> and \<^verbatim>\<open>menuItem.insertBefore( childButton, childMenu )\<close>:
  a new node with the attributes of the button, put before the child menu. The browser
  throws a NotFoundError when the child menu is no child of the menu item. The result is
  the identity of the new button.
\<close>

definition insert_button :: "nat \<Rightarrow> elem \<Rightarrow> nat \<Rightarrow> nat action" where
  "insert_button menuItem b childMenu s =
     (let new = fresh_id (shape s) in
      if Some childMenu \<in> node_id ` set (childNodes (shape s) (Elem menuItem))
      then (Inr new,
            s\<lparr>shape := insert_before menuItem (ElementNode new []) childMenu (shape s),
              nodes := (nodes s)(new := b)\<rparr>)
      else (Inl NotFoundError, s))"

section \<open>Version 1.0.0\<close>

text \<open>
  \<^verbatim>\<open>_.getOption( 'expanded_class' )\<close> as the string \<^verbatim>\<open>classList\<close> and the
  concatenation with \<^verbatim>\<open>'.'\<close> make of it. \<^verbatim>\<open>setOptions\<close> stores a string under
  this key or throws, so the stored value is a string in every state \<^verbatim>\<open>init\<close> leaves;
  for a stored value that cannot be converted the empty string stands, which no class
  list holds.
\<close>

definition expanded_class :: "state \<Rightarrow> string" where
  "expanded_class s =
     (case to_string (getOption (options s) [''expanded_class'']) of
        Inr c \<Rightarrow> c
      | Inl e \<Rightarrow> [])"

definition getMenus :: "selector_engine \<Rightarrow> nat list action" where
  "getMenus css s =
     (let selector = getOption (options s) [''menu_selector''] in
      if menus s = [] \<and> truthy selector then
        (case querySelectorAll_value css selector Document s of
           Inl e \<Rightarrow> (Inl e, s)
         | Inr ms \<Rightarrow> (Inr ms, s\<lparr>menus := ms\<rparr>))
      else (Inr (menus s), s))"

definition getSiblings_100 :: "nat \<Rightarrow> state \<Rightarrow> error + nat list" where
  "getSiblings_100 node s =
     (case parentNode (shape s) node of
        None \<Rightarrow> Inl TypeError
      | Some p \<Rightarrow>
          Inr (sibling_loop (\<lambda>i. matches_haspopup (nodes s i)) node
                 (first_then_elements (childNodes (shape s) p))))"

definition getParents_100 :: "selector_engine \<Rightarrow> event + nat \<Rightarrow> nat list action" where
  "getParents_100 css = getParents_with (getMenus css)"

text \<open>
  \<^verbatim>\<open>changeButtonAttributes\<close>, given the menu item: the element passed, or the parent of
  the target of the event passed (\<open>None\<close> when that is \<^verbatim>\<open>null\<close>). The document has
  \<^verbatim>\<open>querySelector\<close> but no \<^verbatim>\<open>classList\<close>.
\<close>

definition changeButtonAttributes_100 :: "node_ref option \<Rightarrow> unit action" where
  "changeButtonAttributes_100 menuItem s =
     (case menuItem of
        None \<Rightarrow> (Inr (), s)
      | Some r \<Rightarrow>
          (case querySelector matches_button r s of
             None \<Rightarrow> (Inr (), s)
           | Some button \<Rightarrow>
               (case r of
                  Elem m \<Rightarrow>
                    (let isExpanded = classList_contains (expanded_class s) (nodes s m);
                         buttonLabel = getOption (options s) [''button_attributes'', ''aria-label'']
                     in bindA
                          (if \<not> is_string buttonLabel \<and> not_nullish buttonLabel
                           then update_label button isExpanded buttonLabel
                           else returnA ())
                          (\<lambda>_. modify (set_attribute button ''aria-expanded''
                                          (if isExpanded then ''true'' else ''false''))) s)
                | _ \<Rightarrow> (Inl TypeError, s))))"

definition changeButtonAttributes_event_100 :: "event \<Rightarrow> unit action" where
  "changeButtonAttributes_event_100 ev s =
     changeButtonAttributes_100 (parentNode (shape s) (target ev)) s"

definition changeButtonAttributes_node_100 :: "nat \<Rightarrow> unit action" where
  "changeButtonAttributes_node_100 n = changeButtonAttributes_100 (Some (Elem n))"

definition isModeA :: "string \<Rightarrow> bool action" where
  "isModeA m = getAction (\<lambda>s. isMode (options s) m)"

definition onFocus_100 :: "selector_engine \<Rightarrow> event \<Rightarrow> unit action" where
  "onFocus_100 css ev =
     bindA (getParents_100 css (Inl ev)) (\<lambda>parents.
     bindA (forEach parents (\<lambda>menuItem s.
              update_elem menuItem
                (if etype ev = ''focusin'' then classList_add (expanded_class s)
                 else classList_remove (expanded_class s)) s)) (\<lambda>_.
     bindA (isModeA ''button'') (\<lambda>button_mode.
       if button_mode then
         bindA (changeButtonAttributes_event_100 ev) (\<lambda>_.
           forEach parents changeButtonAttributes_node_100)
       else returnA ())))"


definition onTouchLink :: "selector_engine \<Rightarrow> event \<Rightarrow> unit action" where
  "onTouchLink css ev s0 =
     (let link = target ev; classExpanded = expanded_class s0 in
      case parentNode (shape s0) link of
        Some (Elem menuItem) \<Rightarrow>
          (if \<not> classList_contains classExpanded (nodes s0 menuItem) then
             bindA (modify (\<lambda>s. s\<lparr>defaultPrevented := True\<rparr>)) (\<lambda>_.
             bindA (modify (focus_elem (onFocus_100 css) (path ev \<noteq> None) link)) (\<lambda>_.
             bindA (getAction (getSiblings_100 menuItem)) (\<lambda>siblings.
             bindA (getParents_100 css (Inl ev)) (\<lambda>parents.
             bindA (forEach siblings (\<lambda>sibling.
                      update_elem sibling (classList_remove classExpanded))) (\<lambda>_.
             bindA (forEach parents (\<lambda>menuItem.
                      update_elem menuItem (classList_add classExpanded))) (\<lambda>_.
             bindA (isModeA ''button'') (\<lambda>button_mode.
               if button_mode then
                 bindA (changeButtonAttributes_event_100 ev) (\<lambda>_.
                   forEach parents changeButtonAttributes_node_100)
               else returnA ()))))))) s0
           else if activeElement s0 \<noteq> Some link then
             bindA (modify (\<lambda>s. s\<lparr>defaultPrevented := True\<rparr>)) (\<lambda>_.
             bindA (update_elem menuItem (classList_remove classExpanded)) (\<lambda>_.
             bindA (isModeA ''button'') (\<lambda>button_mode.
               if button_mode then changeButtonAttributes_event_100 ev
               else returnA ()))) s0
           else (Inr (), s0))
      | _ \<Rightarrow> (Inl TypeError, s0))"

definition onKeyESC :: "selector_engine \<Rightarrow> event \<Rightarrow> unit action" where
  "onKeyESC css ev s0 =
     (if keyCode ev = 27 then
        (let classExpanded = expanded_class s0 in
         bindA (getMenus css) (\<lambda>ms.
           forEach ms (\<lambda>menu.
             bindA (getAction (select_class classExpanded (Elem menu))) (\<lambda>items.
               forEach items (\<lambda>menuItem.
                 bindA (update_elem menuItem (classList_remove classExpanded)) (\<lambda>_.
                 bindA (isModeA ''button'') (\<lambda>button_mode.
                   if button_mode then changeButtonAttributes_node_100 menuItem
                   else returnA ())))))) s0)
      else (Inr (), s0))"

text \<open>
  The body of \<^verbatim>\<open>childMenus.forEach\<close> in \<^verbatim>\<open>init\<close>. The parent of a child menu
  must be an element: \<^verbatim>\<open>setAttribute\<close> is no function of the document and no property
  of \<^verbatim>\<open>null\<close>.
\<close>

definition init_child_100 :: "elem option \<Rightarrow> nat \<Rightarrow> unit action" where
  "init_child_100 button childMenu s0 =
     (case parentNode (shape s0) childMenu of
        Some (Elem menuItem) \<Rightarrow>
          bindA (modify (set_attribute menuItem ''aria-haspopup'' ''true'')) (\<lambda>_.
          bindA (case button of
                   None \<Rightarrow> returnA ()
                 | Some b \<Rightarrow>
                     bindA (insert_button menuItem b childMenu) (\<lambda>childButton.
                     bindA (modify (addEventListener (Elem childButton) ''mousedown''
                                      CB_onClickButton False)) (\<lambda>_.
                     modify (addEventListener (Elem childButton) ''keyup''
                               CB_onClickButton False)))) (\<lambda>_.
          bindA (isModeA ''touch'') (\<lambda>touch_mode.
            if touch_mode then
              (\<lambda>s. case querySelector matches_link (Elem menuItem) s of
                      None \<Rightarrow> (Inr (), s)
                    | Some link \<Rightarrow>
                        (Inr (), addEventListener (Elem link) ''touchstart''
                                   CB_onTouchLink True s))
            else returnA ()))) s0
      | _ \<Rightarrow> (Inl TypeError, s0))"

text \<open>The body of \<^verbatim>\<open>_.getMenus().forEach\<close> in \<^verbatim>\<open>init\<close>.\<close>

definition init_menu_100 :: "selector_engine \<Rightarrow> nat \<Rightarrow> unit action" where
  "init_menu_100 css menu =
     bindA (getAction (\<lambda>s. querySelectorAll_value css
                              (getOption (options s) [''child_menu_selector''])
                              (Elem menu) s)) (\<lambda>childMenus.
       if childMenus = [] then returnA ()
       else
         bindA (getAction (\<lambda>s. getButton_100 (options s)
                                  (getOption (options s) [''button_attributes'']))) (\<lambda>button.
         bindA (forEach childMenus (init_child_100 button)) (\<lambda>_.
         bindA (isModeA ''tab'') (\<lambda>tab_mode.
         bindA (if tab_mode then
                  bindA (modify (addEventListener (Elem menu) ''focusin'' CB_onFocus True)) (\<lambda>_.
                  modify (addEventListener (Elem menu) ''focusout'' CB_onFocus True))
                else returnA ()) (\<lambda>_.
         bindA (isModeA ''esc'') (\<lambda>esc_mode.
           if esc_mode then modify (addEventListener Document ''keyup'' CB_onKeyESC False)
           else returnA ()))))))"

text \<open>
  \<^verbatim>\<open>init\<close>. \<^verbatim>\<open>setOptions\<close> stores the options and resets the menus;
  \<^verbatim>\<open>polyfill\<close> changes nothing that is modelled.
\<close>

definition init_100 :: "selector_engine \<Rightarrow> (string \<times> jsval) list \<Rightarrow> unit action" where
  "init_100 css config =
     bindA (\<lambda>s. case setOptions config of
                  Inl e \<Rightarrow> (Inl e, s)
                | Inr opts \<Rightarrow> (Inr (), s\<lparr>options := opts, menus := []\<rparr>)) (\<lambda>_.
     bindA (getMenus css) (\<lambda>ms.
     bindA (getAction (\<lambda>s. Inr (getOption (options s) [''expanded_class'']))) (\<lambda>cls.
       if ms = [] \<or> \<not> truthy cls then returnA ()
       else bindA (getMenus css) (\<lambda>ms'. forEach ms' (init_menu_100 css)))))"

section \<open>Version 0.0.6\<close>

text \<open>
  In this version the options are read with \<^verbatim>\<open>getArg\<close>, which returns strings only,
  and the object is stored in \<^verbatim>\<open>_.args\<close> (the field \<open>options\<close> of the state).
\<close>

definition getArgA :: "string list \<Rightarrow> string action" where
  "getArgA labels = getAction (\<lambda>s. getArg (options s) labels)"

definition getContainers :: "selector_engine \<Rightarrow> nat list action" where
  "getContainers css =
     bindA (getArgA [''menu-selector'']) (\<lambda>selector s.
       if menus s = [] \<and> selector \<noteq> [] then
         (case querySelectorAll css selector Document s of
            Inl e \<Rightarrow> (Inl e, s)
          | Inr ms \<Rightarrow> (Inr ms, s\<lparr>menus := ms\<rparr>))
       else (Inr (menus s), s))"


definition getParents_006 :: "selector_engine \<Rightarrow> event + nat \<Rightarrow> nat list action" where
  "getParents_006 css = getParents_with (getContainers css)"

text \<open>
  \<^verbatim>\<open>changeButtonAttributes\<close> of 0.0.6 finds the button with the configured selector.
  \<^verbatim>\<open>buttonLabelAttr\<close> is what \<^verbatim>\<open>getArg\<close> returns, a string, so its
  \<^verbatim>\<open>collapse\<close> and \<^verbatim>\<open>expand\<close> are \<^verbatim>\<open>undefined\<close>.
\<close>

definition changeButtonAttributes_006 :: "selector_engine \<Rightarrow> node_ref option \<Rightarrow> unit action" where
  "changeButtonAttributes_006 css menuItem =
     (case menuItem of
        None \<Rightarrow> returnA ()
      | Some r \<Rightarrow>
          bindA (getArgA [''button-selector'']) (\<lambda>selector.
          bindA (getAction (querySelectorAll css selector r)) (\<lambda>found.
            case found of
              [] \<Rightarrow> returnA ()
            | button # _ \<Rightarrow>
                (case r of
                   Elem m \<Rightarrow>
                     bindA (getArgA [''expanded-class'']) (\<lambda>cls.
                     bindA (getArgA [''button-attributes'', ''aria-label'']) (\<lambda>label s.
                       let isExpanded = classList_contains cls (nodes s m);
                           buttonLabelAttr = JStr label
                       in bindA
                            (if not_nullish buttonLabelAttr
                             then update_label button isExpanded buttonLabelAttr
                             else returnA ())
                            (\<lambda>_. modify (set_attribute button ''aria-expanded''
                                            (if isExpanded then ''true'' else ''false''))) s))
                 | _ \<Rightarrow> throwA TypeError))))"

definition changeButtonAttributes_event_006 :: "selector_engine \<Rightarrow> event \<Rightarrow> unit action" where
  "changeButtonAttributes_event_006 css ev s =
     changeButtonAttributes_006 css (parentNode (shape s) (target ev)) s"

definition changeButtonAttributes_node_006 :: "selector_engine \<Rightarrow> nat \<Rightarrow> unit action" where
  "changeButtonAttributes_node_006 css n = changeButtonAttributes_006 css (Some (Elem n))"

definition onFocus_006 :: "selector_engine \<Rightarrow> event \<Rightarrow> unit action" where
  "onFocus_006 css ev =
     bindA (getParents_006 css (Inl ev)) (\<lambda>parents.
     bindA (forEach parents (\<lambda>node.
              bindA (getArgA [''expanded-class'']) (\<lambda>cls.
                update_elem node
                  (if etype ev = ''focusin'' then classList_add cls
                   else classList_remove cls)))) (\<lambda>_.
     changeButtonAttributes_event_006 css ev))"


definition onTouch :: "selector_engine \<Rightarrow> event \<Rightarrow> unit action" where
  "onTouch css ev s0 =
     (let link = target ev in
      case parentNode (shape s0) link of
        Some (Elem menuItem) \<Rightarrow>
          bindA (getArgA [''expanded-class'']) (\<lambda>cls s1.
            if \<not> classList_contains cls (nodes s1 menuItem) then
              bindA (modify (\<lambda>s. s\<lparr>defaultPrevented := True\<rparr>)) (\<lambda>_.
              modify (focus_elem (onFocus_006 css) (path ev \<noteq> None) link)) s1
            else if activeElement s1 \<noteq> Some link then
              bindA (modify (\<lambda>s. s\<lparr>defaultPrevented := True\<rparr>)) (\<lambda>_.
              bindA (getArgA [''expanded-class'']) (\<lambda>cls'.
              update_elem menuItem (classList_remove cls'))) s1
            else (Inr (), s1)) s0
      | _ \<Rightarrow> (Inl TypeError, s0))"

definition onKeydown :: "selector_engine \<Rightarrow> event \<Rightarrow> unit action" where
  "onKeydown css ev =
     (if keyCode ev = 27 then
        bindA (getArgA [''expanded-class'']) (\<lambda>classExpanded.
        bindA (getContainers css) (\<lambda>ms.
          forEach ms (\<lambda>menu.
            bindA (getAction (select_class classExpanded (Elem menu))) (\<lambda>items.
              forEach items (\<lambda>menuItem.
                bindA (update_elem menuItem (classList_remove classExpanded)) (\<lambda>_.
                changeButtonAttributes_node_006 css menuItem))))))
      else returnA ())"

text \<open>
  The body of \<^verbatim>\<open>childMenus.forEach\<close> in \<^verbatim>\<open>init\<close> of 0.0.6:
  \<^verbatim>\<open>button.cloneNode( true )\<close> comes first and is not guarded, so a button that is
  \<^verbatim>\<open>undefined\<close> throws a TypeError.
\<close>

definition init_child_006 :: "elem option \<Rightarrow> nat \<Rightarrow> unit action" where
  "init_child_006 button childMenu s0 =
     (case button of
        None \<Rightarrow> (Inl TypeError, s0)
      | Some b \<Rightarrow>
          (case parentNode (shape s0) childMenu of
             Some (Elem menuItem) \<Rightarrow>
               bindA (modify (set_attribute menuItem ''aria-haspopup'' ''true'')) (\<lambda>_.
               bindA (insert_button menuItem b childMenu) (\<lambda>_ s.
                 case querySelector matches_link (Elem menuItem) s of
                   None \<Rightarrow> (Inr (), s)
                 | Some link \<Rightarrow>
                     (Inr (), addEventListener (Elem link) ''touchstart'' CB_onTouch True s))) s0
           | _ \<Rightarrow> (Inl TypeError, s0)))"

definition init_menu_006 :: "selector_engine \<Rightarrow> nat \<Rightarrow> unit action" where
  "init_menu_006 css menu =
     bindA (getArgA [''child-menu-selector'']) (\<lambda>child_selector.
     bindA (getAction (querySelectorAll css child_selector (Elem menu))) (\<lambda>childMenus.
       if childMenus = [] then returnA ()
       else
         bindA (getAction (\<lambda>s. getButton_006 (get_prop (JObj (options s))
                                                 ''button-attributes''))) (\<lambda>button.
         bindA (forEach childMenus (init_child_006 button)) (\<lambda>_.
         bindA (modify (addEventListener (Elem menu) ''focusin'' CB_onFocus True)) (\<lambda>_.
         bindA (modify (addEventListener (Elem menu) ''focusout'' CB_onFocus True)) (\<lambda>_.
         bindA (getArgA [''button-selector'']) (\<lambda>selectorButton.
         bindA (if selectorButton \<noteq> [] then
                  bindA (getAction (querySelectorAll css selectorButton (Elem menu))) (\<lambda>buttons.
                    forEach buttons (\<lambda>button.
                      modify (addEventListener (Elem button) ''mousedown'' CB_onClick False)))
                else returnA ()) (\<lambda>_.
         modify (addEventListener Document ''keydown'' CB_onKeydown False)))))))))"

definition init_006 :: "selector_engine \<Rightarrow> (string \<times> jsval) list \<Rightarrow> unit action" where
  "init_006 css config =
     bindA (\<lambda>s. case setArgs config of
                  Inl e \<Rightarrow> (Inl e, s)
                | Inr args \<Rightarrow> (Inr (), s\<lparr>options := args, menus := []\<rparr>)) (\<lambda>_.
     bindA (getContainers css) (\<lambda>ms.
     bindA (getArgA [''expanded-class'']) (\<lambda>cls.
       if ms = [] \<or> cls = [] then returnA ()
       else bindA (getContainers css) (\<lambda>ms'. forEach ms' (init_menu_006 css)))))"

section \<open>Vocabulary of the properties\<close>

text \<open>A relation between the state before and the state after every run of a statement.\<close>

definition rel_ok :: "(state \<Rightarrow> state \<Rightarrow> bool) \<Rightarrow> 'a action \<Rightarrow> bool" where
  "rel_ok R m \<longleftrightarrow> (\<forall>s r s'. m s = (r, s') \<longrightarrow> R s s')"

text \<open>Two elements that differ at most in the \<^verbatim>\<open>class\<close> attribute.\<close>

definition same_but_class :: "elem \<Rightarrow> elem \<Rightarrow> bool" where
  "same_but_class e e' \<longleftrightarrow>
     localName e' = localName e \<and> focusable e' = focusable e
     \<and> (\<forall>n. n \<noteq> ''class'' \<longrightarrow> getAttribute n e' = getAttribute n e)"

text \<open>
  Two elements that differ at most in the values of \<^verbatim>\<open>aria-label\<close> and
  \<^verbatim>\<open>aria-expanded\<close>, the attributes \<^verbatim>\<open>changeButtonAttributes\<close> writes.
\<close>

definition same_but_aria :: "elem \<Rightarrow> elem \<Rightarrow> bool" where
  "same_but_aria e e' \<longleftrightarrow>
     localName e' = localName e \<and> focusable e' = focusable e
     \<and> (\<forall>n. n \<noteq> ''aria-label'' \<and> n \<noteq> ''aria-expanded''
            \<longrightarrow> getAttribute n e' = getAttribute n e)"

text \<open>
  What no handler changes: the tree, the options, the listeners. The handlers change
  elements, the cached menus, the focus and the \<^verbatim>\<open>defaultPrevented\<close> flag.
\<close>

definition same_page :: "state \<Rightarrow> state \<Rightarrow> bool" where
  "same_page s s' \<longleftrightarrow>
     shape s' = shape s \<and> options s' = options s \<and> listeners s' = listeners s"

text \<open>The statement changes the elements in their \<^verbatim>\<open>aria\<close> attributes at most.\<close>

definition aria_only :: "state \<Rightarrow> state \<Rightarrow> bool" where
  "aria_only s s' \<longleftrightarrow>
     same_page s s' \<and> activeElement s' = activeElement s
     \<and> (defaultPrevented s \<longrightarrow> defaultPrevented s')
     \<and> (\<forall>i. same_but_aria (nodes s i) (nodes s' i))"

text \<open>The elements below a node that carry a class.\<close>

definition has_class :: "state \<Rightarrow> string \<Rightarrow> nat \<Rightarrow> bool" where
  "has_class s c i \<longleftrightarrow> classList_contains c (nodes s i)"


text \<open>The statement changes the elements in their classes at most.\<close>

definition class_only :: "state \<Rightarrow> state \<Rightarrow> bool" where
  "class_only s s' \<longleftrightarrow>
     same_page s s' \<and> activeElement s' = activeElement s \<and> menus s' = menus s
     \<and> defaultPrevented s' = defaultPrevented s
     \<and> (\<forall>i. same_but_class (nodes s i) (nodes s' i))"


text \<open>The class the handlers of version 0.0.6 toggle: \<^verbatim>\<open>_.getArg( 'expanded-class' )\<close>.\<close>

definition expanded_class_006 :: "state \<Rightarrow> string" where
  "expanded_class_006 s =
     (case getArg (options s) [''expanded-class''] of Inr c \<Rightarrow> c | Inl e \<Rightarrow> [])"

text \<open>
  The statement keeps the tree, the options, the listeners and the focus, and does not
  take back a \<^verbatim>\<open>preventDefault\<close>.
\<close>

definition quiet :: "state \<Rightarrow> state \<Rightarrow> bool" where
  "quiet s s' \<longleftrightarrow>
     same_page s s' \<and> activeElement s' = activeElement s
     \<and> (defaultPrevented s \<longrightarrow> defaultPrevented s')"

text \<open>The statement run on each menu item by \<^verbatim>\<open>onKeyESC\<close> once the class is removed.\<close>

definition after_remove_100 :: "nat \<Rightarrow> unit action" where
  "after_remove_100 menuItem =
     bindA (isModeA ''button'') (\<lambda>button_mode.
       if button_mode then changeButtonAttributes_node_100 menuItem else returnA ())"


section \<open>A page to run the script on\<close>

text \<open>
  A navigation with two menu items that have a child menu; the first child menu has an
  item of its own:

  \<^verbatim>\<open><nav><ul class="menu toggle-sub-menus">
       <li><a href="#"></a><ul class="sub-menu"><li><a href="#"></a></li></ul></li>
       <li><a href="#"></a><ul class="sub-menu"></ul></li>
     </ul></nav>\<close>

  The elements are numbered in document order, from 0 (\<^verbatim>\<open>nav\<close>) to 9. The menu
  carries the class of the default menu selector of both versions.
\<close>

definition el :: "string \<Rightarrow> (string \<times> string) list \<Rightarrow> elem" where
  "el n as = \<lparr>localName = n, attributes = as, focusable = (n = ''a'' \<or> n = ''button'')\<rparr>"

definition page_nodes :: "nat \<Rightarrow> elem" where
  "page_nodes i =
     (if i = 0 then el ''nav'' []
      else if i = 1 then el ''ul'' [(''class'', ''menu toggle-sub-menus'')]
      else if i = 3 \<or> i = 6 \<or> i = 8 then el ''a'' [(''href'', ''#'')]
      else if i = 4 \<or> i = 9 then el ''ul'' [(''class'', ''sub-menu'')]
      else el ''li'' [])"

definition page :: state where
  "page = \<lparr>shape = ElementNode 0 [ElementNode 1
              [ElementNode 2 [ElementNode 3 [], ElementNode 4 [ElementNode 5 [ElementNode 6 []]]],
               ElementNode 7 [ElementNode 8 [], ElementNode 9 []]]],
           nodes = page_nodes, activeElement = None, listeners = [],
           options = [], menus = [], defaultPrevented = False\<rparr>"

text \<open>The selectors of the default options, as the browser reads them.\<close>

definition css_demo :: selector_engine where
  "css_demo sel =
     (if sel = ''nav .menu'' then
        Some (\<lambda>t ns i. classList_contains ''menu'' (ns i)
                \<and> list_ex (\<lambda>a. localName (ns a) = ''nav'')
                     (case ancestors t i of None \<Rightarrow> [] | Some anc \<Rightarrow> anc))
      else if sel = ''.sub-menu'' then Some (\<lambda>t ns i. classList_contains ''sub-menu'' (ns i))
      else if sel = ''.toggle-sub-menus'' then
        Some (\<lambda>t ns i. classList_contains ''toggle-sub-menus'' (ns i))
      else if sel = ''button[aria-expanded]'' then Some (\<lambda>t ns i. matches_button (ns i))
      else None)"

text \<open>
  The page as \<^verbatim>\<open>init\<close> leaves it: the two menu items, the elements 2 and 7, have
  \<^verbatim>\<open>aria-haspopup\<close>, and a button each, the elements 10 and 11. A menu item is
  expanded or not; a button has a value of \<^verbatim>\<open>aria-expanded\<close> and a label.
\<close>

definition menu_item :: "bool \<Rightarrow> elem" where
  "menu_item expanded =
     el ''li'' ((''aria-haspopup'', ''true'')
                # (if expanded then [(''class'', ''has-expanded-sub-menu'')] else []))"

definition toggle_button :: "string \<Rightarrow> string \<Rightarrow> elem" where
  "toggle_button expanded label =
     el ''button'' [(''aria-expanded'', expanded), (''class'', ''button-toggle-sub-menu''),
                    (''aria-label'', label)]"

definition ready_nodes :: "elem \<Rightarrow> elem \<Rightarrow> elem \<Rightarrow> elem \<Rightarrow> nat \<Rightarrow> elem" where
  "ready_nodes item2 button10 item7 button11 i =
     (if i = 2 then item2 else if i = 10 then button10
      else if i = 7 then item7 else if i = 11 then button11
      else page_nodes i)"

definition ready_shape :: shape where
  "ready_shape = ElementNode 0 [ElementNode 1
     [ElementNode 2 [ElementNode 3 [], ElementNode 10 [],
                     ElementNode 4 [ElementNode 5 [ElementNode 6 []]]],
      ElementNode 7 [ElementNode 8 [], ElementNode 11 [], ElementNode 9 []]]]"

definition on :: "node_ref \<Rightarrow> string \<Rightarrow> callback \<Rightarrow> bool \<Rightarrow> listener" where
  "on r ty cb cap = \<lparr>l_target = r, l_type = ty, l_callback = cb, l_capture = cap\<rparr>"

definition ready_100 :: "elem \<Rightarrow> elem \<Rightarrow> elem \<Rightarrow> elem \<Rightarrow> state" where
  "ready_100 item2 button10 item7 button11 =
     \<lparr>shape = ready_shape, nodes = ready_nodes item2 button10 item7 button11,
      activeElement = None,
      listeners =
        [on (Elem 10) ''mousedown'' CB_onClickButton False,
         on (Elem 10) ''keyup'' CB_onClickButton False,
         on (Elem 3) ''touchstart'' CB_onTouchLink True,
         on (Elem 11) ''mousedown'' CB_onClickButton False,
         on (Elem 11) ''keyup'' CB_onClickButton False,
         on (Elem 8) ''touchstart'' CB_onTouchLink True,
         on (Elem 1) ''focusin'' CB_onFocus True,
         on (Elem 1) ''focusout'' CB_onFocus True,
         on Document ''keyup'' CB_onKeyESC False],
      options = default_options, menus = [1], defaultPrevented = False\<rparr>"

definition ready_006 :: "elem \<Rightarrow> elem \<Rightarrow> elem \<Rightarrow> elem \<Rightarrow> state" where
  "ready_006 item2 button10 item7 button11 =
     \<lparr>shape = ready_shape, nodes = ready_nodes item2 button10 item7 button11,
      activeElement = None,
      listeners =
        [on (Elem 3) ''touchstart'' CB_onTouch True,
         on (Elem 8) ''touchstart'' CB_onTouch True,
         on (Elem 1) ''focusin'' CB_onFocus True,
         on (Elem 1) ''focusout'' CB_onFocus True,
         on (Elem 10) ''mousedown'' CB_onClick False,
         on (Elem 11) ''mousedown'' CB_onClick False,
         on Document ''keydown'' CB_onKeydown False],
      options = default_args, menus = [1], defaultPrevented = False\<rparr>"

text \<open>The two buttons as \<^verbatim>\<open>getButton\<close> makes them, and as an expanded item has them.\<close>

definition button_collapsed :: elem where
  "button_collapsed = toggle_button ''false'' ''Expand child menu''"

definition button_expanded :: elem where
  "button_expanded = toggle_button ''true'' ''Collapse child menu''"

definition mouse_event :: "string \<Rightarrow> nat \<Rightarrow> event" where
  "mouse_event ty t = \<lparr>etype = ty, target = t, keyCode = 0, path = None\<rparr>"

definition key_event :: "string \<Rightarrow> nat \<Rightarrow> nat \<Rightarrow> event" where
  "key_event ty t k = \<lparr>etype = ty, target = t, keyCode = k, path = None\<rparr>"

text \<open>The state a statement leaves, and what is to be seen of a state.\<close>

definition state_after :: "'a action \<Rightarrow> state \<Rightarrow> state" where
  "state_after m s = snd (m s)"

definition view :: "state \<Rightarrow> shape \<times> elem list \<times> nat option \<times> listener list
                      \<times> (string \<times> jsval) list \<times> nat list \<times> bool" where
  "view s = (shape s, map (nodes s) (element_ids (shape s)), activeElement s, listeners s,
             options s, menus s, defaultPrevented s)"

text \<open>
  The page with the first menu item expanded, in 1.0.0 with the option
  \<^verbatim>\<open>mode: [ 'esc' ]\<close>: the buttons are part of the page, the script adds none.
\<close>

definition esc_mode_state :: state where
  "esc_mode_state =
     (ready_100 (menu_item True) button_expanded (menu_item False) button_collapsed)
       \<lparr>options := set_prop ''mode'' (JArr [JStr ''esc'']) default_options\<rparr>"

text \<open>
  A menu whose item (the element 1) is expanded and whose link (the element 2) has an
  element inside, the element 3:

  \<^verbatim>\<open><ul class="menu"><li aria-haspopup="true" class="has-expanded-sub-menu">
       <a href="#"><span></span></a><button ...></button><ul class="sub-menu"></ul>
     </li></ul>\<close>
\<close>

definition link_with_span :: "(string \<times> jsval) list \<Rightarrow> state" where
  "link_with_span opts =
     \<lparr>shape = ElementNode 0 [ElementNode 1
                [ElementNode 2 [ElementNode 3 []], ElementNode 4 [], ElementNode 5 []]],
      nodes = (\<lambda>i. if i = 0 then el ''ul'' [(''class'', ''menu toggle-sub-menus'')]
                    else if i = 1 then menu_item True
                    else if i = 2 then el ''a'' [(''href'', ''#'')]
                    else if i = 3 then el ''span'' []
                    else if i = 4 then button_expanded
                    else el ''ul'' [(''class'', ''sub-menu'')]),
      activeElement = None, listeners = [], options = opts, menus = [0],
      defaultPrevented = False\<rparr>"

section \<open>Properties of the options\<close>

lemma map_fst_set_prop: "map fst (set_prop k v kvs) = map fst kvs"
  by (induction kvs) auto

lemma map_of_set_prop:
  "map_of (set_prop k v kvs) k' = (if k' = k \<and> k \<in> fst ` set kvs then Some v else map_of kvs k')"
  by (induction kvs) force+

lemma override_option_keys:
  "override_option ck config k opts = Inr opts' \<Longrightarrow> map fst opts' = map fst opts"
  by (auto simp: override_option_def map_fst_set_prop split: if_splits jsval.splits)

lemma override_options_keys:
  "override_options ck config ks opts = Inr opts' \<Longrightarrow> map fst opts' = map fst opts"
proof (induction ks arbitrary: opts)
  case Nil
  then show ?case by simp
next
  case (Cons k ks)
  then show ?case
    by (auto split: sum.splits dest: override_option_keys)
qed

lemma override_option_other:
  "override_option ck config k opts = Inr opts' \<Longrightarrow> k' \<noteq> k \<Longrightarrow> map_of opts' k' = map_of opts k'"
  by (auto simp: override_option_def map_of_set_prop split: if_splits jsval.splits)

lemma override_options_other:
  "override_options ck config ks opts = Inr opts' \<Longrightarrow> k' \<notin> set ks \<Longrightarrow> map_of opts' k' = map_of opts k'"
proof (induction ks arbitrary: opts)
  case Nil
  then show ?case by simp
next
  case (Cons k ks)
  then show ?case
    by (auto split: sum.splits dest: override_option_other)
qed


lemma map_of_set_prop_own:
  "map_of (set_prop k v kvs) k' = (if k' = k \<and> has_own kvs k then Some v else map_of kvs k')"
  by (simp add: map_of_set_prop has_own_def)

lemma override_option_same:
  "override_option ck config k opts = Inr opts' \<Longrightarrow> has_own opts k \<Longrightarrow>
     map_of opts' k = Some (override_value ck config k)
     \<and> (k = ck \<longrightarrow> is_string (get_prop (JObj config) k))"
  by (auto simp: override_option_def map_of_set_prop_own override_value_def
           split: if_splits jsval.splits)

lemma override_option_has_own:
  "override_option ck config k opts = Inr opts' \<Longrightarrow> has_own opts' k' = has_own opts k'"
  using override_option_keys[of ck config k opts opts'] by (simp add: has_own_def)

lemma override_options_known:
  "override_options ck config ks opts = Inr opts' \<Longrightarrow> k \<in> set ks \<Longrightarrow> has_own opts k \<Longrightarrow>
     map_of opts' k = Some (override_value ck config k)
     \<and> (k = ck \<longrightarrow> is_string (get_prop (JObj config) k))"
proof (induction ks arbitrary: opts)
  case Nil
  then show ?case by simp
next
  case (Cons a ks)
  from Cons.prems(1) obtain o1 where
    s1: "override_option ck config a opts = Inr o1" and
    s2: "override_options ck config ks o1 = Inr opts'"
    by (auto split: sum.splits)
  have own1: "has_own o1 k" using Cons.prems(3) override_option_has_own[OF s1] by simp
  show ?case
  proof (cases "k \<in> set ks")
    case True
    then show ?thesis using Cons.IH[OF s2 True own1] by simp
  next
    case False
    then have "a = k" using Cons.prems(2) by simp
    then show ?thesis
      using override_option_same[OF s1] Cons.prems(3) override_options_other[OF s2 False]
      by simp
  qed
qed

lemma override_options_total:
  "(ck \<in> set ks \<Longrightarrow> has_own opts ck \<Longrightarrow> is_string (get_prop (JObj config) ck)) \<Longrightarrow>
     \<exists>opts'. override_options ck config ks opts = Inr opts'"
proof (induction ks arbitrary: opts)
  case Nil
  then show ?case by simp
next
  case (Cons a ks)
  have "\<exists>o1. override_option ck config a opts = Inr o1"
    using Cons.prems by (cases "get_prop (JObj config) a") (auto simp: override_option_def)
  then obtain o1 where s1: "override_option ck config a opts = Inr o1" ..
  have "\<exists>opts'. override_options ck config ks o1 = Inr opts'"
    using Cons.prems override_option_has_own[OF s1] by (intro Cons.IH) auto
  then show ?case using s1 by simp
qed

text \<open>
  What both \<^verbatim>\<open>setArgs\<close> and \<^verbatim>\<open>setOptions\<close> do to the defaults \<open>defs\<close> when they
  return: the keys are those of the defaults, in their order; an option the configuration
  does not name keeps its default; an option it names takes the configured value (the
  class option sanitised).
\<close>

lemma override_options_result:
  assumes "override_options ck config (map fst config) defs = Inr opts"
  shows "map fst opts = map fst defs"
    and "k \<notin> fst ` set config \<Longrightarrow> map_of opts k = map_of defs k"
    and "k \<notin> fst ` set defs \<Longrightarrow> map_of opts k = None"
    and "k \<in> fst ` set config \<Longrightarrow> k \<in> fst ` set defs \<Longrightarrow>
           map_of opts k = Some (override_value ck config k)"
    and "ck \<in> fst ` set config \<Longrightarrow> ck \<in> fst ` set defs \<Longrightarrow>
           is_string (get_prop (JObj config) ck)"
proof -
  show keys: "map fst opts = map fst defs"
    using assms by (rule override_options_keys)
  show "k \<notin> fst ` set config \<Longrightarrow> map_of opts k = map_of defs k"
    using override_options_other[OF assms, of k] by simp
  show "k \<notin> fst ` set defs \<Longrightarrow> map_of opts k = None"
  proof -
    assume "k \<notin> fst ` set defs"
    then have "k \<notin> fst ` set opts"
      using keys by (metis set_map)
    then show ?thesis by (simp add: map_of_eq_None_iff)
  qed
  show "k \<in> fst ` set config \<Longrightarrow> k \<in> fst ` set defs \<Longrightarrow>
           map_of opts k = Some (override_value ck config k)"
    using override_options_known[OF assms, of k] by (simp add: has_own_def)
  show "ck \<in> fst ` set config \<Longrightarrow> ck \<in> fst ` set defs \<Longrightarrow>
           is_string (get_prop (JObj config) ck)"
    using override_options_known[OF assms, of ck] by (simp add: has_own_def)
qed

lemma default_options_class: "map_of default_options ''expanded_class'' = Some (JStr ''has-expanded-sub-menu'')"
  by (simp add: default_options_def)

lemma default_args_class: "map_of default_args ''expanded-class'' = Some (JStr ''has-expanded-sub-menu'')"
  by (simp add: default_args_def)

lemma default_class_chars: "\<forall>c\<in>set ''has-expanded-sub-menu''. class_char c"
  by (simp add: class_char_def)

lemma get_prop_map_of: "map_of kvs k = Some v \<Longrightarrow> get_prop (JObj kvs) k = v"
  by simp

lemma in_keys_map_of: "k \<in> fst ` set kvs \<Longrightarrow> \<exists>v. map_of kvs k = Some v"
  by (metis map_of_eq_None_iff not_Some_eq)

lemma is_string_JStr: "is_string v \<Longrightarrow> \<exists>s. v = JStr s"
  by (cases v) auto

text \<open>The stored class in terms of the configuration, for either version.\<close>

lemma override_options_class:
  assumes "override_options ck config (map fst config) defs = Inr opts"
    and "map_of defs ck = Some (JStr d)"
  shows "\<exists>s. map_of opts ck = Some (JStr s)
           \<and> (map_of config ck = None \<longrightarrow> s = d)
           \<and> (\<forall>v. map_of config ck = Some v \<longrightarrow> (\<exists>s0. v = JStr s0 \<and> s = filter class_char s0))"
proof (cases "map_of config ck")
  case None
  then have "ck \<notin> fst ` set config" by (simp add: map_of_eq_None_iff)
  then have "map_of opts ck = Some (JStr d)"
    using override_options_result(2)[OF assms(1)] assms(2) by simp
  with None show ?thesis by simp
next
  case (Some v)
  then have inc: "ck \<in> fst ` set config" by (metis map_of_eq_None_iff option.distinct(1))
  have ind: "ck \<in> fst ` set defs" using assms(2) by (metis map_of_eq_None_iff option.distinct(1))
  have gp: "get_prop (JObj config) ck = v" using Some by simp
  have "is_string v"
    using override_options_result(5)[OF assms(1) inc ind] gp by simp
  then obtain s0 where v: "v = JStr s0" using is_string_JStr by blast
  have "map_of opts ck = Some (JStr (sanitize s0))"
    using override_options_result(4)[OF assms(1) inc ind] gp v
    by (simp add: override_value_def)
  with Some v show ?thesis by (simp add: sanitize_def)
qed

lemma override_options_total_class:
  assumes "\<forall>v. map_of config ck = Some v \<longrightarrow> is_string v"
  shows "\<exists>opts. override_options ck config (map fst config) defs = Inr opts"
proof (rule override_options_total)
  assume "ck \<in> set (map fst config)"
  then obtain v where v: "map_of config ck = Some v"
    using in_keys_map_of[of ck config] by auto
  with assms have "is_string v" by simp
  with v show "is_string (get_prop (JObj config) ck)" by simp
qed

section \<open>The claims about the options\<close>

text \<open>
  C6, as stated for every configuration object, fails: a class option that is no
  string makes \<^verbatim>\<open>replace\<close> throw a TypeError, and nothing is stored. Here the class
  is \<^verbatim>\<open>null\<close>, in both versions.
\<close>

theorem options_class_not_a_string_counterexample:
  "setOptions [(''expanded_class'', JNull)] = Inl TypeError
   \<and> setArgs [(''expanded-class'', JNull)] = Inl TypeError"
  by (simp add: setOptions_def setArgs_def override_option_def has_own_def
        default_options_def default_args_def)

text \<open>
  C6, amended. For every configuration object passed to \<^verbatim>\<open>setOptions\<close> (1.0.0) or
  \<^verbatim>\<open>setArgs\<close> (0.0.6) whose class option, if it has one, is a string, an object is
  stored. Whenever an object is stored, it has exactly the keys of the defaults, in their
  order; a key the configuration omits keeps its default value; a key that is not among
  the defaults is ignored (the stored object has no such key); a default key other than
  the class that the configuration names takes the configured value.
\<close>

theorem options_keep_default_keys:
  "(setOptions config = Inr opts \<longrightarrow>
        map fst opts = map fst default_options
      \<and> (\<forall>k. k \<notin> fst ` set config \<longrightarrow> map_of opts k = map_of default_options k)
      \<and> (\<forall>k. k \<notin> fst ` set default_options \<longrightarrow> map_of opts k = None)
      \<and> (\<forall>k. k \<in> fst ` set config \<and> k \<in> fst ` set default_options \<and> k \<noteq> ''expanded_class''
              \<longrightarrow> map_of opts k = map_of config k))
   \<and> (setArgs config = Inr args \<longrightarrow>
        map fst args = map fst default_args
      \<and> (\<forall>k. k \<notin> fst ` set config \<longrightarrow> map_of args k = map_of default_args k)
      \<and> (\<forall>k. k \<notin> fst ` set default_args \<longrightarrow> map_of args k = None)
      \<and> (\<forall>k. k \<in> fst ` set config \<and> k \<in> fst ` set default_args \<and> k \<noteq> ''expanded-class''
              \<longrightarrow> map_of args k = map_of config k))
   \<and> ((\<forall>v. map_of config ''expanded_class'' = Some v \<longrightarrow> is_string v)
        \<longrightarrow> (\<exists>stored. setOptions config = Inr stored))
   \<and> ((\<forall>v. map_of config ''expanded-class'' = Some v \<longrightarrow> is_string v)
        \<longrightarrow> (\<exists>stored. setArgs config = Inr stored))"
proof -
  have named: "map_of res k = map_of config k"
    if r: "override_options ck config (map fst config) defs = Inr res"
      and k: "k \<in> fst ` set config" "k \<in> fst ` set defs" "k \<noteq> ck"
    for ck defs res k
  proof -
    obtain v where v: "map_of config k = Some v" using in_keys_map_of[OF k(1)] by blast
    have "map_of res k = Some (override_value ck config k)"
      using override_options_result(4)[OF r k(1) k(2)] .
    with v k(3) show ?thesis by (simp add: override_value_def)
  qed
  have a: "setOptions config = Inr opts \<longrightarrow>
        map fst opts = map fst default_options
      \<and> (\<forall>k. k \<notin> fst ` set config \<longrightarrow> map_of opts k = map_of default_options k)
      \<and> (\<forall>k. k \<notin> fst ` set default_options \<longrightarrow> map_of opts k = None)
      \<and> (\<forall>k. k \<in> fst ` set config \<and> k \<in> fst ` set default_options \<and> k \<noteq> ''expanded_class''
              \<longrightarrow> map_of opts k = map_of config k)"
    unfolding setOptions_def
    using override_options_result(1,2,3)[of "''expanded_class''" config default_options opts]
      named[of "''expanded_class''" default_options opts]
    by blast
  have b: "setArgs config = Inr args \<longrightarrow>
        map fst args = map fst default_args
      \<and> (\<forall>k. k \<notin> fst ` set config \<longrightarrow> map_of args k = map_of default_args k)
      \<and> (\<forall>k. k \<notin> fst ` set default_args \<longrightarrow> map_of args k = None)
      \<and> (\<forall>k. k \<in> fst ` set config \<and> k \<in> fst ` set default_args \<and> k \<noteq> ''expanded-class''
              \<longrightarrow> map_of args k = map_of config k)"
    unfolding setArgs_def
    using override_options_result(1,2,3)[of "''expanded-class''" config default_args args]
      named[of "''expanded-class''" default_args args]
    by blast
  have c: "(\<forall>v. map_of config ''expanded_class'' = Some v \<longrightarrow> is_string v)
        \<longrightarrow> (\<exists>stored. setOptions config = Inr stored)"
    unfolding setOptions_def using override_options_total_class by blast
  have d: "(\<forall>v. map_of config ''expanded-class'' = Some v \<longrightarrow> is_string v)
        \<longrightarrow> (\<exists>stored. setArgs config = Inr stored)"
    unfolding setArgs_def using override_options_total_class by blast
  from a b c d show ?thesis by blast
qed

text \<open>
  The theorem at a configuration that names the class, one more default key and an
  unknown key, for both versions.
\<close>

theorem options_keep_default_keys_witness:
  "setOptions [(''expanded_class'', JStr ''is open!''), (''mode'', JArr [JStr ''esc'']),
               (''colour'', JStr ''red'')]
     = Inr [(''button_attributes'',
               JObj [(''class'', JStr ''button-toggle-sub-menu''),
                     (''aria-label'',
                        JObj [(''collapse'', JStr ''Collapse child menu''),
                              (''expand'', JStr ''Expand child menu'')])]),
            (''child_menu_selector'', JStr ''.sub-menu''),
            (''expanded_class'', JStr ''isopen''),
            (''menu_selector'', JStr ''nav .menu''),
            (''mode'', JArr [JStr ''esc''])]
   \<and> setArgs [(''expanded_class'', JStr ''is open!''), (''mode'', JArr [JStr ''esc'']),
               (''colour'', JStr ''red'')]
     = Inr default_args
   \<and> map fst [(''button_attributes'',
               JObj [(''class'', JStr ''button-toggle-sub-menu''),
                     (''aria-label'',
                        JObj [(''collapse'', JStr ''Collapse child menu''),
                              (''expand'', JStr ''Expand child menu'')])]),
            (''child_menu_selector'', JStr ''.sub-menu''),
            (''expanded_class'', JStr ''isopen''),
            (''menu_selector'', JStr ''nav .menu''),
            (''mode'', JArr [JStr ''esc''])] = map fst default_options
   \<and> map fst default_args = map fst default_args"
proof -
  let ?cfg = "[(''expanded_class'', JStr ''is open!''), (''mode'', JArr [JStr ''esc'']),
               (''colour'', JStr ''red'')]"
  let ?res = "[(''button_attributes'',
               JObj [(''class'', JStr ''button-toggle-sub-menu''),
                     (''aria-label'',
                        JObj [(''collapse'', JStr ''Collapse child menu''),
                              (''expand'', JStr ''Expand child menu'')])]),
            (''child_menu_selector'', JStr ''.sub-menu''),
            (''expanded_class'', JStr ''isopen''),
            (''menu_selector'', JStr ''nav .menu''),
            (''mode'', JArr [JStr ''esc''])]"
  have h1: "setOptions ?cfg = Inr ?res"
    by (simp add: setOptions_def default_options_def override_option_def has_own_def
          sanitize_def class_char_def)
  have h2: "setArgs ?cfg = Inr default_args"
    by (simp add: setArgs_def default_args_def override_option_def has_own_def)
  from options_keep_default_keys[of ?cfg ?res default_args] h1 h2
  show ?thesis by blast
qed

text \<open>
  C9. The class stored by \<^verbatim>\<open>setOptions\<close> / \<^verbatim>\<open>setArgs\<close> is a string of characters
  of \<^verbatim>\<open>[a-zA-Z0-9_-]\<close> only: the default class when the configuration names none,
  and otherwise the configured string with every other character removed. A configured
  class that is a string is always stored (the function returns).
\<close>

theorem expanded_class_sanitized:
  "(setOptions config = Inr opts \<longrightarrow>
      (\<exists>s. map_of opts ''expanded_class'' = Some (JStr s)
          \<and> (\<forall>c\<in>set s. class_char c)
          \<and> (\<forall>v. map_of config ''expanded_class'' = Some v
                \<longrightarrow> (\<exists>s0. v = JStr s0 \<and> s = filter class_char s0))))
   \<and> (setArgs config = Inr args \<longrightarrow>
      (\<exists>s. map_of args ''expanded-class'' = Some (JStr s)
          \<and> (\<forall>c\<in>set s. class_char c)
          \<and> (\<forall>v. map_of config ''expanded-class'' = Some v
                \<longrightarrow> (\<exists>s0. v = JStr s0 \<and> s = filter class_char s0))))
   \<and> (map_of config ''expanded_class'' = Some (JStr s1) \<longrightarrow>
        (\<exists>stored. setOptions config = Inr stored
             \<and> map_of stored ''expanded_class'' = Some (JStr (filter class_char s1))))
   \<and> (map_of config ''expanded-class'' = Some (JStr s1) \<longrightarrow>
        (\<exists>stored. setArgs config = Inr stored
             \<and> map_of stored ''expanded-class'' = Some (JStr (filter class_char s1))))"
proof -
  have gen: "\<exists>s. map_of res ck = Some (JStr s)
          \<and> (\<forall>c\<in>set s. class_char c)
          \<and> (\<forall>v. map_of config ck = Some v \<longrightarrow> (\<exists>s0. v = JStr s0 \<and> s = filter class_char s0))"
    if r: "override_options ck config (map fst config) defs = Inr res"
      and d: "map_of defs ck = Some (JStr ''has-expanded-sub-menu'')"
    for ck defs res
  proof -
    from override_options_class[OF r d] obtain s where
      all: "map_of res ck = Some (JStr s)
         \<and> (map_of config ck = None \<longrightarrow> s = ''has-expanded-sub-menu'')
         \<and> (\<forall>v. map_of config ck = Some v \<longrightarrow> (\<exists>s0. v = JStr s0 \<and> s = filter class_char s0))" ..
    then have s: "map_of res ck = Some (JStr s)"
         "map_of config ck = None \<longrightarrow> s = ''has-expanded-sub-menu''"
         "\<forall>v. map_of config ck = Some v \<longrightarrow> (\<exists>s0. v = JStr s0 \<and> s = filter class_char s0)"
      by simp_all
    have "\<forall>c\<in>set s. class_char c"
    proof (cases "map_of config ck")
      case None
      with s(2) default_class_chars show ?thesis by simp
    next
      case (Some v)
      with s(3) show ?thesis by auto
    qed
    with s show ?thesis by blast
  qed
  have tot: "\<exists>stored. override_options ck config (map fst config) defs = Inr stored
             \<and> map_of stored ck = Some (JStr (filter class_char s1))"
    if c: "map_of config ck = Some (JStr s1)"
      and d: "map_of defs ck = Some (JStr ''has-expanded-sub-menu'')"
    for ck defs
  proof -
    have "\<forall>v. map_of config ck = Some v \<longrightarrow> is_string v" using c by simp
    from override_options_total_class[OF this] obtain stored where
      st: "override_options ck config (map fst config) defs = Inr stored" by blast
    from override_options_class[OF st d] c
    have "map_of stored ck = Some (JStr (filter class_char s1))" by auto
    with st show ?thesis by blast
  qed
  show ?thesis
    unfolding setOptions_def setArgs_def
    using gen[of "''expanded_class''" default_options opts, OF _ default_options_class]
      gen[of "''expanded-class''" default_args args, OF _ default_args_class]
      tot[of "''expanded_class''" default_options, OF _ default_options_class]
      tot[of "''expanded-class''" default_args, OF _ default_args_class]
    by blast
qed

theorem expanded_class_sanitized_witness:
  "map_of [(''expanded_class'', JStr ''a b.c_d-9!''), (''expanded-class'', JStr ''x y'')]
       ''expanded_class'' = Some (JStr ''a b.c_d-9!'')
   \<and> map_of [(''expanded_class'', JStr ''a b.c_d-9!''), (''expanded-class'', JStr ''x y'')]
       ''expanded-class'' = Some (JStr ''x y'')
   \<and> (\<exists>stored. setOptions [(''expanded_class'', JStr ''a b.c_d-9!''), (''expanded-class'', JStr ''x y'')]
                  = Inr stored
          \<and> map_of stored ''expanded_class'' = Some (JStr ''abc_d-9''))
   \<and> (\<exists>stored. setArgs [(''expanded_class'', JStr ''a b.c_d-9!''), (''expanded-class'', JStr ''x y'')]
                  = Inr stored
          \<and> map_of stored ''expanded-class'' = Some (JStr ''xy''))"
proof -
  let ?cfg = "[(''expanded_class'', JStr ''a b.c_d-9!''), (''expanded-class'', JStr ''x y'')]"
  have h1: "map_of ?cfg ''expanded_class'' = Some (JStr ''a b.c_d-9!'')" by simp
  have h2: "map_of ?cfg ''expanded-class'' = Some (JStr ''x y'')" by simp
  have f1: "filter class_char ''a b.c_d-9!'' = ''abc_d-9''" by (simp add: class_char_def)
  have f2: "filter class_char ''x y'' = ''xy''" by (simp add: class_char_def)
  from expanded_class_sanitized[of ?cfg default_options default_args "''a b.c_d-9!''"] h1
  have a: "\<exists>stored. setOptions ?cfg = Inr stored
             \<and> map_of stored ''expanded_class'' = Some (JStr ''abc_d-9'')"
    unfolding f1 by blast
  from expanded_class_sanitized[of ?cfg default_options default_args "''x y''"] h2
  have b: "\<exists>stored. setArgs ?cfg = Inr stored
             \<and> map_of stored ''expanded-class'' = Some (JStr ''xy'')"
    unfolding f2 by blast
  from h1 h2 a b show ?thesis by blast
qed

section \<open>Properties of the toggle button\<close>

lemma fst_set_set_prop: "fst ` set (set_prop k v kvs) = fst ` set kvs"
  using map_fst_set_prop[of k v kvs] by (metis set_map)

lemma set_attr_names:
  "set (map fst (attributes (set_attr n v e))) = insert n (set (map fst (attributes e)))"
  by (auto simp: set_attr_def fst_set_set_prop)

lemma getAttribute_set_attr:
  "getAttribute n' (set_attr n v e) = (if n' = n then Some v else getAttribute n' e)"
proof (cases "n \<in> fst ` set (attributes e)")
  case True
  then show ?thesis
    by (simp add: getAttribute_def set_attr_def map_of_set_prop)
next
  case False
  then have "map_of (attributes e) n = None" by (simp add: map_of_eq_None_iff)
  with False show ?thesis
    by (auto simp: getAttribute_def set_attr_def map_add_def split: option.splits)
qed

lemma localName_set_attr [simp]: "localName (set_attr n v e) = localName e"
  by (simp add: set_attr_def)

lemma focusable_set_attr [simp]: "focusable (set_attr n v e) = focusable e"
  by (simp add: set_attr_def)

lemma setAttribute_Inr:
  "setAttribute n v e = Inr e' \<longleftrightarrow> valid_attribute_name n \<and> e' = set_attr n v e"
  by (auto simp: setAttribute_def)

lemma converts_Inr: "converts v \<longleftrightarrow> (\<exists>str. to_string v = Inr str)"
  by (cases "to_string v") (simp_all add: converts_def)

lemma setAttribute_value_Inr:
  "setAttribute_value n v e = Inr e' \<longleftrightarrow>
     (\<exists>str. to_string v = Inr str \<and> valid_attribute_name n \<and> e' = set_attr n str e)"
  by (cases "to_string v") (auto simp: setAttribute_value_def setAttribute_Inr)

lemma set_allowed_atts_names:
  "set_allowed_atts atts names b = Inr b' \<Longrightarrow>
     set (map fst (attributes b')) =
       set (map fst (attributes b)) \<union> toLowerCase ` {n \<in> set names. allowed_att n}"
proof (induction names arbitrary: b)
  case Nil
  then show ?case by simp
next
  case (Cons name names)
  show ?case
  proof (cases "allowed_att name")
    case True
    with Cons.prems obtain b1 where
      b1: "setAttribute_value (toLowerCase name) (get_prop atts name) b = Inr b1"
      and rest: "set_allowed_atts atts names b1 = Inr b'"
      by (auto split: sum.splits)
    from b1 obtain str where "b1 = set_attr (toLowerCase name) str b"
      by (auto simp: setAttribute_value_Inr)
    then have "set (map fst (attributes b1)) = insert (toLowerCase name) (set (map fst (attributes b)))"
      using set_attr_names by blast
    with Cons.IH[OF rest] True show ?thesis by auto
  next
    case False
    with Cons.prems have "set_allowed_atts atts names b = Inr b'" by simp
    from Cons.IH[OF this] False show ?thesis by auto
  qed
qed

lemma set_allowed_atts_other:
  "set_allowed_atts atts names b = Inr b' \<Longrightarrow>
     \<forall>n\<in>set names. allowed_att n \<longrightarrow> toLowerCase n \<noteq> a \<Longrightarrow>
     getAttribute a b' = getAttribute a b"
proof (induction names arbitrary: b)
  case Nil
  then show ?case by simp
next
  case (Cons name names)
  show ?case
  proof (cases "allowed_att name")
    case True
    with Cons.prems obtain b1 where
      b1: "setAttribute_value (toLowerCase name) (get_prop atts name) b = Inr b1"
      and rest: "set_allowed_atts atts names b1 = Inr b'"
      by (auto split: sum.splits)
    from b1 obtain str where "b1 = set_attr (toLowerCase name) str b"
      by (auto simp: setAttribute_value_Inr)
    moreover have "toLowerCase name \<noteq> a" using Cons.prems(2) True by simp
    ultimately have "getAttribute a b1 = getAttribute a b"
      by (simp add: getAttribute_set_attr)
    with Cons.IH[OF rest] Cons.prems(2) show ?thesis by simp
  next
    case False
    with Cons.prems show ?thesis by (auto intro: Cons.IH)
  qed
qed

lemma set_allowed_atts_localName:
  "set_allowed_atts atts names b = Inr b' \<Longrightarrow> localName b' = localName b"
  by (induction names arbitrary: b) (auto simp: setAttribute_value_Inr split: if_splits sum.splits)

lemma set_allowed_atts_total:
  "\<forall>n\<in>set names. allowed_att n \<longrightarrow>
       valid_attribute_name (toLowerCase n) \<and> converts (get_prop atts n) \<Longrightarrow>
     \<exists>b'. set_allowed_atts atts names b = Inr b'"
proof (induction names arbitrary: b)
  case Nil
  show ?case by simp
next
  case (Cons name names)
  have rest: "\<exists>b'. set_allowed_atts atts names b1 = Inr b'" for b1
    by (rule Cons.IH) (use Cons.prems in simp)
  show ?case
  proof (cases "allowed_att name")
    case True
    with Cons.prems have v: "valid_attribute_name (toLowerCase name)"
      and c: "converts (get_prop atts name)" by simp_all
    from c obtain str where "to_string (get_prop atts name) = Inr str"
      by (auto simp: converts_Inr)
    with v have "setAttribute_value (toLowerCase name) (get_prop atts name) b
                  = Inr (set_attr (toLowerCase name) str b)"
      by (simp add: setAttribute_value_Inr)
    with True rest show ?thesis by simp
  next
    case False
    with rest show ?thesis by simp
  qed
qed

lemma class_allowed: "allowed_att ''class''"
  by (simp add: allowed_att_def)

lemma filter_pair_set: "P a \<Longrightarrow> P b \<Longrightarrow> {n \<in> {a, b}. P n} = {a, b}"
  by blast

lemma aria_label_allowed: "allowed_att ''aria-label''"
  by (simp add: allowed_att_def)

lemma toLowerCase_aria_label: "toLowerCase ''aria-label'' = ''aria-label''"
  by (simp add: toLowerCase_def lower_char_def)

lemma get_prop_not_nullish_key:
  "not_nullish (get_prop (JObj kvs) k) \<Longrightarrow> k \<in> fst ` set kvs"
  by (cases "map_of kvs k") (auto simp: map_of_eq_None_iff intro: rev_image_eqI dest: map_of_SomeD)

text \<open>
  The button built from a non-empty attribute object \<open>kvs\<close> whose allowed names are
  names \<^verbatim>\<open>setAttribute\<close> accepts.
\<close>

lemma build_button_object:
  assumes valid: "\<forall>n\<in>fst ` set kvs. allowed_att n \<longrightarrow>
                    valid_attribute_name (toLowerCase n) \<and> converts (get_prop (JObj kvs) n)"
    and label: "converts (get_prop (get_prop (JObj kvs) ''aria-label'') ''expand'')"
  shows "\<exists>b. build_button (JObj kvs) = Inr b
           \<and> localName b = ''button''
           \<and> set (map fst (attributes b)) =
               insert ''aria-expanded'' (toLowerCase ` {n \<in> fst ` set kvs. allowed_att n})
           \<and> ((\<forall>n\<in>fst ` set kvs. allowed_att n \<longrightarrow> toLowerCase n \<noteq> ''aria-expanded'')
                \<longrightarrow> getAttribute ''aria-expanded'' b = Some ''false'')"
proof -
  define A where "A = toLowerCase ` {n \<in> fst ` set kvs. allowed_att n}"
  define ex where "ex = ''aria-expanded''"
  define al where "al = ''aria-label''"
  define lab where "lab = get_prop (JObj kvs) al"
  define b0 where "b0 = set_attr ex ''false'' createElement_button"
  have "\<exists>b1. set_allowed_atts (JObj kvs) (map fst kvs) b0 = Inr b1"
    using valid by (intro set_allowed_atts_total) simp
  then obtain b1 where b1: "set_allowed_atts (JObj kvs) (map fst kvs) b0 = Inr b1" ..
  have names0: "set (map fst (attributes b0)) = {ex}"
    unfolding b0_def set_attr_names by (simp add: createElement_button_def)
  have "{n \<in> set (map fst kvs). allowed_att n} = {n \<in> fst ` set kvs. allowed_att n}"
    by simp
  then have names1: "set (map fst (attributes b1)) = insert ex A"
    using set_allowed_atts_names[OF b1] names0 by (simp add: A_def)
  have ln1: "localName b1 = ''button''"
    using set_allowed_atts_localName[OF b1] by (simp add: b0_def createElement_button_def)
  have exp0: "getAttribute ex b0 = Some ''false''"
    by (simp add: b0_def getAttribute_set_attr)
  have exp1: "getAttribute ex b1 = Some ''false''"
    if "\<forall>n\<in>fst ` set kvs. allowed_att n \<longrightarrow> toLowerCase n \<noteq> ex"
  proof -
    from that have "\<forall>n\<in>set (map fst kvs). allowed_att n \<longrightarrow> toLowerCase n \<noteq> ex" by simp
    from set_allowed_atts_other[OF b1 this] exp0 show ?thesis by simp
  qed
  define c where "c \<longleftrightarrow> not_nullish lab \<and> not_nullish (get_prop lab ''expand'')"
  from label obtain str where str: "to_string (get_prop lab ''expand'') = Inr str"
    by (auto simp: converts_Inr lab_def al_def)
  define b where "b = (if c then set_attr al str b1 else b1)"
  have va: "valid_attribute_name al"
    by (simp add: al_def valid_attribute_name_def is_ws_def)
  have res: "build_button (JObj kvs) = Inr b"
    using b1 str va
    by (simp add: build_button_def b_def lab_def c_def b0_def ex_def al_def
          setAttribute_value_def setAttribute_def)
  have ln: "localName b = ''button''" using ln1 by (simp add: b_def)
  have names: "set (map fst (attributes b)) = insert ex A"
  proof (cases c)
    case True
    then have "not_nullish (get_prop (JObj kvs) al)" by (simp add: c_def lab_def)
    then have "al \<in> fst ` set kvs" by (rule get_prop_not_nullish_key)
    moreover have "allowed_att al" unfolding al_def by (rule aria_label_allowed)
    ultimately have "al \<in> {n \<in> fst ` set kvs. allowed_att n}" by blast
    then have "toLowerCase al \<in> A" unfolding A_def by (rule imageI)
    then have "al \<in> A" by (simp add: al_def toLowerCase_aria_label)
    then have "insert al (insert ex A) = insert ex A" by blast
    moreover have "set (map fst (attributes b)) = insert al (set (map fst (attributes b1)))"
      using True unfolding b_def by (simp only: if_True set_attr_names)
    ultimately show ?thesis using names1 by simp
  next
    case False
    then show ?thesis using names1 by (simp add: b_def)
  qed
  have neq: "ex \<noteq> al" by (simp add: ex_def al_def)
  have exp: "getAttribute ex b = Some ''false''"
    if "\<forall>n\<in>fst ` set kvs. allowed_att n \<longrightarrow> toLowerCase n \<noteq> ex"
    using exp1[OF that] neq by (simp add: b_def getAttribute_set_attr)
  from res ln names exp show ?thesis unfolding A_def ex_def by blast
qed

lemma object_keys_empty: "object_keys (atts_or_empty (JObj kvs)) = [] \<longleftrightarrow> kvs = []"
  by (simp add: atts_or_empty_def)

section \<open>The claim about the toggle button\<close>

text \<open>
  C10, as the claim states it, fails: an attribute object may itself configure
  \<^verbatim>\<open>aria-expanded\<close>, which the loop over the allowed attributes then overwrites.
  For the object \<^verbatim>\<open>{ 'aria-expanded': 'true' }\<close> both versions return a button whose
  \<^verbatim>\<open>aria-expanded\<close> is \<^verbatim>\<open>"true"\<close>.
\<close>

theorem getButton_aria_expanded_counterexample:
  "getButton_006 (JObj [(''aria-expanded'', JStr ''true'')])
     = Inr (Some \<lparr>localName = ''button'', attributes = [(''aria-expanded'', ''true'')],
                  focusable = True\<rparr>)
   \<and> getButton_100 default_options (JObj [(''aria-expanded'', JStr ''true'')])
     = Inr (Some \<lparr>localName = ''button'', attributes = [(''aria-expanded'', ''true'')],
                  focusable = True\<rparr>)"
  by (simp add: getButton_006_def getButton_100_def atts_or_empty_def build_button_def
        allowed_att_def toLowerCase_def lower_char_def setAttribute_value_def setAttribute_def
        valid_attribute_name_def is_ws_def
        set_attr_def createElement_button_def isMode_def getOption_def getOption_step_def
        default_options_def)

text \<open>
  C10, amended. For every non-empty attribute object whose allowed names (\<^verbatim>\<open>class\<close>,
  \<^verbatim>\<open>tabindex\<close>, \<^verbatim>\<open>title\<close>, or beginning with \<^verbatim>\<open>aria-\<close> or \<^verbatim>\<open>data-\<close>) are,
  lower-cased, names \<^verbatim>\<open>setAttribute\<close> accepts and have values that convert to a
  string, as the \<^verbatim>\<open>expand\<close> entry of the label does, \<^verbatim>\<open>getButton\<close> of 0.0.6
  returns a button element; so does \<^verbatim>\<open>getButton\<close> of 1.0.0 when the mode
  \<^verbatim>\<open>button\<close> is enabled, and it returns no button when that mode is disabled. The
  attribute names of the button are \<^verbatim>\<open>aria-expanded\<close> and the lower-cased allowed
  names of the object, no others; \<^verbatim>\<open>aria-expanded\<close> is \<^verbatim>\<open>"false"\<close> unless an
  allowed name of the object lower-cases to \<^verbatim>\<open>aria-expanded\<close>. For an empty
  attribute object no button is returned.
\<close>

theorem getButton_allowed_attributes:
  "(kvs \<noteq> []
    \<and> (\<forall>n\<in>fst ` set kvs. allowed_att n \<longrightarrow>
           valid_attribute_name (toLowerCase n) \<and> converts (get_prop (JObj kvs) n))
    \<and> converts (get_prop (get_prop (JObj kvs) ''aria-label'') ''expand'')
      \<longrightarrow> (\<exists>b. getButton_006 (JObj kvs) = Inr (Some b)
              \<and> (isMode opts ''button'' = Inr True \<longrightarrow> getButton_100 opts (JObj kvs) = Inr (Some b))
              \<and> localName b = ''button''
              \<and> set (map fst (attributes b)) =
                  insert ''aria-expanded'' (toLowerCase ` {n \<in> fst ` set kvs. allowed_att n})
              \<and> ((\<forall>n\<in>fst ` set kvs. allowed_att n \<longrightarrow> toLowerCase n \<noteq> ''aria-expanded'')
                   \<longrightarrow> getAttribute ''aria-expanded'' b = Some ''false'')))
   \<and> (kvs \<noteq> [] \<and> isMode opts ''button'' = Inr False \<longrightarrow> getButton_100 opts (JObj kvs) = Inr None)
   \<and> getButton_006 (JObj []) = Inr None
   \<and> getButton_100 opts (JObj []) = Inr None"
proof (intro conjI impI)
  assume h: "kvs \<noteq> []
    \<and> (\<forall>n\<in>fst ` set kvs. allowed_att n \<longrightarrow>
           valid_attribute_name (toLowerCase n) \<and> converts (get_prop (JObj kvs) n))
    \<and> converts (get_prop (get_prop (JObj kvs) ''aria-label'') ''expand'')"
  then have ne: "kvs \<noteq> []"
    and valid: "\<forall>n\<in>fst ` set kvs. allowed_att n \<longrightarrow>
                  valid_attribute_name (toLowerCase n) \<and> converts (get_prop (JObj kvs) n)"
    and label: "converts (get_prop (get_prop (JObj kvs) ''aria-label'') ''expand'')"
    by simp_all
  from build_button_object[OF valid label] obtain b where
    b: "build_button (JObj kvs) = Inr b
         \<and> localName b = ''button''
         \<and> set (map fst (attributes b)) =
             insert ''aria-expanded'' (toLowerCase ` {n \<in> fst ` set kvs. allowed_att n})
         \<and> ((\<forall>n\<in>fst ` set kvs. allowed_att n \<longrightarrow> toLowerCase n \<noteq> ''aria-expanded'')
              \<longrightarrow> getAttribute ''aria-expanded'' b = Some ''false'')" ..
  then have bb: "build_button (JObj kvs) = Inr b" ..
  have g6: "getButton_006 (JObj kvs) = Inr (Some b)"
    using ne bb by (simp add: getButton_006_def atts_or_empty_def)
  have g1: "isMode opts ''button'' = Inr True \<longrightarrow> getButton_100 opts (JObj kvs) = Inr (Some b)"
    using ne bb by (simp add: getButton_100_def atts_or_empty_def)
  show "\<exists>b. getButton_006 (JObj kvs) = Inr (Some b)
              \<and> (isMode opts ''button'' = Inr True \<longrightarrow> getButton_100 opts (JObj kvs) = Inr (Some b))
              \<and> localName b = ''button''
              \<and> set (map fst (attributes b)) =
                  insert ''aria-expanded'' (toLowerCase ` {n \<in> fst ` set kvs. allowed_att n})
              \<and> ((\<forall>n\<in>fst ` set kvs. allowed_att n \<longrightarrow> toLowerCase n \<noteq> ''aria-expanded'')
                   \<longrightarrow> getAttribute ''aria-expanded'' b = Some ''false'')"
    by (rule exI[of _ b], rule conjI[OF g6], rule conjI[OF g1], rule conjunct2[OF b])
next
  assume "kvs \<noteq> [] \<and> isMode opts ''button'' = Inr False"
  then show "getButton_100 opts (JObj kvs) = Inr None"
    by (simp add: getButton_100_def atts_or_empty_def)
next
  show "getButton_006 (JObj []) = Inr None"
    by (simp add: getButton_006_def atts_or_empty_def)
next
  show "getButton_100 opts (JObj []) = Inr None"
    by (simp add: getButton_100_def atts_or_empty_def)
qed

text \<open>
  The theorem at the default attribute object, with the default options (mode
  \<^verbatim>\<open>button\<close> enabled) and with the mode option set to \<^verbatim>\<open>[ 'esc' ]\<close>.
\<close>

theorem getButton_allowed_attributes_witness:
  "(\<exists>b. getButton_006 (get_prop (JObj default_args) ''button-attributes'') = Inr (Some b)
       \<and> getButton_100 default_options (get_prop (JObj default_args) ''button-attributes'')
           = Inr (Some b)
       \<and> localName b = ''button''
       \<and> set (map fst (attributes b)) = {''aria-expanded'', ''class'', ''aria-label''}
       \<and> getAttribute ''aria-expanded'' b = Some ''false'')
   \<and> getButton_100 [(''mode'', JArr [JStr ''esc''])]
        (get_prop (JObj default_args) ''button-attributes'') = Inr None"
proof -
  define kvs where "kvs = [(''class'', JStr ''button-toggle-sub-menu''),
               (''aria-label'',
                  JObj [(''collapse'', JStr ''Collapse child menu''),
                        (''expand'', JStr ''Expand child menu'')])]"
  define esc where "esc = [(''mode'', JArr [JStr ''esc''])]"
  have atts: "get_prop (JObj default_args) ''button-attributes'' = JObj kvs"
    by (simp add: default_args_def kvs_def)
  have ne: "kvs \<noteq> []" by (simp add: kvs_def)
  have valid: "\<forall>n\<in>fst ` set kvs. allowed_att n \<longrightarrow>
                 valid_attribute_name (toLowerCase n) \<and> converts (get_prop (JObj kvs) n)"
    by (simp add: kvs_def toLowerCase_def lower_char_def valid_attribute_name_def is_ws_def
          converts_def)
  have label: "converts (get_prop (get_prop (JObj kvs) ''aria-label'') ''expand'')"
    by (simp add: kvs_def converts_def)
  have m1: "isMode default_options ''button'' = Inr True"
    by (simp add: isMode_def getOption_def getOption_step_def default_options_def)
  have m2: "isMode esc ''button'' = Inr False"
    by (simp add: esc_def isMode_def getOption_def getOption_step_def)
  have k: "fst ` set kvs = {''class'', ''aria-label''}" by (simp add: kvs_def)
  have keys: "{n \<in> fst ` set kvs. allowed_att n} = {''class'', ''aria-label''}"
    unfolding k by (rule filter_pair_set[of allowed_att, OF class_allowed aria_label_allowed])
  have names: "insert ''aria-expanded'' (toLowerCase ` {n \<in> fst ` set kvs. allowed_att n})
      = {''aria-expanded'', ''class'', ''aria-label''}"
    unfolding keys by (simp add: toLowerCase_def lower_char_def)
  have noexp: "\<forall>n\<in>fst ` set kvs. allowed_att n \<longrightarrow> toLowerCase n \<noteq> ''aria-expanded''"
    by (simp add: kvs_def toLowerCase_def lower_char_def)
  note thm1 = getButton_allowed_attributes[of kvs default_options]
  note thm2 = getButton_allowed_attributes[of kvs esc]
  from conjunct1[OF thm1, THEN mp, OF conjI[OF ne conjI[OF valid label]]] obtain b where
    b: "getButton_006 (JObj kvs) = Inr (Some b)
         \<and> (isMode default_options ''button'' = Inr True
               \<longrightarrow> getButton_100 default_options (JObj kvs) = Inr (Some b))
         \<and> localName b = ''button''
         \<and> set (map fst (attributes b)) =
             insert ''aria-expanded'' (toLowerCase ` {n \<in> fst ` set kvs. allowed_att n})
         \<and> ((\<forall>n\<in>fst ` set kvs. allowed_att n \<longrightarrow> toLowerCase n \<noteq> ''aria-expanded'')
              \<longrightarrow> getAttribute ''aria-expanded'' b = Some ''false'')" ..
  have b1: "getButton_006 (JObj kvs) = Inr (Some b)" using b by (rule conjunct1)
  have b2: "getButton_100 default_options (JObj kvs) = Inr (Some b)"
    using b m1 by simp
  have b3: "localName b = ''button''" using b by simp
  have b4: "set (map fst (attributes b)) = {''aria-expanded'', ''class'', ''aria-label''}"
    using conjunct1[OF conjunct2[OF conjunct2[OF conjunct2[OF b]]]] unfolding names .
  have b5: "getAttribute ''aria-expanded'' b = Some ''false''"
    using conjunct2[OF conjunct2[OF conjunct2[OF conjunct2[OF b]]]] noexp by (rule mp)
  have a: "\<exists>b. getButton_006 (JObj kvs) = Inr (Some b)
       \<and> getButton_100 default_options (JObj kvs) = Inr (Some b)
       \<and> localName b = ''button''
       \<and> set (map fst (attributes b)) = {''aria-expanded'', ''class'', ''aria-label''}
       \<and> getAttribute ''aria-expanded'' b = Some ''false''"
    by (rule exI[of _ b]) (intro conjI b1 b2 b3 b4 b5)
  have c: "getButton_100 esc (JObj kvs) = Inr None"
    using conjunct1[OF conjunct2[OF thm2], THEN mp, OF conjI[OF ne m2]] .
  from a c show ?thesis unfolding atts esc_def by (rule conjI)
qed

section \<open>Properties of the class list\<close>

lemma check_token_None: "check_token c = None \<longleftrightarrow> valid_token c"
  by (simp add: check_token_def valid_token_def)

lemma tokens_acc_valid:
  "\<not> list_ex is_ws cur \<Longrightarrow> \<forall>t\<in>set (tokens_acc cur s). valid_token t"
proof (induction s arbitrary: cur)
  case Nil
  then show ?case by (simp add: valid_token_def)
next
  case (Cons c cs)
  show ?case
  proof (cases "is_ws c")
    case True
    have "\<forall>t\<in>set (tokens_acc [] cs). valid_token t" by (rule Cons.IH) simp
    with True Cons.prems show ?thesis by (simp add: valid_token_def)
  next
    case False
    have "\<forall>t\<in>set (tokens_acc (cur @ [c]) cs). valid_token t"
      by (rule Cons.IH) (use False Cons.prems in simp)
    with False show ?thesis by simp
  qed
qed

lemma tokens_acc_append:
  "\<not> list_ex is_ws t \<Longrightarrow> tokens_acc cur (t @ s) = tokens_acc (cur @ t) s"
  by (induction t arbitrary: cur) simp_all

lemma is_ws_space: "is_ws CHR '' ''"
  by (simp add: is_ws_def)

lemma tokens_join:
  "\<forall>t\<in>set ts. valid_token t \<Longrightarrow> tokens_acc [] (join '' '' ts) = ts"
proof (induction ts)
  case Nil
  then show ?case by simp
next
  case (Cons x ts)
  then have x: "\<not> list_ex is_ws x" "x \<noteq> []" by (simp_all add: valid_token_def)
  show ?case
  proof (cases ts)
    case Nil
    then show ?thesis using x tokens_acc_append[of x "[]" "[]"] by simp
  next
    case (Cons y ys)
    have rest: "tokens_acc [] (join '' '' ts) = ts" using Cons.prems Cons.IH by simp
    have "tokens_acc [] (x @ '' '' @ join '' '' ts) = tokens_acc x ('' '' @ join '' '' ts)"
      using tokens_acc_append[OF x(1), of "[]"] by simp
    also have "\<dots> = x # tokens_acc [] (join '' '' ts)"
      using x(2) is_ws_space by simp
    finally show ?thesis using rest Cons by simp
  qed
qed

lemma set_ordered_set [simp]: "set (ordered_set xs) = set xs"
  by (induction xs) auto

lemma distinct_ordered_set [simp]: "distinct (ordered_set xs)"
  by (induction xs) auto

lemma ordered_set_distinct: "distinct xs \<Longrightarrow> ordered_set xs = xs"
proof (induction xs)
  case Nil
  then show ?case by simp
next
  case (Cons x xs)
  then have "filter (\<lambda>y. y \<noteq> x) xs = xs" by (auto simp: filter_id_conv)
  with Cons show ?case by simp
qed

lemma class_tokens_valid: "\<forall>t\<in>set (class_tokens e). valid_token t"
  using tokens_acc_valid[of "[]"] by (simp add: class_tokens_def)

lemma class_tokens_distinct: "distinct (class_tokens e)"
  by (simp add: class_tokens_def)

lemma getAttribute_classList_update:
  "n \<noteq> ''class'' \<Longrightarrow> getAttribute n (classList_update toks e) = getAttribute n e"
  by (simp add: classList_update_def getAttribute_set_attr)

lemma localName_classList_update [simp]: "localName (classList_update toks e) = localName e"
  by (simp add: classList_update_def)

lemma focusable_classList_update [simp]: "focusable (classList_update toks e) = focusable e"
  by (simp add: classList_update_def)

lemma class_tokens_classList_update:
  assumes "distinct toks" "\<forall>t\<in>set toks. valid_token t"
  shows "class_tokens (classList_update toks e) = toks"
proof (cases "getAttribute ''class'' e = None \<and> toks = []")
  case True
  then show ?thesis by (simp add: classList_update_def class_tokens_def)
next
  case False
  then have "classList_update toks e = set_attr ''class'' (join '' '' toks) e"
    by (auto simp: classList_update_def)
  then have "class_tokens (classList_update toks e) = ordered_set (tokens_acc [] (join '' '' toks))"
    by (simp add: class_tokens_def getAttribute_set_attr)
  then show ?thesis using assms by (simp add: tokens_join ordered_set_distinct)
qed

lemma classList_add_Inr:
  "classList_add c e = Inr e' \<longleftrightarrow>
     valid_token c \<and>
     e' = classList_update (if c \<in> set (class_tokens e) then class_tokens e
                            else class_tokens e @ [c]) e"
  by (auto simp: classList_add_def check_token_None[symmetric] split: option.splits)

lemma classList_remove_Inr:
  "classList_remove c e = Inr e' \<longleftrightarrow>
     valid_token c \<and> e' = classList_update (filter (\<lambda>t. t \<noteq> c) (class_tokens e)) e"
  by (auto simp: classList_remove_def check_token_None[symmetric] split: option.splits)

lemma classList_add_contains:
  assumes "classList_add c e = Inr e'"
  shows "classList_contains x e' \<longleftrightarrow> x = c \<or> classList_contains x e"
proof -
  let ?toks = "if c \<in> set (class_tokens e) then class_tokens e else class_tokens e @ [c]"
  from assms have v: "valid_token c" and e': "e' = classList_update ?toks e"
    by (simp_all add: classList_add_Inr)
  have "distinct ?toks" using class_tokens_distinct[of e] by simp
  moreover have "\<forall>t\<in>set ?toks. valid_token t" using class_tokens_valid[of e] v by simp
  ultimately have "class_tokens e' = ?toks"
    unfolding e' by (rule class_tokens_classList_update)
  then show ?thesis by (auto simp: classList_contains_def)
qed

lemma classList_remove_contains:
  assumes "classList_remove c e = Inr e'"
  shows "classList_contains x e' \<longleftrightarrow> x \<noteq> c \<and> classList_contains x e"
proof -
  let ?toks = "filter (\<lambda>t. t \<noteq> c) (class_tokens e)"
  from assms have e': "e' = classList_update ?toks e"
    by (simp add: classList_remove_Inr)
  have "distinct ?toks" using class_tokens_distinct[of e] by simp
  moreover have "\<forall>t\<in>set ?toks. valid_token t" using class_tokens_valid[of e] by simp
  ultimately have "class_tokens e' = ?toks"
    unfolding e' by (rule class_tokens_classList_update)
  then show ?thesis by (auto simp: classList_contains_def)
qed

lemma classList_add_other:
  "classList_add c e = Inr e' \<Longrightarrow>
     localName e' = localName e \<and> focusable e' = focusable e
     \<and> (\<forall>n. n \<noteq> ''class'' \<longrightarrow> getAttribute n e' = getAttribute n e)"
  by (simp add: classList_add_Inr getAttribute_classList_update)

lemma classList_remove_other:
  "classList_remove c e = Inr e' \<Longrightarrow>
     localName e' = localName e \<and> focusable e' = focusable e
     \<and> (\<forall>n. n \<noteq> ''class'' \<longrightarrow> getAttribute n e' = getAttribute n e)"
  by (simp add: classList_remove_Inr getAttribute_classList_update)

lemma class_tokens_set_attr:
  "n \<noteq> ''class'' \<Longrightarrow> class_tokens (set_attr n v e) = class_tokens e"
  by (simp add: class_tokens_def getAttribute_set_attr)

lemma classList_contains_set_attr:
  "n \<noteq> ''class'' \<Longrightarrow> classList_contains c (set_attr n v e) = classList_contains c e"
  by (simp add: classList_contains_def class_tokens_set_attr)

section \<open>Rules for statements\<close>

lemma bindA_InrE:
  assumes "bindA m f s = (Inr r, s')"
  obtains x s1 where "m s = (Inr x, s1)" "f x s1 = (Inr r, s')"
  using assms by (auto simp: bindA_def split: prod.splits sum.splits)

lemma bindA_Inr_iff:
  "bindA m f s = (Inr r, s') \<longleftrightarrow> (\<exists>x s1. m s = (Inr x, s1) \<and> f x s1 = (Inr r, s'))"
  by (auto simp: bindA_def split: prod.splits sum.splits)


lemma bindA_throw: "m s = (Inl e, s1) \<Longrightarrow> bindA m f s = (Inl e, s1)"
  by (simp add: bindA_def)

lemma getAction_Inr: "getAction f s = (Inr x, s') \<longleftrightarrow> f s = Inr x \<and> s' = s"
  by (auto simp: getAction_def)

lemma returnA_eq: "returnA x s = (r, s') \<longleftrightarrow> r = Inr x \<and> s' = s"
  by (auto simp: returnA_def)

lemma modify_eq: "modify f s = (r, s') \<longleftrightarrow> r = Inr () \<and> s' = f s"
  by (auto simp: modify_def)

lemma update_elem_Inr:
  "update_elem i f s = (Inr u, s') \<longleftrightarrow>
     (\<exists>e'. f (nodes s i) = Inr e' \<and> s' = s\<lparr>nodes := (nodes s)(i := e')\<rparr>)"
  by (auto simp: update_elem_def split: sum.splits)

lemma rel_okD: "rel_ok R m \<Longrightarrow> m s = (r, s') \<Longrightarrow> R s s'"
  by (simp add: rel_ok_def)

lemma rel_okI: "(\<And>s r s'. m s = (r, s') \<Longrightarrow> R s s') \<Longrightarrow> rel_ok R m"
  by (simp add: rel_ok_def)

lemma rel_ok_returnA: "reflp R \<Longrightarrow> rel_ok R (returnA x)"
  by (auto simp: rel_ok_def returnA_def reflp_def)

lemma rel_ok_throwA: "reflp R \<Longrightarrow> rel_ok R (throwA e)"
  by (auto simp: rel_ok_def throwA_def reflp_def)

lemma rel_ok_getAction: "reflp R \<Longrightarrow> rel_ok R (getAction f)"
  by (auto simp: rel_ok_def getAction_def reflp_def)

lemma rel_ok_modify: "(\<And>s. R s (f s)) \<Longrightarrow> rel_ok R (modify f)"
  by (auto simp: rel_ok_def modify_def)

lemma rel_ok_bindA:
  assumes "transp R" "rel_ok R m" "\<And>x. rel_ok R (f x)"
  shows "rel_ok R (bindA m f)"
proof (rule rel_okI)
  fix s r s'
  assume a: "bindA m f s = (r, s')"
  obtain r1 s1 where m: "m s = (r1, s1)" by (cases "m s")
  show "R s s'"
  proof (cases r1)
    case (Inl e)
    with a m have "s' = s1" by (simp add: bindA_def)
    with m assms(2) show ?thesis by (auto dest: rel_okD)
  next
    case (Inr x)
    with a m have "f x s1 = (r, s')" by (simp add: bindA_def)
    then have "R s1 s'" using assms(3) by (auto dest: rel_okD)
    moreover have "R s s1" using m assms(2) by (auto dest: rel_okD)
    ultimately show ?thesis using assms(1) by (auto dest: transpD)
  qed
qed

lemma rel_ok_forEach:
  assumes "reflp R" "transp R" "\<And>x. x \<in> set xs \<Longrightarrow> rel_ok R (f x)"
  shows "rel_ok R (forEach xs f)"
  using assms(3)
proof (induction xs)
  case Nil
  then show ?case using assms(1) by (auto simp: rel_ok_def reflp_def)
next
  case (Cons x xs)
  have tl: "rel_ok R (forEach xs f)" by (rule Cons.IH) (simp add: Cons.prems)
  have hd: "rel_ok R (f x)" by (rule Cons.prems) simp
  show ?case
  proof (rule rel_okI)
    fix s r s'
    assume a: "forEach (x # xs) f s = (r, s')"
    obtain r1 s1 where m: "f x s = (r1, s1)" by (cases "f x s")
    have r1: "R s s1" using hd m by (rule rel_okD)
    show "R s s'"
    proof (cases r1)
      case (Inl e)
      with a m have "s' = s1" by simp
      with r1 show ?thesis by simp
    next
      case (Inr u)
      with a m have "forEach xs f s1 = (r, s')" by simp
      then have "R s1 s'" using tl by (auto dest: rel_okD)
      with r1 assms(2) show ?thesis by (auto dest: transpD)
    qed
  qed
qed

lemma rel_ok_state: "(\<And>s0. rel_ok R (F s0)) \<Longrightarrow> rel_ok R (\<lambda>s. F s s)"
  by (simp add: rel_ok_def)

lemma rel_ok_if: "rel_ok R a \<Longrightarrow> rel_ok R b \<Longrightarrow> rel_ok R (if c then a else b)"
  by simp

lemma rel_ok_update_elem:
  assumes "reflp R"
    and "\<And>s e'. f (nodes s i) = Inr e' \<Longrightarrow> R s (s\<lparr>nodes := (nodes s)(i := e')\<rparr>)"
  shows "rel_ok R (update_elem i f)"
  using assms by (auto simp: rel_ok_def update_elem_def reflp_def split: sum.splits)

text \<open>
  An invariant over the elements a loop has gone through, for a loop that ran to its end.
\<close>

lemma forEach_inv_gen:
  assumes "forEach xs f s = (Inr u, s')"
    and "P done s"
    and "\<And>d x a b v. x \<in> set xs \<Longrightarrow> P d a \<Longrightarrow> f x a = (Inr v, b) \<Longrightarrow> P (d @ [x]) b"
  shows "P (done @ xs) s'"
  using assms
proof (induction xs arbitrary: s "done")
  case Nil
  then show ?case by simp
next
  case (Cons x xs)
  from Cons.prems(1) obtain v s1 where
    hd: "f x s = (Inr v, s1)" and tl: "forEach xs f s1 = (Inr u, s')"
    by (auto split: prod.splits sum.splits)
  have p1: "P (done @ [x]) s1" using Cons.prems(3)[OF _ Cons.prems(2) hd] by simp
  have "P ((done @ [x]) @ xs) s'"
  proof (rule Cons.IH[OF tl p1])
    fix d y a b v
    assume "y \<in> set xs" "P d a" "f y a = (Inr v, b)"
    then show "P (d @ [y]) b" using Cons.prems(3)[of y d a v b] by simp
  qed
  then show ?case by simp
qed

text \<open>
  After a loop that ran to its end, what each turn establishes for its element holds for
  every element, when the later turns keep it.
\<close>

lemma forEach_post:
  assumes run: "forEach xs f s = (Inr u, s')"
    and inv: "I s"
    and step: "\<And>x a b v. x \<in> set xs \<Longrightarrow> I a \<Longrightarrow> f x a = (Inr v, b) \<Longrightarrow> I b \<and> Q x b"
    and keep: "\<And>x y a b v. y \<in> set xs \<Longrightarrow> I a \<Longrightarrow> Q x a \<Longrightarrow> f y a = (Inr v, b) \<Longrightarrow> Q x b"
  shows "I s' \<and> (\<forall>x\<in>set xs. Q x s')"
proof -
  define P where "P d a \<longleftrightarrow> I a \<and> (\<forall>x\<in>set d. Q x a)" for d a
  have "P ([] @ xs) s'"
  proof (rule forEach_inv_gen[OF run])
    show "P [] s" using inv by (simp add: P_def)
  next
    fix d x a b v
    assume x: "x \<in> set xs" and p: "P d a" and f: "f x a = (Inr v, b)"
    from p have ia: "I a" and qa: "\<forall>y\<in>set d. Q y a" by (simp_all add: P_def)
    from step[OF x ia f] have ib: "I b" and qx: "Q x b" by simp_all
    have "\<forall>y\<in>set d. Q y b" using keep[OF x ia _ f] qa by blast
    with ib qx show "P (d @ [x]) b" by (simp add: P_def)
  qed
  then show ?thesis by (simp add: P_def)
qed

text \<open>A loop runs to its end when every turn does, from every state the loop can reach.\<close>

lemma forEach_total:
  assumes "I s"
    and "\<And>x a. x \<in> set xs \<Longrightarrow> I a \<Longrightarrow> \<exists>v b. f x a = (Inr v, b) \<and> I b"
  shows "\<exists>s'. forEach xs f s = (Inr (), s') \<and> I s'"
  using assms
proof (induction xs arbitrary: s)
  case Nil
  then show ?case by simp
next
  case (Cons x xs)
  from Cons.prems(2)[of x s] Cons.prems(1) obtain v s1 where
    hd: "f x s = (Inr v, s1)" and i1: "I s1" by auto
  have "\<exists>s'. forEach xs f s1 = (Inr (), s') \<and> I s'"
    by (rule Cons.IH[OF i1]) (use Cons.prems(2) in simp)
  with hd show ?case by simp
qed

section \<open>What the statements of the script change\<close>

lemma same_but_class_refl [simp]: "same_but_class e e"
  by (simp add: same_but_class_def)

lemma same_but_class_trans:
  "same_but_class a b \<Longrightarrow> same_but_class b c \<Longrightarrow> same_but_class a c"
  by (simp add: same_but_class_def)

lemma same_but_aria_refl [simp]: "same_but_aria e e"
  by (simp add: same_but_aria_def)

lemma same_but_aria_trans:
  "same_but_aria a b \<Longrightarrow> same_but_aria b c \<Longrightarrow> same_but_aria a c"
  by (simp add: same_but_aria_def)

lemma same_but_aria_set_attr:
  "n = ''aria-label'' \<or> n = ''aria-expanded'' \<Longrightarrow> same_but_aria e (set_attr n v e)"
  by (auto simp: same_but_aria_def getAttribute_set_attr)

lemma same_but_class_add: "classList_add c e = Inr e' \<Longrightarrow> same_but_class e e'"
  by (simp add: same_but_class_def classList_add_other)

lemma same_but_class_remove: "classList_remove c e = Inr e' \<Longrightarrow> same_but_class e e'"
  by (simp add: same_but_class_def classList_remove_other)

lemma same_but_aria_class:
  assumes "same_but_aria e e'"
  shows "class_tokens e' = class_tokens e"
proof -
  have "getAttribute ''class'' e' = getAttribute ''class'' e"
    using assms by (simp add: same_but_aria_def)
  then show ?thesis by (simp add: class_tokens_def)
qed

lemma same_but_aria_contains:
  "same_but_aria e e' \<Longrightarrow> classList_contains c e' = classList_contains c e"
  by (simp add: classList_contains_def same_but_aria_class)

lemma same_but_aria_haspopup:
  "same_but_aria e e' \<Longrightarrow> matches_haspopup e' = matches_haspopup e"
  by (simp add: matches_haspopup_def same_but_aria_def)

lemma same_but_aria_link:
  "same_but_aria e e' \<Longrightarrow> matches_link e' = matches_link e"
  by (simp add: matches_link_def same_but_aria_def)

lemma same_but_class_haspopup:
  "same_but_class e e' \<Longrightarrow> matches_haspopup e' = matches_haspopup e"
  by (simp add: matches_haspopup_def same_but_class_def)

lemma same_but_class_button:
  "same_but_class e e' \<Longrightarrow> matches_button e' = matches_button e"
  by (simp add: matches_button_def same_but_class_def)

lemma same_but_class_aria:
  "same_but_class e e' \<Longrightarrow> getAttribute ''aria-expanded'' e' = getAttribute ''aria-expanded'' e
     \<and> getAttribute ''aria-label'' e' = getAttribute ''aria-label'' e"
  by (simp add: same_but_class_def)

lemma same_page_refl [simp]: "same_page s s"
  by (simp add: same_page_def)

lemma same_page_trans: "same_page a b \<Longrightarrow> same_page b c \<Longrightarrow> same_page a c"
  by (simp add: same_page_def)

lemma aria_only_refl [simp]: "aria_only s s"
  by (simp add: aria_only_def)

lemma aria_only_trans:
  assumes "aria_only a b" "aria_only b c"
  shows "aria_only a c"
proof -
  have "same_page a c" using assms by (auto simp: aria_only_def intro: same_page_trans)
  moreover have "activeElement c = activeElement a" using assms by (simp add: aria_only_def)
  moreover have "defaultPrevented a \<longrightarrow> defaultPrevented c"
    using assms by (simp add: aria_only_def)
  moreover have "same_but_aria (nodes a i) (nodes c i)" for i
    using assms same_but_aria_trans[of "nodes a i" "nodes b i" "nodes c i"]
    by (simp add: aria_only_def)
  ultimately show ?thesis by (simp add: aria_only_def)
qed

lemma class_only_refl [simp]: "class_only s s"
  by (simp add: class_only_def)

lemma class_only_trans:
  assumes "class_only a b" "class_only b c"
  shows "class_only a c"
proof -
  have "same_page a c" using assms by (auto simp: class_only_def intro: same_page_trans)
  moreover have "activeElement c = activeElement a" "menus c = menus a"
    "defaultPrevented c = defaultPrevented a"
    using assms by (simp_all add: class_only_def)
  moreover have "same_but_class (nodes a i) (nodes c i)" for i
    using assms same_but_class_trans[of "nodes a i" "nodes b i" "nodes c i"]
    by (simp add: class_only_def)
  ultimately show ?thesis by (simp add: class_only_def)
qed

lemma reflp_aria_only: "reflp aria_only"
  by (simp add: reflp_def)

lemma transp_aria_only: "transp aria_only"
  using aria_only_trans by (auto simp: transp_def)

lemma aria_only_set_attribute:
  "n = ''aria-label'' \<or> n = ''aria-expanded'' \<Longrightarrow> aria_only s (set_attribute b n v s)"
  by (simp add: aria_only_def same_page_def set_attribute_def same_but_aria_set_attr)

lemma aria_only_has_class: "aria_only s s' \<Longrightarrow> has_class s' c i = has_class s c i"
  by (simp add: aria_only_def has_class_def same_but_aria_contains)

lemma aria_only_expanded_class: "aria_only s s' \<Longrightarrow> expanded_class s' = expanded_class s"
  by (simp add: aria_only_def same_page_def expanded_class_def)

text \<open>Setting an attribute to a value of the configuration, and the label of a button.\<close>

lemma set_attribute_value_cases:
  assumes "set_attribute_value i n v s = (r, s')"
  shows "(\<exists>e. to_string v = Inl e \<and> r = Inl e \<and> s' = s)
         \<or> (\<exists>str. to_string v = Inr str \<and> r = Inr () \<and> s' = set_attribute i n str s)"
  using assms by (cases "to_string v") (auto simp: set_attribute_value_def)

lemma set_attribute_value_aria_only:
  "n = ''aria-label'' \<or> n = ''aria-expanded'' \<Longrightarrow> rel_ok aria_only (set_attribute_value i n v)"
  by (rule rel_okI) (auto dest!: set_attribute_value_cases intro: aria_only_set_attribute)

lemma update_label_cases:
  assumes "update_label b e L s = (r, s')"
  shows "s' = s \<or> (\<exists>str. r = Inr () \<and> s' = set_attribute b ''aria-label'' str s)"
  using assms
  by (auto simp: update_label_def returnA_def dest!: set_attribute_value_cases split: if_splits)

lemma update_label_aria_only: "rel_ok aria_only (update_label b e L)"
  unfolding update_label_def
  by (intro rel_ok_if set_attribute_value_aria_only rel_ok_returnA reflp_aria_only) simp_all

lemma update_label_string [simp]: "update_label b e (JStr l) = returnA ()"
  by (simp add: update_label_def)

lemma label_then_expanded_aria_only:
  "rel_ok aria_only
     (bindA (if c then update_label b e L else returnA ())
        (\<lambda>_. modify (set_attribute b ''aria-expanded'' v)))"
proof -
  have exp: "aria_only t (set_attribute b ''aria-expanded'' v t)" for t
    by (rule aria_only_set_attribute) simp
  show ?thesis
    by (intro rel_ok_bindA rel_ok_if transp_aria_only update_label_aria_only rel_ok_returnA
          reflp_aria_only rel_ok_modify exp)
qed

text \<open>\<^verbatim>\<open>changeButtonAttributes\<close> (1.0.0) changes \<^verbatim>\<open>aria\<close> attributes only.\<close>

lemma changeButtonAttributes_100_aria_only: "rel_ok aria_only (changeButtonAttributes_100 r)"
proof (rule rel_okI)
  fix s res s'
  assume a: "changeButtonAttributes_100 r s = (res, s')"
  note body = label_then_expanded_aria_only
  show "aria_only s s'"
  proof (cases r)
    case None
    with a show ?thesis by (simp add: changeButtonAttributes_100_def)
  next
    case (Some rr)
    show ?thesis
    proof (cases "querySelector matches_button rr s")
      case None
      with a Some show ?thesis by (simp add: changeButtonAttributes_100_def)
    next
      case (Some b)
      show ?thesis
      proof (cases rr)
        case (Elem m)
        with a \<open>r = Some rr\<close> Some show ?thesis
          by (simp add: changeButtonAttributes_100_def Let_def) (erule rel_okD[OF body])
      next
        case Document
        with a \<open>r = Some rr\<close> Some show ?thesis
          by (simp add: changeButtonAttributes_100_def)
      next
        case Window
        with a \<open>r = Some rr\<close> Some show ?thesis
          by (simp add: changeButtonAttributes_100_def)
      qed
    qed
  qed
qed

lemma changeButtonAttributes_node_100_aria_only:
  "rel_ok aria_only (changeButtonAttributes_node_100 n)"
  unfolding changeButtonAttributes_node_100_def by (rule changeButtonAttributes_100_aria_only)

lemma changeButtonAttributes_event_100_aria_only:
  "rel_ok aria_only (changeButtonAttributes_event_100 ev)"
  unfolding changeButtonAttributes_event_100_def
  by (rule rel_ok_state) (rule changeButtonAttributes_100_aria_only)


text \<open>
  Removing or adding a class on a list of elements: which elements carry which class
  afterwards, and that nothing else has changed.
\<close>

lemma forEach_remove_class:
  assumes "forEach xs (\<lambda>x. update_elem x (classList_remove c)) s = (Inr u, s')"
  shows "class_only s s'
         \<and> (\<forall>i d. has_class s' d i \<longleftrightarrow> has_class s d i \<and> \<not> (d = c \<and> i \<in> set xs))"
  using assms
proof (induction xs arbitrary: s)
  case Nil
  then show ?case by (simp add: class_only_def)
next
  case (Cons x xs)
  from Cons.prems obtain v s1 where
    hd: "update_elem x (classList_remove c) s = (Inr v, s1)"
    and tl: "forEach xs (\<lambda>x. update_elem x (classList_remove c)) s1 = (Inr u, s')"
    by (auto split: prod.splits sum.splits)
  from hd obtain e' where e': "classList_remove c (nodes s x) = Inr e'"
    and s1: "s1 = s\<lparr>nodes := (nodes s)(x := e')\<rparr>"
    by (auto simp: update_elem_Inr)
  have c1: "class_only s s1"
    using same_but_class_remove[OF e'] by (simp add: s1 class_only_def same_page_def)
  have h1: "has_class s1 d i \<longleftrightarrow> has_class s d i \<and> \<not> (d = c \<and> i = x)" for d i
    using classList_remove_contains[OF e'] by (auto simp: s1 has_class_def)
  from Cons.IH[OF tl] have c2: "class_only s1 s'"
    and h2: "\<And>i d. has_class s' d i \<longleftrightarrow> has_class s1 d i \<and> \<not> (d = c \<and> i \<in> set xs)"
    by simp_all
  have "class_only s s'"
    using c1 c2 by (rule class_only_trans)
  moreover have "has_class s' d i \<longleftrightarrow> has_class s d i \<and> \<not> (d = c \<and> i \<in> set (x # xs))" for d i
    using h1 h2 by auto
  ultimately show ?case by blast
qed

lemma forEach_add_class:
  assumes "forEach xs (\<lambda>x. update_elem x (classList_add c)) s = (Inr u, s')"
  shows "class_only s s'
         \<and> (\<forall>i d. has_class s' d i \<longleftrightarrow> has_class s d i \<or> (d = c \<and> i \<in> set xs))"
  using assms
proof (induction xs arbitrary: s)
  case Nil
  then show ?case by (simp add: class_only_def)
next
  case (Cons x xs)
  from Cons.prems obtain v s1 where
    hd: "update_elem x (classList_add c) s = (Inr v, s1)"
    and tl: "forEach xs (\<lambda>x. update_elem x (classList_add c)) s1 = (Inr u, s')"
    by (auto split: prod.splits sum.splits)
  from hd obtain e' where e': "classList_add c (nodes s x) = Inr e'"
    and s1: "s1 = s\<lparr>nodes := (nodes s)(x := e')\<rparr>"
    by (auto simp: update_elem_Inr)
  have c1: "class_only s s1"
    using same_but_class_add[OF e'] by (simp add: s1 class_only_def same_page_def)
  have h1: "has_class s1 d i \<longleftrightarrow> has_class s d i \<or> (d = c \<and> i = x)" for d i
    using classList_add_contains[OF e'] by (auto simp: s1 has_class_def)
  from Cons.IH[OF tl] have c2: "class_only s1 s'"
    and h2: "\<And>i d. has_class s' d i \<longleftrightarrow> has_class s1 d i \<or> (d = c \<and> i \<in> set xs)"
    by simp_all
  have "class_only s s'"
    using c1 c2 by (rule class_only_trans)
  moreover have "has_class s' d i \<longleftrightarrow> has_class s d i \<or> (d = c \<and> i \<in> set (x # xs))" for d i
    using h1 h2 by auto
  ultimately show ?case by blast
qed

section \<open>Siblings, menus and parents\<close>






lemma getMenus_cases:
  assumes "getMenus css s = (r, s')"
  shows "s' = s \<or> (\<exists>ms. r = Inr ms \<and> s' = s\<lparr>menus := ms\<rparr>)"
proof (cases "menus s = [] \<and> truthy (getOption (options s) [''menu_selector''])")
  case True
  show ?thesis
  proof (cases "querySelectorAll_value css (getOption (options s) [''menu_selector'']) Document s")
    case (Inl e)
    with assms True show ?thesis by (simp add: getMenus_def)
  next
    case (Inr ms)
    with assms True have "r = Inr ms \<and> s' = s\<lparr>menus := ms\<rparr>" by (auto simp: getMenus_def)
    then show ?thesis by blast
  qed
next
  case False
  with assms show ?thesis by (auto simp: getMenus_def)
qed

lemma getMenus_result:
  assumes "getMenus css s = (Inr ms, s')"
  shows "menus s' = ms \<and> (s' = s \<or> s' = s\<lparr>menus := ms\<rparr>)"
proof (cases "menus s = [] \<and> truthy (getOption (options s) [''menu_selector''])")
  case True
  show ?thesis
  proof (cases "querySelectorAll_value css (getOption (options s) [''menu_selector'']) Document s")
    case (Inl e)
    with assms True show ?thesis by (simp add: getMenus_def)
  next
    case (Inr ms')
    with assms True have "ms' = ms \<and> s' = s\<lparr>menus := ms\<rparr>" by (auto simp: getMenus_def)
    then show ?thesis by simp
  qed
next
  case False
  with assms show ?thesis by (auto simp: getMenus_def)
qed

lemma aria_only_menus: "aria_only s (s\<lparr>menus := ms\<rparr>)"
  by (simp add: aria_only_def same_page_def)

lemma getMenus_aria_only: "rel_ok aria_only (getMenus css)"
  by (rule rel_okI) (use getMenus_cases aria_only_menus in force)

lemma getParents_with_aria_only:
  assumes "rel_ok aria_only get_menus"
  shows "rel_ok aria_only (getParents_with get_menus arg)"
  unfolding getParents_with_def
  by (auto split: option.splits
        intro!: rel_ok_bindA transp_aria_only assms rel_ok_getAction reflp_aria_only)

lemma getParents_100_aria_only: "rel_ok aria_only (getParents_100 css arg)"
  unfolding getParents_100_def by (rule getParents_with_aria_only[OF getMenus_aria_only])

lemma isModeA_same: "isModeA m s = (r, s') \<Longrightarrow> s' = s \<and> r = isMode (options s) m"
  by (auto simp: isModeA_def getAction_def)

lemma class_only_has_aria:
  "class_only s s' \<Longrightarrow>
     getAttribute ''aria-expanded'' (nodes s' i) = getAttribute ''aria-expanded'' (nodes s i)
     \<and> getAttribute ''aria-label'' (nodes s' i) = getAttribute ''aria-label'' (nodes s i)"
  by (simp add: class_only_def same_but_class_aria)

lemma class_only_expanded_class: "class_only s s' \<Longrightarrow> expanded_class s' = expanded_class s"
  by (simp add: class_only_def same_page_def expanded_class_def)




lemma getArgA_Inr: "getArgA labels s = (Inr c, s') \<longleftrightarrow> getArg (options s) labels = Inr c \<and> s' = s"
  by (auto simp: getArgA_def getAction_def)

lemma getArgA_class:
  "getArgA [''expanded-class''] s = (Inr c, s') \<Longrightarrow> c = expanded_class_006 s \<and> s' = s"
  by (auto simp: getArgA_Inr expanded_class_006_def)

lemma getArgA_aria_only: "rel_ok aria_only (getArgA labels)"
  unfolding getArgA_def by (rule rel_ok_getAction[OF reflp_aria_only])

text \<open>\<^verbatim>\<open>changeButtonAttributes\<close> (0.0.6) changes \<^verbatim>\<open>aria\<close> attributes only.\<close>

lemma changeButtonAttributes_006_aria_only:
  "rel_ok aria_only (changeButtonAttributes_006 css r)"
proof -
  have last: "rel_ok aria_only (\<lambda>s.
       let isExpanded = classList_contains cls (nodes s m);
           buttonLabelAttr = JStr label
       in bindA (if not_nullish buttonLabelAttr
                 then update_label button isExpanded buttonLabelAttr
                 else returnA ())
            (\<lambda>_. modify (set_attribute button ''aria-expanded''
                            (if isExpanded then ''true'' else ''false''))) s)"
    for cls m label button
    by (rule rel_okI)
       (auto simp: Let_def bindA_def returnA_def modify_def intro: aria_only_set_attribute)
  have last': "rel_ok aria_only (\<lambda>s.
       let isExpanded = classList_contains cls (nodes s m)
       in bindA (update_label button isExpanded (JStr label))
            (\<lambda>_. modify (set_attribute button ''aria-expanded''
                            (if isExpanded then ''true'' else ''false''))) s)"
    for cls m label button
    by (rule rel_okI)
       (auto simp: Let_def bindA_def returnA_def modify_def intro: aria_only_set_attribute)
  show ?thesis
  proof (cases r)
    case None
    then show ?thesis
      by (simp add: changeButtonAttributes_006_def rel_ok_returnA[OF reflp_aria_only])
  next
    case (Some rr)
    show ?thesis
      unfolding changeButtonAttributes_006_def Some option.case
    proof (intro rel_ok_bindA transp_aria_only getArgA_aria_only)
      fix selector
      show "rel_ok aria_only (getAction (querySelectorAll css selector rr))"
        by (rule rel_ok_getAction[OF reflp_aria_only])
    next
      fix selector found
      show "rel_ok aria_only
         (case found of
            [] \<Rightarrow> returnA ()
          | button # _ \<Rightarrow>
              (case rr of
                 Elem m \<Rightarrow>
                   bindA (getArgA [''expanded-class'']) (\<lambda>cls.
                   bindA (getArgA [''button-attributes'', ''aria-label'']) (\<lambda>label s.
                     let isExpanded = classList_contains cls (nodes s m);
                         buttonLabelAttr = JStr label
                     in bindA (if not_nullish buttonLabelAttr
                               then update_label button isExpanded buttonLabelAttr
                               else returnA ())
                          (\<lambda>_. modify (set_attribute button ''aria-expanded''
                                          (if isExpanded then ''true'' else ''false''))) s))
               | _ \<Rightarrow> throwA TypeError))"
      proof (cases found)
        case Nil
        then show ?thesis by (simp add: rel_ok_returnA[OF reflp_aria_only])
      next
        case (Cons button rest)
        show ?thesis
          unfolding Cons list.case
          by (cases rr)
             (auto intro!: rel_ok_bindA transp_aria_only getArgA_aria_only last last'
                   rel_ok_throwA reflp_aria_only simp del: update_label_string)
      qed
    qed
  qed
qed

lemma changeButtonAttributes_event_006_aria_only:
  "rel_ok aria_only (changeButtonAttributes_event_006 css ev)"
  unfolding changeButtonAttributes_event_006_def
  by (rule rel_ok_state) (rule changeButtonAttributes_006_aria_only)

lemma changeButtonAttributes_node_006_aria_only:
  "rel_ok aria_only (changeButtonAttributes_node_006 css n)"
  unfolding changeButtonAttributes_node_006_def by (rule changeButtonAttributes_006_aria_only)


section \<open>The touch on a link\<close>

lemma rel_ok_mono: "rel_ok R m \<Longrightarrow> (\<And>s s'. R s s' \<Longrightarrow> R' s s') \<Longrightarrow> rel_ok R' m"
  by (simp add: rel_ok_def)

lemma quiet_refl [simp]: "quiet s s"
  by (simp add: quiet_def)

lemma quiet_trans: "quiet a b \<Longrightarrow> quiet b c \<Longrightarrow> quiet a c"
  by (auto simp: quiet_def intro: same_page_trans)

lemma reflp_quiet: "reflp quiet"
  by (simp add: reflp_def)

lemma transp_quiet: "transp quiet"
  using quiet_trans by (auto simp: transp_def)

lemma aria_only_quiet: "aria_only s s' \<Longrightarrow> quiet s s'"
  by (simp add: aria_only_def quiet_def)

lemma class_only_quiet: "class_only s s' \<Longrightarrow> quiet s s'"
  by (simp add: class_only_def quiet_def)

lemma update_elem_class_only:
  "f = classList_add c \<or> f = classList_remove c \<Longrightarrow> rel_ok class_only (update_elem i f)"
proof (rule rel_ok_update_elem)
  show "reflp class_only" by (simp add: reflp_def)
next
  fix s :: state and e'
  assume "f = classList_add c \<or> f = classList_remove c" "f (nodes s i) = Inr e'"
  then have "same_but_class (nodes s i) e'"
    using same_but_class_add same_but_class_remove by blast
  then show "class_only s (s\<lparr>nodes := (nodes s)(i := e')\<rparr>)"
    by (simp add: class_only_def same_page_def)
qed

lemma update_elem_class_quiet:
  "f = classList_add c \<or> f = classList_remove c \<Longrightarrow> rel_ok quiet (update_elem i f)"
  by (rule rel_ok_mono[OF update_elem_class_only]) (auto intro: class_only_quiet)

lemma getParents_100_quiet: "rel_ok quiet (getParents_100 css arg)"
  by (rule rel_ok_mono[OF getParents_100_aria_only]) (rule aria_only_quiet)

lemma changeButtonAttributes_event_100_quiet:
  "rel_ok quiet (changeButtonAttributes_event_100 ev)"
  by (rule rel_ok_mono[OF changeButtonAttributes_event_100_aria_only]) (rule aria_only_quiet)

lemma changeButtonAttributes_node_100_quiet:
  "rel_ok quiet (changeButtonAttributes_node_100 n)"
  by (rule rel_ok_mono[OF changeButtonAttributes_node_100_aria_only]) (rule aria_only_quiet)

lemma isModeA_quiet: "rel_ok quiet (isModeA m)"
  unfolding isModeA_def by (rule rel_ok_getAction[OF reflp_quiet])

lemma onFocus_100_step_quiet:
  "rel_ok quiet (\<lambda>s. update_elem menuItem
                (if b then classList_add (expanded_class s)
                 else classList_remove (expanded_class s)) s)"
proof (rule rel_okI)
  fix s :: state and r s'
  assume a: "update_elem menuItem
                (if b then classList_add (expanded_class s)
                 else classList_remove (expanded_class s)) s = (r, s')"
  have "rel_ok quiet (update_elem menuItem
                (if b then classList_add (expanded_class s)
                 else classList_remove (expanded_class s)))"
    by (rule update_elem_class_quiet[of _ "expanded_class s"]) simp
  then show "quiet s s'" using a by (rule rel_okD)
qed

lemma onFocus_100_quiet: "rel_ok quiet (onFocus_100 css ev)"
  unfolding onFocus_100_def
  by (intro rel_ok_bindA rel_ok_forEach rel_ok_if rel_ok_returnA
        transp_quiet reflp_quiet getParents_100_quiet isModeA_quiet
        changeButtonAttributes_event_100_quiet changeButtonAttributes_node_100_quiet
        onFocus_100_step_quiet)

lemma getContainers_aria_only: "rel_ok aria_only (getContainers css)"
  unfolding getContainers_def
proof (intro rel_ok_bindA transp_aria_only getArgA_aria_only)
  fix selector
  show "rel_ok aria_only (\<lambda>s.
       if menus s = [] \<and> selector \<noteq> [] then
         (case querySelectorAll css selector Document s of
            Inl e \<Rightarrow> (Inl e, s)
          | Inr ms \<Rightarrow> (Inr ms, s\<lparr>menus := ms\<rparr>))
       else (Inr (menus s), s))"
    by (rule rel_okI) (auto simp: aria_only_menus split: if_splits sum.splits)
qed

lemma getParents_006_aria_only: "rel_ok aria_only (getParents_006 css arg)"
  unfolding getParents_006_def by (rule getParents_with_aria_only[OF getContainers_aria_only])

lemma getParents_006_quiet: "rel_ok quiet (getParents_006 css arg)"
  by (rule rel_ok_mono[OF getParents_006_aria_only]) (rule aria_only_quiet)

lemma getArgA_quiet: "rel_ok quiet (getArgA labels)"
  unfolding getArgA_def by (rule rel_ok_getAction[OF reflp_quiet])

lemma changeButtonAttributes_event_006_quiet:
  "rel_ok quiet (changeButtonAttributes_event_006 css ev)"
  by (rule rel_ok_mono[OF changeButtonAttributes_event_006_aria_only]) (rule aria_only_quiet)

lemma update_elem_if_class_quiet:
  "rel_ok quiet (update_elem i (if b then classList_add c else classList_remove c))"
  by (rule update_elem_class_quiet[of _ c]) simp

lemma onFocus_006_quiet: "rel_ok quiet (onFocus_006 css ev)"
  unfolding onFocus_006_def
  by (intro rel_ok_bindA rel_ok_forEach
        transp_quiet reflp_quiet getParents_006_quiet getArgA_quiet
        changeButtonAttributes_event_006_quiet update_elem_if_class_quiet)

text \<open>
  \<^verbatim>\<open>focus()\<close> with listeners that keep the focus where it is: afterwards the element
  has the focus if it can take it.
\<close>

lemma dispatch_focus_quiet:
  assumes "\<And>ev. rel_ok quiet (onFocus ev)"
  shows "quiet s (dispatch_focus onFocus ty tgt with_path s)"
proof -
  have "quiet s (fold (\<lambda>l s'. snd (onFocus (focus_event ty tgt with_path s') s')) ls s)"
    for ls :: "listener list"
  proof (induction ls arbitrary: s)
    case Nil
    then show ?case by simp
  next
    case (Cons l ls)
    have "quiet s (snd (onFocus (focus_event ty tgt with_path s) s))"
      using assms by (metis rel_okD prod.collapse)
    with Cons.IH show ?case using quiet_trans by fastforce
  qed
  then show ?thesis by (simp add: dispatch_focus_def)
qed

lemma focus_elem_result:
  assumes "\<And>ev. rel_ok quiet (onFocus ev)"
  shows "same_page s (focus_elem onFocus with_path i s)
         \<and> (defaultPrevented s \<longrightarrow> defaultPrevented (focus_elem onFocus with_path i s))
         \<and> (i \<in> set (element_ids (shape s)) \<and> focusable (nodes s i)
               \<longrightarrow> activeElement (focus_elem onFocus with_path i s) = Some i)
         \<and> (\<not> (i \<in> set (element_ids (shape s)) \<and> focusable (nodes s i))
               \<longrightarrow> focus_elem onFocus with_path i s = s)"
proof (cases "i \<notin> set (element_ids (shape s)) \<or> \<not> focusable (nodes s i) \<or> activeElement s = Some i")
  case True
  then show ?thesis by (auto simp: focus_elem_def)
next
  case False
  define s1 where "s1 = (case activeElement s of
                     None \<Rightarrow> s
                   | Some old \<Rightarrow> dispatch_focus onFocus ''focusout'' old with_path s)"
  define s2 where "s2 = s1\<lparr>activeElement := Some i\<rparr>"
  define s3 where "s3 = dispatch_focus onFocus ''focusin'' i with_path s2"
  have r: "focus_elem onFocus with_path i s = s3"
    using False by (simp add: focus_elem_def s1_def s2_def s3_def)
  have q1: "quiet s s1"
    using dispatch_focus_quiet[OF assms] by (simp add: s1_def split: option.splits)
  have q3: "quiet s2 s3"
    unfolding s3_def by (rule dispatch_focus_quiet[OF assms])
  have "same_page s s3" using q1 q3 by (simp add: quiet_def same_page_def s2_def)
  moreover have "defaultPrevented s \<longrightarrow> defaultPrevented s3"
    using q1 q3 by (simp add: quiet_def s2_def)
  moreover have "activeElement s3 = Some i" using q3 by (simp add: quiet_def s2_def)
  ultimately show ?thesis using False r by simp
qed

lemma ancestors_in_ids: "ancestors t i = Some anc \<Longrightarrow> i \<in> set (element_ids t)"
  unfolding ancestors_def element_ids_def by (metis map_of_SomeD set_zip_leftD zip_map_fst_snd)

lemma parentNode_in_ids: "parentNode t i = Some r \<Longrightarrow> i \<in> set (element_ids t)"
  by (auto simp: parentNode_def split: option.splits dest: ancestors_in_ids)

lemma has_class_valid_token: "has_class s c i \<Longrightarrow> valid_token c"
  using class_tokens_valid by (auto simp: has_class_def classList_contains_def)

text \<open>
  \<^verbatim>\<open>getArg\<close> with one label throws exactly when the stored object has an own
  property \<^verbatim>\<open>hasOwnProperty\<close>.
\<close>

lemma getArg_single:
  "\<not> has_own args ''hasOwnProperty'' \<Longrightarrow> \<exists>c. getArg args [l] = Inr c"
  by (cases "has_own args l"; cases "get_prop (JObj args) l") (simp_all add: getArg_def)

lemma getArg_single_Inr: "getArg args [l] = Inr c \<Longrightarrow> \<not> has_own args ''hasOwnProperty''"
  by (auto simp: getArg_def split: if_splits)

lemma getArg_single_other:
  "getArg args [l] = Inr c \<Longrightarrow> \<exists>c'. getArg args [l'] = Inr c'"
  using getArg_single getArg_single_Inr by blast

lemma getArgA_expanded_class:
  assumes "getArg (options s) [l] = Inr c"
  shows "getArgA [''expanded-class''] s = (Inr (expanded_class_006 s), s)"
proof -
  from getArg_single_other[OF assms] obtain c' where
    "getArg (options s) [''expanded-class''] = Inr c'" by blast
  then show ?thesis by (simp add: getArgA_def getAction_def expanded_class_006_def)
qed


section \<open>The Escape key\<close>

lemma forEach_inv:
  assumes "forEach xs f s = (Inr u, s')"
    and "I s"
    and "\<And>x a b v. x \<in> set xs \<Longrightarrow> I a \<Longrightarrow> f x a = (Inr v, b) \<Longrightarrow> I b"
  shows "I s'"
  using forEach_post[where Q = "\<lambda>x s. True" and I = I, OF assms(1) assms(2)] assms(3)
  by blast

lemma update_elem_remove_Inr:
  assumes "update_elem n (classList_remove c) a = (Inr u, a1)"
  shows "class_only a a1 \<and> (\<forall>i d. has_class a1 d i \<longleftrightarrow> has_class a d i \<and> \<not> (d = c \<and> i = n))"
proof -
  have "forEach [n] (\<lambda>x. update_elem x (classList_remove c)) a = (Inr u, a1)"
    using assms by simp
  from forEach_remove_class[OF this] show ?thesis by simp
qed

lemma select_class_Inr:
  "select_class c r s = Inr items \<Longrightarrow>
     css_identifier c \<and> set items = {i \<in> set (scope_ids (shape s) r). has_class s c i}"
  by (auto simp: select_class_def select_ids_def has_class_def split: if_splits)

text \<open>
  The two loops of the Escape handlers, for any statement \<open>after\<close> run on a menu item
  once its class is removed that changes \<^verbatim>\<open>aria\<close> attributes only and keeps the menus:
  when they have run to their end, no element below one of the menus carries the class.
\<close>

lemma esc_loop_classes:
  fixes after :: "nat \<Rightarrow> unit action"
  assumes after: "\<And>n a r b. after n a = (r, b) \<Longrightarrow> aria_only a b \<and> menus b = menus a"
    and run: "forEach ms (\<lambda>menu.
                bindA (getAction (select_class c (Elem menu))) (\<lambda>items.
                  forEach items (\<lambda>menuItem.
                    bindA (update_elem menuItem (classList_remove c)) (\<lambda>_.
                      after menuItem)))) s = (Inr (), s')"
  shows "same_page s s' \<and> menus s' = menus s
         \<and> (\<forall>i. has_class s' c i \<longrightarrow> has_class s c i)
         \<and> (\<forall>menu\<in>set ms. \<forall>i\<in>set (descendants (shape s) menu). \<not> has_class s' c i)"
proof -
  define G where "G = (\<lambda>menuItem.
                    bindA (update_elem menuItem (classList_remove c)) (\<lambda>_.
                      after menuItem))"
  define F where "F = (\<lambda>menu.
                bindA (getAction (select_class c (Elem menu))) (\<lambda>items. forEach items G))"
  define I where "I a \<longleftrightarrow> same_page s a \<and> menus a = menus s
                    \<and> (\<forall>i. has_class a c i \<longrightarrow> has_class s c i)" for a
  have stepG: "same_page a b \<and> menus b = menus a
               \<and> (\<forall>i. has_class b c i \<longleftrightarrow> has_class a c i \<and> i \<noteq> n)"
    if "G n a = (Inr v, b)" for n a b v
  proof -
    from that obtain a1 where u: "update_elem n (classList_remove c) a = (Inr (), a1)"
      and af: "after n a1 = (Inr v, b)"
      by (auto simp: G_def bindA_Inr_iff)
    from update_elem_remove_Inr[OF u] have c1: "class_only a a1"
      and h1: "\<And>i. has_class a1 c i \<longleftrightarrow> has_class a c i \<and> i \<noteq> n" by simp_all
    from after[OF af] have a2: "aria_only a1 b" and m2: "menus b = menus a1" by simp_all
    have "same_page a b"
      using c1 a2 by (auto simp: class_only_def aria_only_def intro: same_page_trans)
    moreover have "menus b = menus a" using c1 m2 by (simp add: class_only_def)
    moreover have "has_class b c i \<longleftrightarrow> has_class a c i \<and> i \<noteq> n" for i
      using aria_only_has_class[OF a2] h1 by simp
    ultimately show ?thesis by simp
  qed
  have stepF: "same_page a b \<and> menus b = menus a
               \<and> (\<forall>i. has_class b c i \<longrightarrow> has_class a c i)
               \<and> (\<forall>i\<in>set (descendants (shape a) menu). \<not> has_class b c i)"
    if "F menu a = (Inr v, b)" for menu a b v
  proof -
    from that obtain items where sel: "select_class c (Elem menu) a = Inr items"
      and loop: "forEach items G a = (Inr v, b)"
      by (auto simp: F_def bindA_Inr_iff getAction_Inr)
    from select_class_Inr[OF sel]
    have items: "set items = {i \<in> set (descendants (shape a) menu). has_class a c i}"
      by (simp add: scope_ids_def)
    define J where "J x \<longleftrightarrow> same_page a x \<and> menus x = menus a
                        \<and> (\<forall>i. has_class x c i \<longrightarrow> has_class a c i)" for x
    have "J b \<and> (\<forall>n\<in>set items. \<not> has_class b c n)"
    proof (rule forEach_post[OF loop])
      show "J a" by (simp add: J_def)
    next
      fix n x y w
      assume "n \<in> set items" "J x" "G n x = (Inr w, y)"
      then show "J y \<and> \<not> has_class y c n"
        using stepG[of n x w y] by (auto simp: J_def intro: same_page_trans)
    next
      fix n k x y w
      assume "k \<in> set items" "J x" "\<not> has_class x c n" "G k x = (Inr w, y)"
      then show "\<not> has_class y c n" using stepG[of k x w y] by simp
    qed
    then show ?thesis using items by (auto simp: J_def)
  qed
  have "I s' \<and> (\<forall>menu\<in>set ms. \<forall>i\<in>set (descendants (shape s) menu). \<not> has_class s' c i)"
  proof (rule forEach_post[where f = F])
    show "forEach ms F s = (Inr (), s')" using run by (simp add: F_def G_def)
    show "I s" by (simp add: I_def)
  next
    fix menu a b v
    assume "menu \<in> set ms" "I a" "F menu a = (Inr v, b)"
    then show "I b \<and> (\<forall>i\<in>set (descendants (shape s) menu). \<not> has_class b c i)"
      using stepF[of menu a v b] by (auto simp: I_def same_page_def)
  next
    fix menu k a b v
    assume "k \<in> set ms" "I a" "\<forall>i\<in>set (descendants (shape s) menu). \<not> has_class a c i"
      "F k a = (Inr v, b)"
    then show "\<forall>i\<in>set (descendants (shape s) menu). \<not> has_class b c i"
      using stepF[of k a v b] by blast
  qed
  then show ?thesis by (simp add: I_def)
qed

section \<open>The click on a toggle button, whatever follows\<close>










section \<open>The touch on a link\<close>

text \<open>
  C5 at two inputs where the handlers do not do what the claim says. In 0.0.6, on the
  page above with the first menu item (the element 2) collapsed and its link (the
  element 3) the active element, the state a touch on the link followed by the Escape key
  leaves: \<^verbatim>\<open>onTouch\<close> prevents the default action and calls \<^verbatim>\<open>focus()\<close> on the
  link, which has the focus already, so no \<^verbatim>\<open>focusin\<close> is dispatched and the item
  stays collapsed. In both versions, for a touch whose target is the element inside the
  link of an expanded item, the handler takes the link for the menu item: the default
  action is prevented and the item keeps the class.
\<close>

theorem touch_not_expanding:
  "onTouch css_demo (mouse_event ''touchstart'' 3)
     ((ready_006 (menu_item False) button_collapsed (menu_item False) button_collapsed)
        \<lparr>activeElement := Some 3\<rparr>)
   = (Inr (), (ready_006 (menu_item False) button_collapsed (menu_item False) button_collapsed)
                 \<lparr>activeElement := Some 3, defaultPrevented := True\<rparr>)
   \<and> \<not> has_class
         ((ready_006 (menu_item False) button_collapsed (menu_item False) button_collapsed)
            \<lparr>activeElement := Some 3, defaultPrevented := True\<rparr>)
         ''has-expanded-sub-menu'' 2
   \<and> fst (onTouch css_demo (mouse_event ''touchstart'' 3) (link_with_span default_args)) = Inr ()
   \<and> defaultPrevented (state_after (onTouch css_demo (mouse_event ''touchstart'' 3))
                          (link_with_span default_args))
   \<and> has_class (state_after (onTouch css_demo (mouse_event ''touchstart'' 3))
                   (link_with_span default_args)) ''has-expanded-sub-menu'' 1
   \<and> fst (onTouchLink css_demo (mouse_event ''touchstart'' 3) (link_with_span default_options))
       = Inr ()
   \<and> defaultPrevented (state_after (onTouchLink css_demo (mouse_event ''touchstart'' 3))
                          (link_with_span default_options))
   \<and> has_class (state_after (onTouchLink css_demo (mouse_event ''touchstart'' 3))
                   (link_with_span default_options)) ''has-expanded-sub-menu'' 1"
proof -
  define s where "s = ready_006 (menu_item False) button_collapsed (menu_item False) button_collapsed"
  have p: "parentNode (shape (s\<lparr>activeElement := Some 3\<rparr>)) 3 = Some (Elem 2)"
    unfolding s_def by code_simp
  have g: "getArgA [''expanded-class''] (s\<lparr>activeElement := Some 3\<rparr>)
             = (Inr ''has-expanded-sub-menu'', s\<lparr>activeElement := Some 3\<rparr>)"
    unfolding s_def getArgA_def getAction_def by (simp add: ready_006_def) code_simp
  have c: "\<not> classList_contains ''has-expanded-sub-menu'' (nodes s 2)
           \<and> 3 \<in> set (element_ids (shape s)) \<and> focusable (nodes s 3)"
    unfolding s_def by code_simp
  have a: "onTouch css_demo (mouse_event ''touchstart'' 3) (s\<lparr>activeElement := Some 3\<rparr>)
           = (Inr (), s\<lparr>activeElement := Some 3, defaultPrevented := True\<rparr>)"
    using p g c
    by (simp add: onTouch_def Let_def mouse_event_def bindA_def modify_def focus_elem_def)
  have b: "\<not> has_class (s\<lparr>activeElement := Some 3, defaultPrevented := True\<rparr>)
               ''has-expanded-sub-menu'' 2"
    using c by (simp add: has_class_def)
  have d: "(case onTouch css_demo (mouse_event ''touchstart'' 3) (link_with_span default_args) of
              (r, t) \<Rightarrow> (r, defaultPrevented t, has_class t ''has-expanded-sub-menu'' 1))
           = (Inr (), True, True)"
    by code_simp
  have e: "(case onTouchLink css_demo (mouse_event ''touchstart'' 3)
                   (link_with_span default_options) of
              (r, t) \<Rightarrow> (r, defaultPrevented t, has_class t ''has-expanded-sub-menu'' 1))
           = (Inr (), True, True)"
    by code_simp
  from a b d e show ?thesis
    unfolding s_def by (simp add: state_after_def split: prod.splits)
qed

section \<open>\<^verbatim>\<open>init\<close> without menus, without a class, without child menus\<close>

lemma querySelectorAll_script_fields [simp]:
  "querySelectorAll css sel r (s\<lparr>options := opts, menus := ms\<rparr>) = querySelectorAll css sel r s"
  by (simp add: querySelectorAll_def split: option.splits)

lemma querySelectorAll_value_script_fields [simp]:
  "querySelectorAll_value css v r (s\<lparr>options := opts, menus := ms\<rparr>)
     = querySelectorAll_value css v r s"
  by (simp add: querySelectorAll_value_def split: sum.splits)

lemma init_100_no_menu:
  assumes opts: "setOptions config = Inr opts"
    and none: "\<not> truthy (getOption opts [''menu_selector''])
               \<or> querySelectorAll_value css (getOption opts [''menu_selector'']) Document s
                    = Inr []"
  shows "init_100 css config s = (Inr (), s\<lparr>options := opts, menus := []\<rparr>)"
proof -
  define s0 where "s0 = s\<lparr>options := opts, menus := []\<rparr>"
  have q: "querySelectorAll_value css v Document s0 = querySelectorAll_value css v Document s"
    for v
    by (simp add: s0_def)
  have "s0\<lparr>menus := []\<rparr> = s0" by (simp add: s0_def)
  then have g: "getMenus css s0 = (Inr [], s0)"
    using none by (auto simp: getMenus_def Let_def q) (simp_all add: s0_def)
  show ?thesis
    using opts g by (simp add: init_100_def bindA_def getAction_def returnA_def s0_def)
qed

lemma init_100_no_class:
  assumes opts: "setOptions config = Inr opts"
    and none: "\<not> truthy (getOption opts [''expanded_class''])"
    and run: "init_100 css config s = (r, s')"
  shows "shape s' = shape s \<and> nodes s' = nodes s \<and> listeners s' = listeners s
         \<and> activeElement s' = activeElement s
         \<and> ((\<exists>sel. to_string (getOption opts [''menu_selector'']) = Inr sel \<and> css sel \<noteq> None) \<longrightarrow> r = Inr ())"
proof -
  define s0 where "s0 = s\<lparr>options := opts, menus := []\<rparr>"
  obtain r1 s1 where g: "getMenus css s0 = (r1, s1)" by (cases "getMenus css s0")
  from getMenus_cases[OF g] have s1: "s1 = s0 \<or> (\<exists>ms. r1 = Inr ms \<and> s1 = s0\<lparr>menus := ms\<rparr>)" .
  have o1: "options s1 = opts" using s1 by (auto simp: s0_def)
  have fr: "shape s1 = shape s \<and> nodes s1 = nodes s \<and> listeners s1 = listeners s
            \<and> activeElement s1 = activeElement s"
    using s1 by (auto simp: s0_def)
  have res: "(r, s') = (case r1 of Inl e \<Rightarrow> (Inl e, s1) | Inr ms \<Rightarrow> (Inr (), s1))"
    using run opts g none o1
    by (simp add: init_100_def bindA_def getAction_def returnA_def s0_def[symmetric]
          split: sum.splits)
  have ok: "r1 = Inl e \<longrightarrow>
            \<not> (\<exists>sel. to_string (getOption opts [''menu_selector'']) = Inr sel \<and> css sel \<noteq> None)"
    for e
    using g
    by (auto simp: getMenus_def Let_def querySelectorAll_value_def querySelectorAll_def s0_def
          split: if_splits option.splits sum.splits)
  show ?thesis
  proof (cases r1)
    case (Inl e)
    with res fr ok[of e] show ?thesis by auto
  next
    case (Inr ms)
    with res fr show ?thesis by auto
  qed
qed

lemma init_menu_100_no_child:
  assumes "querySelectorAll_value css (getOption (options s) [''child_menu_selector''])
             (Elem menu) s = Inr []"
  shows "init_menu_100 css menu s = (Inr (), s)"
  using assms by (simp add: init_menu_100_def bindA_def getAction_def returnA_def)

lemma getContainers_none:
  assumes "getArg (options s) [''menu-selector''] = Inr sel"
    and "menus s = []"
    and "sel = [] \<or> querySelectorAll css sel Document s = Inr []"
  shows "getContainers css s = (Inr [], s)"
proof -
  have "s\<lparr>menus := []\<rparr> = s" using assms(2) by simp
  then show ?thesis
    using assms by (auto simp: getContainers_def bindA_def getArgA_def getAction_def)
qed

lemma init_006_no_menu:
  assumes args: "setArgs config = Inr args"
    and sel: "getArg args [''menu-selector''] = Inr sel"
    and none: "sel = [] \<or> querySelectorAll css sel Document s = Inr []"
  shows "init_006 css config s = (Inr (), s\<lparr>options := args, menus := []\<rparr>)"
proof -
  define s0 where "s0 = s\<lparr>options := args, menus := []\<rparr>"
  have "getContainers css s0 = (Inr [], s0)"
    by (rule getContainers_none[where sel = sel]) (use sel none in \<open>simp_all add: s0_def\<close>)
  moreover have "getArgA [''expanded-class''] s0 = (Inr (expanded_class_006 s0), s0)"
    by (rule getArgA_expanded_class[where l = "''menu-selector''" and c = sel])
       (simp add: s0_def sel)
  ultimately show ?thesis
    using args
    by (simp add: init_006_def bindA_def returnA_def s0_def[symmetric])
qed

lemma getContainers_cases:
  assumes "getContainers css s = (r, s')"
  shows "s' = s \<or> (\<exists>ms. r = Inr ms \<and> s' = s\<lparr>menus := ms\<rparr>)"
proof (cases "getArg (options s) [''menu-selector'']")
  case (Inl e)
  with assms show ?thesis
    by (simp add: getContainers_def bindA_def getArgA_def getAction_def)
next
  case (Inr sel)
  note sel = this
  show ?thesis
  proof (cases "menus s = [] \<and> sel \<noteq> []")
    case True
    show ?thesis
    proof (cases "querySelectorAll css sel Document s")
      case (Inl e)
      with assms True sel show ?thesis
        by (simp add: getContainers_def bindA_def getArgA_def getAction_def)
    next
      case (Inr ms)
      with assms True sel have "r = Inr ms \<and> s' = s\<lparr>menus := ms\<rparr>"
        by (auto simp: getContainers_def bindA_def getArgA_def getAction_def)
      then show ?thesis by blast
    qed
  next
    case False
    with assms sel show ?thesis
      by (auto simp: getContainers_def bindA_def getArgA_def getAction_def)
  qed
qed

lemma init_006_no_class:
  assumes args: "setArgs config = Inr args"
    and none: "getArg args [''expanded-class''] = Inr []"
    and sel: "getArg args [''menu-selector''] = Inr sel"
    and run: "init_006 css config s = (r, s')"
  shows "shape s' = shape s \<and> nodes s' = nodes s \<and> listeners s' = listeners s
         \<and> activeElement s' = activeElement s
         \<and> (css sel \<noteq> None \<longrightarrow> r = Inr ())"
proof -
  define s0 where "s0 = s\<lparr>options := args, menus := []\<rparr>"
  obtain r1 s1 where g: "getContainers css s0 = (r1, s1)" by (cases "getContainers css s0")
  from getContainers_cases[OF g]
  have s1: "s1 = s0 \<or> (\<exists>ms. r1 = Inr ms \<and> s1 = s0\<lparr>menus := ms\<rparr>)" .
  have o1: "options s1 = args" using s1 by (auto simp: s0_def)
  have c1: "expanded_class_006 s1 = []" using none o1 by (simp add: expanded_class_006_def)
  have fr: "shape s1 = shape s \<and> nodes s1 = nodes s \<and> listeners s1 = listeners s
            \<and> activeElement s1 = activeElement s"
    using s1 by (auto simp: s0_def)
  have ge: "getArgA [''expanded-class''] s1 = (Inr [], s1)"
    using none o1 by (simp add: getArgA_def getAction_def)
  have res: "(r, s') = (case r1 of Inl e \<Rightarrow> (Inl e, s1) | Inr ms \<Rightarrow> (Inr (), s1))"
    using run args g ge
    by (simp add: init_006_def bindA_def returnA_def s0_def[symmetric]
          split: sum.splits)
  have ok: "r1 = Inl e \<longrightarrow> css sel = None" for e
    using g sel
    by (auto simp: getContainers_def bindA_def getArgA_def getAction_def querySelectorAll_def
          s0_def split: if_splits option.splits)
  show ?thesis
  proof (cases r1)
    case (Inl e)
    with res fr ok[of e] show ?thesis by auto
  next
    case (Inr ms)
    with res fr show ?thesis by auto
  qed
qed

lemma init_menu_006_no_child:
  assumes "getArg (options s) [''child-menu-selector''] = Inr sel"
    and "querySelectorAll css sel (Elem menu) s = Inr []"
  shows "init_menu_006 css menu s = (Inr (), s)"
  using assms by (simp add: init_menu_006_def bindA_def getArgA_def getAction_def returnA_def)

text \<open>
  C7. \<^verbatim>\<open>init\<close> of 1.0.0 with options that \<^verbatim>\<open>setOptions\<close> accepts, and \<^verbatim>\<open>init\<close>
  of 0.0.6 with options that \<^verbatim>\<open>setArgs\<close> accepts. When the menu selector is empty or
  selects no element of the document, \<^verbatim>\<open>init\<close> returns and has set nothing but the two
  fields of the script, the options and the empty list of menus. When the expanded class
  is empty, the tree, the elements, the listeners and the focus are what they were, and
  \<^verbatim>\<open>init\<close> returns if the browser accepts the menu selector. For a menu below which the
  child menu selector selects no element, the body of the loop over the menus returns
  and leaves the state as it is.
\<close>

theorem init_is_noop:
  "(setOptions config = Inr opts \<longrightarrow>
      ((\<not> truthy (getOption opts [''menu_selector''])
        \<or> querySelectorAll_value css (getOption opts [''menu_selector'']) Document s = Inr [])
         \<longrightarrow> init_100 css config s = (Inr (), s\<lparr>options := opts, menus := []\<rparr>))
      \<and> (\<not> truthy (getOption opts [''expanded_class'']) \<and> init_100 css config s = (r, s')
         \<longrightarrow> shape s' = shape s \<and> nodes s' = nodes s \<and> listeners s' = listeners s
             \<and> activeElement s' = activeElement s
             \<and> ((\<exists>sel. to_string (getOption opts [''menu_selector'']) = Inr sel \<and> css sel \<noteq> None) \<longrightarrow> r = Inr ())))
   \<and> (querySelectorAll_value css (getOption (options s) [''child_menu_selector''])
         (Elem menu) s = Inr []
       \<longrightarrow> init_menu_100 css menu s = (Inr (), s))
   \<and> (setArgs config = Inr args \<and> getArg args [''menu-selector''] = Inr sel \<longrightarrow>
      ((sel = [] \<or> querySelectorAll css sel Document s = Inr [])
         \<longrightarrow> init_006 css config s = (Inr (), s\<lparr>options := args, menus := []\<rparr>))
      \<and> (getArg args [''expanded-class''] = Inr [] \<and> init_006 css config s = (r, s')
         \<longrightarrow> shape s' = shape s \<and> nodes s' = nodes s \<and> listeners s' = listeners s
             \<and> activeElement s' = activeElement s
             \<and> (css sel \<noteq> None \<longrightarrow> r = Inr ())))
   \<and> (getArg (options s) [''child-menu-selector''] = Inr csel
       \<and> querySelectorAll css csel (Elem menu) s = Inr []
       \<longrightarrow> init_menu_006 css menu s = (Inr (), s))"
proof (intro conjI impI)
  assume o: "setOptions config = Inr opts"
    and n: "\<not> truthy (getOption opts [''menu_selector''])
        \<or> querySelectorAll_value css (getOption opts [''menu_selector'']) Document s = Inr []"
  show "init_100 css config s = (Inr (), s\<lparr>options := opts, menus := []\<rparr>)"
    using o n by (rule init_100_no_menu)
next
  assume o: "setOptions config = Inr opts"
    and h: "\<not> truthy (getOption opts [''expanded_class'']) \<and> init_100 css config s = (r, s')"
  note r = init_100_no_class[OF o conjunct1[OF h] conjunct2[OF h]]
  show "shape s' = shape s" "nodes s' = nodes s" "listeners s' = listeners s"
    "activeElement s' = activeElement s"
    using r by simp_all
  assume "(\<exists>sel. to_string (getOption opts [''menu_selector'']) = Inr sel \<and> css sel \<noteq> None)"
  with r show "r = Inr ()" by simp
next
  assume "querySelectorAll_value css (getOption (options s) [''child_menu_selector''])
         (Elem menu) s = Inr []"
  then show "init_menu_100 css menu s = (Inr (), s)" by (rule init_menu_100_no_child)
next
  assume a: "setArgs config = Inr args \<and> getArg args [''menu-selector''] = Inr sel"
    and n: "sel = [] \<or> querySelectorAll css sel Document s = Inr []"
  show "init_006 css config s = (Inr (), s\<lparr>options := args, menus := []\<rparr>)"
    using conjunct1[OF a] conjunct2[OF a] n by (rule init_006_no_menu)
next
  assume a: "setArgs config = Inr args \<and> getArg args [''menu-selector''] = Inr sel"
    and h: "getArg args [''expanded-class''] = Inr [] \<and> init_006 css config s = (r, s')"
  note r = init_006_no_class[OF conjunct1[OF a] conjunct1[OF h] conjunct2[OF a] conjunct2[OF h]]
  show "shape s' = shape s" "nodes s' = nodes s" "listeners s' = listeners s"
    "activeElement s' = activeElement s"
    using r by simp_all
  assume "css sel \<noteq> None"
  with r show "r = Inr ()" by simp
next
  assume "getArg (options s) [''child-menu-selector''] = Inr csel
       \<and> querySelectorAll css csel (Elem menu) s = Inr []"
  then show "init_menu_006 css menu s = (Inr (), s)"
    using init_menu_006_no_child by blast
qed

text \<open>
  The theorem on the page above, in both versions: with a menu selector that selects no
  element (the page has no button), with an expanded class that is empty once sanitised,
  and, for the menu of the page (the element 1), with a child menu selector that selects
  nothing below it.
\<close>

theorem init_is_noop_witness:
  "init_100 css_demo [(''menu_selector'', JStr ''button[aria-expanded]'')] page
     = (Inr (), page\<lparr>options := set_prop ''menu_selector'' (JStr ''button[aria-expanded]'')
                                    default_options,
                      menus := []\<rparr>)
   \<and> fst (init_100 css_demo [(''expanded_class'', JStr ''!'')] page) = Inr ()
   \<and> shape (state_after (init_100 css_demo [(''expanded_class'', JStr ''!'')]) page) = shape page
   \<and> nodes (state_after (init_100 css_demo [(''expanded_class'', JStr ''!'')]) page) = page_nodes
   \<and> listeners (state_after (init_100 css_demo [(''expanded_class'', JStr ''!'')]) page) = []
   \<and> init_menu_100 css_demo 1
        (page\<lparr>options := set_prop ''child_menu_selector'' (JStr ''button[aria-expanded]'')
                             default_options\<rparr>)
       = (Inr (), page\<lparr>options := set_prop ''child_menu_selector'' (JStr ''button[aria-expanded]'')
                                      default_options\<rparr>)
   \<and> init_006 css_demo [(''menu-selector'', JStr ''button[aria-expanded]'')] page
     = (Inr (), page\<lparr>options := set_prop ''menu-selector'' (JStr ''button[aria-expanded]'')
                                    default_args,
                      menus := []\<rparr>)
   \<and> fst (init_006 css_demo [(''expanded-class'', JStr ''!'')] page) = Inr ()
   \<and> shape (state_after (init_006 css_demo [(''expanded-class'', JStr ''!'')]) page) = shape page
   \<and> nodes (state_after (init_006 css_demo [(''expanded-class'', JStr ''!'')]) page) = page_nodes
   \<and> listeners (state_after (init_006 css_demo [(''expanded-class'', JStr ''!'')]) page) = []
   \<and> init_menu_006 css_demo 1
        (page\<lparr>options := set_prop ''child-menu-selector'' (JStr ''button[aria-expanded]'')
                             default_args\<rparr>)
       = (Inr (), page\<lparr>options := set_prop ''child-menu-selector'' (JStr ''button[aria-expanded]'')
                                      default_args\<rparr>)"
proof -
  define b where "b = ''button[aria-expanded]''"
  define c1 where "c1 = [(''menu_selector'', JStr b)]"
  define c2 where "c2 = [(''expanded_class'', JStr ''!'')]"
  define o1 where "o1 = set_prop ''menu_selector'' (JStr b) default_options"
  define o2 where "o2 = set_prop ''expanded_class'' (JStr []) default_options"
  define o3 where "o3 = set_prop ''child_menu_selector'' (JStr b) default_options"
  define d1 where "d1 = [(''menu-selector'', JStr b)]"
  define d2 where "d2 = [(''expanded-class'', JStr ''!'')]"
  define a1 where "a1 = set_prop ''menu-selector'' (JStr b) default_args"
  define a2 where "a2 = set_prop ''expanded-class'' (JStr []) default_args"
  define a3 where "a3 = set_prop ''child-menu-selector'' (JStr b) default_args"
  have pg: "listeners page = []" "nodes page = page_nodes" by (simp_all add: page_def)
  have cb: "css_demo b \<noteq> None" by (simp add: css_demo_def b_def)
  have so: "setOptions c1 = Inr o1 \<and> setOptions c2 = Inr o2"
    unfolding c1_def c2_def o1_def o2_def b_def by code_simp
  have sa: "setArgs d1 = Inr a1 \<and> setArgs d2 = Inr a2"
    unfolding d1_def d2_def a1_def a2_def b_def by code_simp
  have g1: "to_string (getOption o1 [''menu_selector'']) = Inr b
            \<and> \<not> truthy (getOption o2 [''expanded_class''])
            \<and> to_string (getOption o2 [''menu_selector'']) = Inr ''nav .menu''
            \<and> to_string (getOption o3 [''child_menu_selector'']) = Inr b"
    unfolding o1_def o2_def o3_def b_def by code_simp
  have g6: "getArg a1 [''menu-selector''] = Inr b
            \<and> getArg a2 [''expanded-class''] = Inr []
            \<and> getArg a2 [''menu-selector''] = Inr ''.toggle-sub-menus''
            \<and> getArg a3 [''child-menu-selector''] = Inr b"
    unfolding a1_def a2_def a3_def b_def by code_simp
  have cm: "css_demo ''nav .menu'' \<noteq> None" "css_demo ''.toggle-sub-menus'' \<noteq> None"
    by (simp_all add: css_demo_def)
  have q: "querySelectorAll css_demo b Document page = Inr []
           \<and> querySelectorAll css_demo b (Elem 1) page = Inr []"
    unfolding b_def by code_simp
  have q': "querySelectorAll css_demo b (Elem 1) (page\<lparr>options := x\<rparr>) = Inr []" for x
    using q by (simp add: querySelectorAll_def split: option.splits)
  have run: "m page = (fst (m page), state_after m page)" for m :: "unit action"
    by (simp add: state_after_def)
  have so1: "setOptions c1 = Inr o1" and so2: "setOptions c2 = Inr o2" using so by simp_all
  have sa1: "setArgs d1 = Inr a1" and sa2: "setArgs d2 = Inr a2" using sa by simp_all
  have q1: "querySelectorAll_value css_demo (getOption o1 [''menu_selector'']) Document page
              = Inr []"
    using g1 q by (simp add: querySelectorAll_value_def)
  have t1: "init_100 css_demo c1 page = (Inr (), page\<lparr>options := o1, menus := []\<rparr>)"
    using init_is_noop[where config = c1 and opts = o1 and css = css_demo and s = page,
            THEN conjunct1, THEN mp, OF so1, THEN conjunct1, THEN mp, OF disjI2, OF q1] .
  have n2: "\<not> truthy (getOption o2 [''expanded_class''])" using g1 by simp
  have c2': "\<exists>sel. to_string (getOption o2 [''menu_selector'']) = Inr sel \<and> css_demo sel \<noteq> None"
    using g1 cm by simp
  note r2 = init_is_noop[where config = c2 and opts = o2 and css = css_demo and s = page
            and r = "fst (init_100 css_demo c2 page)"
            and s' = "state_after (init_100 css_demo c2) page",
            THEN conjunct1, THEN mp, OF so2, THEN conjunct2, THEN mp, OF conjI,
            OF n2 run[of "init_100 css_demo c2"]]
  have t2: "fst (init_100 css_demo c2 page) = Inr ()
     \<and> shape (state_after (init_100 css_demo c2) page) = shape page
     \<and> nodes (state_after (init_100 css_demo c2) page) = page_nodes
     \<and> listeners (state_after (init_100 css_demo c2) page) = []"
    using r2 c2' pg by simp
  have q3: "querySelectorAll_value css_demo (getOption (options (page\<lparr>options := o3\<rparr>))
              [''child_menu_selector'']) (Elem 1) (page\<lparr>options := o3\<rparr>) = Inr []"
    using g1 q' by (simp add: querySelectorAll_value_def)
  have t3: "init_menu_100 css_demo 1 (page\<lparr>options := o3\<rparr>) = (Inr (), page\<lparr>options := o3\<rparr>)"
    using init_is_noop[where css = css_demo and s = "page\<lparr>options := o3\<rparr>" and menu = 1,
            THEN conjunct2, THEN conjunct1, THEN mp, OF q3] .
  have ga1: "getArg a1 [''menu-selector''] = Inr b"
    and ga2: "getArg a2 [''menu-selector''] = Inr ''.toggle-sub-menus''"
    and ga3: "getArg a2 [''expanded-class''] = Inr []"
    and ga4: "getArg (options (page\<lparr>options := a3\<rparr>)) [''child-menu-selector''] = Inr b"
    using g6 by simp_all
  have qd: "querySelectorAll css_demo b Document page = Inr []" using q by simp
  have t4: "init_006 css_demo d1 page = (Inr (), page\<lparr>options := a1, menus := []\<rparr>)"
    using init_is_noop[where css = css_demo and s = page and config = d1 and args = a1
            and sel = b,
            THEN conjunct2, THEN conjunct2, THEN conjunct1, THEN mp, OF conjI, OF sa1 ga1,
            THEN conjunct1, THEN mp, OF disjI2, OF qd] .
  note r5 = init_is_noop[where css = css_demo and s = page and config = d2 and args = a2
            and sel = "''.toggle-sub-menus''"
            and r = "fst (init_006 css_demo d2 page)"
            and s' = "state_after (init_006 css_demo d2) page",
            THEN conjunct2, THEN conjunct2, THEN conjunct1, THEN mp, OF conjI, OF sa2 ga2,
            THEN conjunct2, THEN mp, OF conjI, OF ga3 run[of "init_006 css_demo d2"]]
  have t5: "fst (init_006 css_demo d2 page) = Inr ()
     \<and> shape (state_after (init_006 css_demo d2) page) = shape page
     \<and> nodes (state_after (init_006 css_demo d2) page) = page_nodes
     \<and> listeners (state_after (init_006 css_demo d2) page) = []"
    using r5 cm pg by simp
  have t6: "init_menu_006 css_demo 1 (page\<lparr>options := a3\<rparr>) = (Inr (), page\<lparr>options := a3\<rparr>)"
    using init_is_noop[where css = css_demo and s = "page\<lparr>options := a3\<rparr>" and menu = 1
            and csel = b,
            THEN conjunct2, THEN conjunct2, THEN conjunct2, THEN mp, OF conjI, OF ga4 q'] .
  from t1 t2 t3 t4 t5 t6 show ?thesis
    unfolding c1_def c2_def o1_def o3_def d1_def d2_def a1_def a3_def b_def by simp
qed

end
